theory Spec2Isabelle
  imports Main "HOL-Library.AList"
begin

section \<open>JavaScript values and strings\<close>

text \<open>
  A JavaScript string is modelled by the list of its UTF-16 code units, for the strings whose
  code units are all below 256: one \<^typ>\<open>char\<close> is one code unit, so \<^const>\<open>length\<close> is the
  \<^verbatim>\<open>.length\<close> of the source. The value \<^verbatim>\<open>undefined\<close> is \<^const>\<open>None\<close> of an option type.
  Numbers are the integers only.
\<close>

datatype jsval =
    JStr string
  | JNum int
  | JBool bool
  | JNull
  | JObj "(string \<times> jsval) list"
  | JArr "jsval list"

text \<open>The truthiness test of \<^verbatim>\<open>if (x)\<close>, \<^verbatim>\<open>!x\<close> and \<^verbatim>\<open>x || y\<close>.\<close>

fun truthy :: "jsval option \<Rightarrow> bool" where
  "truthy None = False"
| "truthy (Some (JStr s)) = (s \<noteq> [])"
| "truthy (Some (JNum n)) = (n \<noteq> 0)"
| "truthy (Some (JBool b)) = b"
| "truthy (Some JNull) = False"
| "truthy (Some (JObj kvs)) = True"
| "truthy (Some (JArr xs)) = True"

definition upper_letters :: string where
  "upper_letters = ''ABCDEFGHIJKLMNOPQRSTUVWXYZ'' @
     [CHR 0xC0, CHR 0xC1, CHR 0xC2, CHR 0xC3, CHR 0xC4, CHR 0xC5, CHR 0xC6, CHR 0xC7,
      CHR 0xC8, CHR 0xC9, CHR 0xCA, CHR 0xCB, CHR 0xCC, CHR 0xCD, CHR 0xCE, CHR 0xCF,
      CHR 0xD0, CHR 0xD1, CHR 0xD2, CHR 0xD3, CHR 0xD4, CHR 0xD5, CHR 0xD6,
      CHR 0xD8, CHR 0xD9, CHR 0xDA, CHR 0xDB, CHR 0xDC, CHR 0xDD, CHR 0xDE]"

definition lower_letters :: string where
  "lower_letters = ''abcdefghijklmnopqrstuvwxyz'' @
     [CHR 0xE0, CHR 0xE1, CHR 0xE2, CHR 0xE3, CHR 0xE4, CHR 0xE5, CHR 0xE6, CHR 0xE7,
      CHR 0xE8, CHR 0xE9, CHR 0xEA, CHR 0xEB, CHR 0xEC, CHR 0xED, CHR 0xEE, CHR 0xEF,
      CHR 0xF0, CHR 0xF1, CHR 0xF2, CHR 0xF3, CHR 0xF4, CHR 0xF5, CHR 0xF6,
      CHR 0xF8, CHR 0xF9, CHR 0xFA, CHR 0xFB, CHR 0xFC, CHR 0xFD, CHR 0xFE]"

text \<open>
  \<^verbatim>\<open>String.prototype.toLowerCase\<close> on code units below 256: the letters A to Z and the
  Latin-1 capitals 0xC0 to 0xDE (without the multiplication sign 0xD7) move up by 32.
\<close>

definition toLowerCase_char :: "char \<Rightarrow> char" where
  "toLowerCase_char c =
     (case map_of (zip upper_letters lower_letters) c of Some l \<Rightarrow> l | None \<Rightarrow> c)"

definition toLowerCase :: "string \<Rightarrow> string" where
  "toLowerCase s = map toLowerCase_char s"

text \<open>Decimal rendering of an array index, as \<^verbatim>\<open>`${index}`\<close> gives it.\<close>

definition digit_char :: "nat \<Rightarrow> char" where
  "digit_char n = ''0123456789'' ! n"

fun string_of_nat :: "nat \<Rightarrow> string" where
  "string_of_nat n =
     (if n < 10 then [digit_char n] else string_of_nat (n div 10) @ [digit_char (n mod 10)])"

declare string_of_nat.simps [simp del]

text \<open>
  The string conversion of a template literal \<^verbatim>\<open>`${x}`\<close>. An array joins its elements
  with commas, \<^verbatim>\<open>null\<close> elements giving the empty string.
\<close>

fun join_with :: "string \<Rightarrow> string list \<Rightarrow> string" where
  "join_with sep [] = []"
| "join_with sep [x] = x"
| "join_with sep (x # y # ys) = x @ sep @ join_with sep (y # ys)"

fun String_js :: "jsval \<Rightarrow> string" where
  "String_js (JStr s) = s"
| "String_js (JNum n) =
     (if n < 0 then CHR ''-'' # string_of_nat (nat (- n)) else string_of_nat (nat n))"
| "String_js (JBool b) = (if b then ''true'' else ''false'')"
| "String_js JNull = ''null''"
| "String_js (JObj kvs) = ''[object Object]''"
| "String_js (JArr xs) =
     join_with '','' (map (\<lambda>x. case x of JNull \<Rightarrow> [] | _ \<Rightarrow> String_js x) xs)"

definition template :: "jsval option \<Rightarrow> string" where
  "template v = (case v of None \<Rightarrow> ''undefined'' | Some x \<Rightarrow> String_js x)"

section \<open>Errors\<close>

datatype fault = Throttling | Timeout | Connectivity

text \<open>
  \<open>Error m\<close> is the generic \<^verbatim>\<open>new Error(m)\<close> of the source. The other constructors are
  the exceptions of the platform and of the engine's client: a false ConditionExpression, a
  request the engine rejects as malformed, and the transient failures of a request.
  \<open>OutsideModel\<close> is no error of the program: it marks a value that the model does not hold.
\<close>

datatype error =
    Error string
  | TypeError
  | SyntaxError
  | ConditionalCheckFailedException
  | ValidationException
  | TransientEngineError fault
  | OutsideModel

section \<open>Constants layer\<close>

type_synonym item = "string \<rightharpoonup> jsval"

abbreviation PARTITION_KEY :: string where "PARTITION_KEY \<equiv> ''PK''"
abbreviation SORT_KEY :: string where "SORT_KEY \<equiv> ''SK''"
abbreviation EXTERNAL_ID_KEY :: string where "EXTERNAL_ID_KEY \<equiv> ''ExternalIdKey''"
abbreviation EMAIL_KEY :: string where "EMAIL_KEY \<equiv> ''EmailKey''"
abbreviation CLKK_TAG_KEY :: string where "CLKK_TAG_KEY \<equiv> ''ClkkTagKey''"
abbreviation ID :: string where "ID \<equiv> ''id''"
abbreviation CREATED_AT :: string where "CREATED_AT \<equiv> ''createdAt''"
abbreviation UPDATED_AT :: string where "UPDATED_AT \<equiv> ''updatedAt''"
abbreviation CLERK_ID :: string where "CLERK_ID \<equiv> ''clerkId''"
abbreviation EMAIL :: string where "EMAIL \<equiv> ''email''"
abbreviation PHONE_NUMBER :: string where "PHONE_NUMBER \<equiv> ''phoneNumber''"
abbreviation FIRST_NAME :: string where "FIRST_NAME \<equiv> ''firstName''"
abbreviation LAST_NAME :: string where "LAST_NAME \<equiv> ''lastName''"
abbreviation CLKK_TAG :: string where "CLKK_TAG \<equiv> ''clkkTag''"
abbreviation KYC_STATUS :: string where "KYC_STATUS \<equiv> ''kycStatus''"
abbreviation KYC_DETAILS :: string where "KYC_DETAILS \<equiv> ''kycDetails''"
abbreviation PROFILE_IMAGE_URL :: string where "PROFILE_IMAGE_URL \<equiv> ''profileImageUrl''"
abbreviation DATE_OF_BIRTH :: string where "DATE_OF_BIRTH \<equiv> ''dateOfBirth''"
abbreviation ADDRESS :: string where "ADDRESS \<equiv> ''address''"
abbreviation METADATA :: string where "METADATA \<equiv> ''metadata''"
abbreviation USER_ID :: string where "USER_ID \<equiv> ''userId''"

abbreviation INDEXES_EMAIL :: string where "INDEXES_EMAIL \<equiv> ''EmailIndex''"
abbreviation INDEXES_CLKK_TAG :: string where "INDEXES_CLKK_TAG \<equiv> ''ClkkTagIndex''"

abbreviation ENTITY_PREFIXES_USER :: string where "ENTITY_PREFIXES_USER \<equiv> ''USER''"
abbreviation ENTITY_PREFIXES_CLERK :: string where "ENTITY_PREFIXES_CLERK \<equiv> ''CLERK''"
abbreviation ENTITY_PREFIXES_EMAIL :: string where "ENTITY_PREFIXES_EMAIL \<equiv> ''EMAIL''"
abbreviation ENTITY_PREFIXES_TAG :: string where "ENTITY_PREFIXES_TAG \<equiv> ''TAG''"

definition KYC_STATUS_values :: "string list" where
  "KYC_STATUS_values =
     [''NOT_STARTED'', ''PENDING'', ''IN_REVIEW'', ''APPROVED'', ''REJECTED'', ''EXPIRED'']"

subsection \<open>KEY_BUILDERS\<close>

definition KEY_BUILDERS_user :: "string \<Rightarrow> item" where
  "KEY_BUILDERS_user userId =
     [PARTITION_KEY \<mapsto> JStr (ENTITY_PREFIXES_USER @ ''#'' @ userId),
      SORT_KEY \<mapsto> JStr (ENTITY_PREFIXES_USER @ ''#'' @ userId)]"

definition KEY_BUILDERS_userByClerkId :: "string \<Rightarrow> item" where
  "KEY_BUILDERS_userByClerkId clerkId =
     [EXTERNAL_ID_KEY \<mapsto> JStr (ENTITY_PREFIXES_CLERK @ ''#'' @ clerkId)]"

definition KEY_BUILDERS_userByEmail :: "string \<Rightarrow> item" where
  "KEY_BUILDERS_userByEmail email =
     [EMAIL_KEY \<mapsto> JStr (ENTITY_PREFIXES_EMAIL @ ''#'' @ toLowerCase email)]"

definition KEY_BUILDERS_userByClkkTag :: "string \<Rightarrow> item" where
  "KEY_BUILDERS_userByClkkTag clkkTag =
     [CLKK_TAG_KEY \<mapsto> JStr (ENTITY_PREFIXES_TAG @ ''#'' @ toLowerCase clkkTag)]"

subsection \<open>CONDITION_BUILDERS and UPDATE_BUILDERS\<close>

text \<open>
  Expressions are kept as their abstract syntax: a condition is a function applied to a name
  placeholder, an update expression is the list of the \<^verbatim>\<open>SET\<close> clauses, each a name
  placeholder and a value placeholder. The text the source sends is \<open>render_condition\<close> and
  \<open>render_update\<close> of them.
\<close>

datatype cond_expr = attribute_exists string | attribute_not_exists string

record condition =
  ConditionExpression :: cond_expr
  ConditionAttributeNames :: "string \<rightharpoonup> string"

definition CONDITION_BUILDERS_attributeNotExists :: "string \<Rightarrow> condition" where
  "CONDITION_BUILDERS_attributeNotExists attribute =
     \<lparr>ConditionExpression = attribute_not_exists ''#attr'',
      ConditionAttributeNames = [''#attr'' \<mapsto> attribute]\<rparr>"

fun render_condition :: "cond_expr \<Rightarrow> string" where
  "render_condition (attribute_exists p) = ''attribute_exists('' @ p @ '')''"
| "render_condition (attribute_not_exists p) = ''attribute_not_exists('' @ p @ '')''"

record update_params =
  UpdateExpression :: "(string \<times> string) list"
  ExpressionAttributeNames :: "string \<rightharpoonup> string"
  ExpressionAttributeValues :: "string \<rightharpoonup> jsval"

definition render_update :: "(string \<times> string) list \<Rightarrow> string" where
  "render_update expressions =
     ''SET '' @ join_with '', '' (map (\<lambda>(p, v). p @ '' = '' @ v) expressions)"

text \<open>
  The body of the \<^verbatim>\<open>forEach\<close> over \<^verbatim>\<open>Object.entries(updates)\<close>: an entry whose value is
  \<^verbatim>\<open>undefined\<close> adds nothing, but keeps its index.
\<close>

fun set_entry :: "update_params \<Rightarrow> nat \<times> string \<times> jsval option \<Rightarrow> update_params" where
  "set_entry acc (index, key, None) = acc"
| "set_entry acc (index, key, Some v) =
     (let placeholder = ''#attr'' @ string_of_nat index;
          valuePlaceholder = '':val'' @ string_of_nat index
      in \<lparr>UpdateExpression = UpdateExpression acc @ [(placeholder, valuePlaceholder)],
          ExpressionAttributeNames = (ExpressionAttributeNames acc)(placeholder \<mapsto> key),
          ExpressionAttributeValues = (ExpressionAttributeValues acc)(valuePlaceholder \<mapsto> v)\<rparr>)"

definition UPDATE_BUILDERS_set :: "string \<Rightarrow> (string \<times> jsval option) list \<Rightarrow> update_params" where
  "UPDATE_BUILDERS_set now updates =
     (let acc = foldl set_entry
                  \<lparr>UpdateExpression = [], ExpressionAttributeNames = Map.empty,
                   ExpressionAttributeValues = Map.empty\<rparr>
                  (enumerate 0 updates);
          updatedAtPlaceholder = ''#attr'' @ string_of_nat (length updates);
          updatedAtValuePlaceholder = '':val'' @ string_of_nat (length updates)
      in \<lparr>UpdateExpression =
            UpdateExpression acc @ [(updatedAtPlaceholder, updatedAtValuePlaceholder)],
          ExpressionAttributeNames =
            (ExpressionAttributeNames acc)(updatedAtPlaceholder \<mapsto> UPDATED_AT),
          ExpressionAttributeValues =
            (ExpressionAttributeValues acc)(updatedAtValuePlaceholder \<mapsto> JStr now)\<rparr>)"

subsection \<open>QUERY_BUILDERS\<close>

text \<open>
  The expression \<^verbatim>\<open>`${attributeName} = :value`\<close> is kept as the attribute name and the value
  placeholder.
\<close>

record key_condition =
  expression :: "string \<times> string"
  values' :: "string \<rightharpoonup> jsval"

definition QUERY_BUILDERS_keyCondition :: "string \<Rightarrow> jsval option \<Rightarrow> key_condition" where
  "QUERY_BUILDERS_keyCondition attributeName value =
     \<lparr>expression = (attributeName, '':value''), values' = Map.empty('':value'' := value)\<rparr>"

section \<open>Platform functions of the pagination codec\<close>

text \<open>
  \<^verbatim>\<open>Buffer.from(text)\<close> encodes a string in UTF-8 and \<^verbatim>\<open>buffer.toString()\<close> decodes it. A
  code unit below 128 is one byte, one from 128 to 255 is the two bytes \<^verbatim>\<open>110000xx 10xxxxxx\<close>.
  Bytes that decode to anything else (a code point from 256, or the replacement character of
  an ill-formed sequence) give a text outside the modelled strings: \<open>None\<close>.
\<close>

definition utf8_encode :: "string \<Rightarrow> string" where
  "utf8_encode text =
     concat (map (\<lambda>c. if (of_char c :: nat) < 128 then [c]
                        else [char_of (192 + (of_char c :: nat) div 64),
                              char_of (128 + (of_char c :: nat) mod 64)]) text)"

fun utf8_decode :: "string \<Rightarrow> string option" where
  "utf8_decode [] = Some []"
| "utf8_decode (c # cs) =
     (if (of_char c :: nat) < 128 then map_option ((#) c) (utf8_decode cs)
      else if (of_char c :: nat) = 194 \<or> (of_char c :: nat) = 195 then
        (case cs of
           [] \<Rightarrow> None
         | d # ds \<Rightarrow>
             if 128 \<le> (of_char d :: nat) \<and> (of_char d :: nat) < 192
             then map_option ((#) (char_of (((of_char c :: nat) - 192) * 64 +
                                            ((of_char d :: nat) - 128))))
                    (utf8_decode ds)
             else None)
      else None)"

text \<open>
  \<^verbatim>\<open>buffer.toString('base64')\<close>: three bytes give four characters of the alphabet, a last
  group of one or two bytes is padded with \<^verbatim>\<open>=\<close>.
\<close>

definition base64_alphabet :: string where
  "base64_alphabet = ''ABCDEFGHIJKLMNOPQRSTUVWXYZabcdefghijklmnopqrstuvwxyz0123456789+/''"

fun sextets :: "nat list \<Rightarrow> nat list" where
  "sextets (a # b # c # bs) =
     [a div 4, (a mod 4) * 16 + b div 16, (b mod 16) * 4 + c div 64, c mod 64] @ sextets bs"
| "sextets [a, b] = [a div 4, (a mod 4) * 16 + b div 16, (b mod 16) * 4]"
| "sextets [a] = [a div 4, (a mod 4) * 16]"
| "sextets [] = []"

definition base64_encode :: "string \<Rightarrow> string" where
  "base64_encode bytes =
     map (\<lambda>i. base64_alphabet ! i) (sextets (map of_char bytes)) @
     replicate ((3 - length bytes mod 3) mod 3) (CHR ''='')"

text \<open>
  \<^verbatim>\<open>Buffer.from(text, 'base64')\<close> never fails: it reads up to the first \<^verbatim>\<open>=\<close>, skips every
  character outside the alphabet (the URL-safe \<^verbatim>\<open>-\<close> and \<^verbatim>\<open>_\<close> count as \<^verbatim>\<open>+\<close> and \<^verbatim>\<open>/\<close>),
  and turns each four characters into three bytes, a last group of two or three characters
  into one or two.
\<close>

definition unbase64 :: "char \<Rightarrow> nat option" where
  "unbase64 c =
     (case map_of (zip base64_alphabet [0 ..< 64]) c of
        Some i \<Rightarrow> Some i
      | None \<Rightarrow> if c = CHR ''-'' then Some 62 else if c = CHR ''_'' then Some 63 else None)"

fun octets :: "nat list \<Rightarrow> nat list" where
  "octets (a # b # c # d # ss) =
     [a * 4 + b div 16, (b mod 16) * 16 + c div 4, (c mod 4) * 64 + d] @ octets ss"
| "octets [a, b, c] = [a * 4 + b div 16, (b mod 16) * 16 + c div 4]"
| "octets [a, b] = [a * 4 + b div 16]"
| "octets [a] = []"
| "octets [] = []"

definition base64_decode :: "string \<Rightarrow> string" where
  "base64_decode text =
     map char_of (octets (List.map_filter unbase64 (takeWhile (\<lambda>c. c \<noteq> CHR ''='') text)))"

subsection \<open>JSON\<close>

text \<open>
  \<^verbatim>\<open>JSON.stringify\<close>: in a string the quotation mark, the backslash and the control
  characters below 0x20 are escaped, every other character is written as it is.
\<close>

definition hex_digit :: "nat \<Rightarrow> char" where
  "hex_digit n = ''0123456789abcdef'' ! n"

definition escape_char :: "char \<Rightarrow> string" where
  "escape_char c =
     (if c = CHR 0x22 then [CHR 0x5C, CHR 0x22]
      else if c = CHR 0x5C then [CHR 0x5C, CHR 0x5C]
      else if c = CHR 0x08 then [CHR 0x5C, CHR ''b'']
      else if c = CHR 0x0C then [CHR 0x5C, CHR ''f'']
      else if c = CHR 0x0A then [CHR 0x5C, CHR ''n'']
      else if c = CHR 0x0D then [CHR 0x5C, CHR ''r'']
      else if c = CHR 0x09 then [CHR 0x5C, CHR ''t'']
      else if (of_char c :: nat) < 32
      then [CHR 0x5C, CHR ''u'', CHR ''0'', CHR ''0'',
            hex_digit ((of_char c :: nat) div 16), hex_digit ((of_char c :: nat) mod 16)]
      else [c])"

definition quote :: "string \<Rightarrow> string" where
  "quote s = CHR 0x22 # concat (map escape_char s) @ [CHR 0x22]"

fun JSON_stringify :: "jsval \<Rightarrow> string" where
  "JSON_stringify (JStr s) = quote s"
| "JSON_stringify (JNum n) = String_js (JNum n)"
| "JSON_stringify (JBool b) = (if b then ''true'' else ''false'')"
| "JSON_stringify JNull = ''null''"
| "JSON_stringify (JObj kvs) =
     ''{'' @ join_with '','' (map (\<lambda>kv. quote (fst kv) @ '':'' @ JSON_stringify (snd kv)) kvs) @ ''}''"
| "JSON_stringify (JArr xs) = ''['' @ join_with '','' (map JSON_stringify xs) @ '']''"

text \<open>
  \<^verbatim>\<open>JSON.parse\<close>, by recursive descent; it throws a SyntaxError on a text that is not JSON.
  The result \<open>OutsideModel\<close> is no error of the program: it marks a text whose value the
  model does not hold (a number with a fraction or an exponent, a \<^verbatim>\<open>\u\<close> escape from 0x100).
  The first argument of \<open>parse_value\<close> bounds the number of nested and of successive calls;
  \<open>JSON_parse\<close> starts it above the length of the text.
\<close>

definition is_ws :: "char \<Rightarrow> bool" where
  "is_ws c = (c \<in> set [CHR 0x20, CHR 0x09, CHR 0x0A, CHR 0x0D])"

definition skip_ws :: "string \<Rightarrow> string" where
  "skip_ws s = dropWhile is_ws s"

definition is_digit :: "char \<Rightarrow> bool" where
  "is_digit c = (c \<in> set ''0123456789'')"

definition hex_value :: "char \<Rightarrow> nat option" where
  "hex_value c = map_of (zip ''0123456789abcdefABCDEF'' ([0 ..< 16] @ [10 ..< 16])) c"

definition unescape :: "char \<Rightarrow> char option" where
  "unescape e =
     map_of [(CHR 0x22, CHR 0x22), (CHR 0x5C, CHR 0x5C), (CHR ''/'', CHR ''/''),
             (CHR ''b'', CHR 0x08), (CHR ''f'', CHR 0x0C), (CHR ''n'', CHR 0x0A),
             (CHR ''r'', CHR 0x0D), (CHR ''t'', CHR 0x09)] e"

definition unicode_escape :: "string \<Rightarrow> error + char" where
  "unicode_escape hs =
     (case those (map hex_value hs) of
        Some [a, b, c, d] \<Rightarrow> if a = 0 \<and> b = 0 then Inr (char_of (c * 16 + d)) else Inl OutsideModel
      | _ \<Rightarrow> Inl SyntaxError)"

text \<open>The characters of a string literal, after its opening quotation mark.\<close>

fun parse_chars :: "string \<Rightarrow> error + string \<times> string" where
  "parse_chars [] = Inl SyntaxError"
| "parse_chars (c # cs) =
     (if c = CHR 0x22 then Inr ([], cs)
      else if c = CHR 0x5C then
        (case cs of
           [] \<Rightarrow> Inl SyntaxError
         | e # r \<Rightarrow>
             if e = CHR ''u'' then
               (case unicode_escape (take 4 r) of
                  Inl err \<Rightarrow> Inl err
                | Inr x \<Rightarrow>
                    (case parse_chars (drop 4 r) of
                       Inl err \<Rightarrow> Inl err
                     | Inr (s, rest) \<Rightarrow> Inr (x # s, rest)))
             else
               (case unescape e of
                  None \<Rightarrow> Inl SyntaxError
                | Some x \<Rightarrow>
                    (case parse_chars r of
                       Inl err \<Rightarrow> Inl err
                     | Inr (s, rest) \<Rightarrow> Inr (x # s, rest))))
      else if (of_char c :: nat) < 32 then Inl SyntaxError
      else (case parse_chars cs of
              Inl err \<Rightarrow> Inl err
            | Inr (s, rest) \<Rightarrow> Inr (c # s, rest)))"

definition digits_value :: "string \<Rightarrow> nat" where
  "digits_value ds =
     foldl (\<lambda>a c. 10 * a + (case map_of (zip ''0123456789'' [0 ..< 10]) c of Some d \<Rightarrow> d | None \<Rightarrow> 0))
       0 ds"

definition parse_number :: "string \<Rightarrow> error + jsval \<times> string" where
  "parse_number s =
     (let negative = (take 1 s = ''-'');
          t = (if negative then drop 1 s else s);
          ds = takeWhile is_digit t;
          rest = dropWhile is_digit t
      in if ds = [] \<or> (1 < length ds \<and> take 1 ds = ''0'') then Inl SyntaxError
         else if take 1 rest \<in> {''.'', ''e'', ''E''} then Inl OutsideModel
         else Inr (JNum (if negative then - int (digits_value ds) else int (digits_value ds)),
                   rest))"

definition parse_literal :: "string \<Rightarrow> jsval \<Rightarrow> string \<Rightarrow> error + jsval \<times> string" where
  "parse_literal word v s =
     (if take (length word) s = word then Inr (v, drop (length word) s) else Inl SyntaxError)"

fun parse_value :: "nat \<Rightarrow> string \<Rightarrow> error + jsval \<times> string"
  and parse_members :: "nat \<Rightarrow> (string \<times> jsval) list \<Rightarrow> string \<Rightarrow> error + jsval \<times> string"
  and parse_elements :: "nat \<Rightarrow> jsval list \<Rightarrow> string \<Rightarrow> error + jsval \<times> string"
where
  "parse_value 0 s = Inl OutsideModel"
| "parse_value (Suc n) s =
     (case skip_ws s of
        [] \<Rightarrow> Inl SyntaxError
      | c # cs \<Rightarrow>
          if c = CHR ''{'' then
            (if take 1 (skip_ws cs) = ''}'' then Inr (JObj [], drop 1 (skip_ws cs))
             else parse_members n [] cs)
          else if c = CHR ''['' then
            (if take 1 (skip_ws cs) = '']'' then Inr (JArr [], drop 1 (skip_ws cs))
             else parse_elements n [] cs)
          else if c = CHR 0x22 then
            (case parse_chars cs of
               Inl err \<Rightarrow> Inl err
             | Inr (str, rest) \<Rightarrow> Inr (JStr str, rest))
          else if c = CHR ''t'' then parse_literal ''true'' (JBool True) (c # cs)
          else if c = CHR ''f'' then parse_literal ''false'' (JBool False) (c # cs)
          else if c = CHR ''n'' then parse_literal ''null'' JNull (c # cs)
          else if c = CHR ''-'' \<or> is_digit c then parse_number (c # cs)
          else Inl SyntaxError)"
| "parse_members 0 acc s = Inl OutsideModel"
| "parse_members (Suc n) acc s =
     (case skip_ws s of
        [] \<Rightarrow> Inl SyntaxError
      | c # cs \<Rightarrow>
          if c = CHR 0x22 then
            (case parse_chars cs of
               Inl err \<Rightarrow> Inl err
             | Inr (k, r) \<Rightarrow>
                 if take 1 (skip_ws r) = '':'' then
                   (case parse_value n (drop 1 (skip_ws r)) of
                      Inl err \<Rightarrow> Inl err
                    | Inr (v, r2) \<Rightarrow>
                        if take 1 (skip_ws r2) = '','' then
                          parse_members n (AList.update k v acc) (drop 1 (skip_ws r2))
                        else if take 1 (skip_ws r2) = ''}'' then
                          Inr (JObj (AList.update k v acc), drop 1 (skip_ws r2))
                        else Inl SyntaxError)
                 else Inl SyntaxError)
          else Inl SyntaxError)"
| "parse_elements 0 acc s = Inl OutsideModel"
| "parse_elements (Suc n) acc s =
     (case parse_value n s of
        Inl err \<Rightarrow> Inl err
      | Inr (v, r) \<Rightarrow>
          if take 1 (skip_ws r) = '','' then parse_elements n (acc @ [v]) (drop 1 (skip_ws r))
          else if take 1 (skip_ws r) = '']'' then Inr (JArr (acc @ [v]), drop 1 (skip_ws r))
          else Inl SyntaxError)"

definition JSON_parse :: "string \<Rightarrow> error + jsval" where
  "JSON_parse text =
     (case parse_value (Suc (length text)) text of
        Inl err \<Rightarrow> Inl err
      | Inr (v, rest) \<Rightarrow> if skip_ws rest = [] then Inr v else Inl SyntaxError)"

section \<open>Common layer: pagination\<close>

record PaginationParams =
  limit :: "int option"
  nextToken :: "string option"

record query_paging =
  Limit :: int
  ExclusiveStartKey :: "jsval option"

text \<open>
  \<^verbatim>\<open>params.limit || 20\<close> takes 20 for an absent limit and for 0; \<^verbatim>\<open>params.nextToken ? ... :
  undefined\<close> takes the second branch for an absent token and for the empty string.
\<close>

definition parsePaginationParams :: "PaginationParams \<Rightarrow> error + query_paging" where
  "parsePaginationParams params =
     (let lim = (case limit params of None \<Rightarrow> 20 | Some n \<Rightarrow> if n = 0 then 20 else n)
      in case nextToken params of
           None \<Rightarrow> Inr \<lparr>Limit = lim, ExclusiveStartKey = None\<rparr>
         | Some token \<Rightarrow>
             if token = [] then Inr \<lparr>Limit = lim, ExclusiveStartKey = None\<rparr>
             else (case utf8_decode (base64_decode token) of
                     None \<Rightarrow> Inl OutsideModel
                   | Some text \<Rightarrow>
                       (case JSON_parse text of
                          Inl err \<Rightarrow> Inl err
                        | Inr key \<Rightarrow> Inr \<lparr>Limit = lim, ExclusiveStartKey = Some key\<rparr>)))"

definition createNextToken :: "jsval option \<Rightarrow> string option" where
  "createNextToken lastEvaluatedKey =
     (if truthy lastEvaluatedKey
      then map_option (\<lambda>key. base64_encode (utf8_encode (JSON_stringify key))) lastEvaluatedKey
      else None)"

section \<open>The User entity\<close>

text \<open>
  A field holds a value or \<^verbatim>\<open>undefined\<close>. The first three fields are those of BaseEntity.
\<close>

record user =
  id' :: "jsval option"
  createdAt :: "jsval option"
  updatedAt :: "jsval option"
  clerkId :: "jsval option"
  email :: "jsval option"
  phoneNumber :: "jsval option"
  firstName :: "jsval option"
  lastName :: "jsval option"
  clkkTag :: "jsval option"
  kycStatus :: "jsval option"
  kycDetails :: "jsval option"
  profileImageUrl :: "jsval option"
  dateOfBirth :: "jsval option"
  address :: "jsval option"
  metadata :: "jsval option"

definition getPrimaryKey :: "user \<Rightarrow> item" where
  "getPrimaryKey u = KEY_BUILDERS_user (template (id' u))"

text \<open>
  \<^verbatim>\<open>if (this.x) item[k] = this.x\<close>. An attribute assigned \<^verbatim>\<open>undefined\<close> reads back as
  \<^verbatim>\<open>undefined\<close> and is dropped by the document client (removeUndefinedValues), so it is
  an absent attribute of the item.
\<close>

definition set_if :: "string \<Rightarrow> jsval option \<Rightarrow> item \<Rightarrow> item" where
  "set_if k v item = (if truthy v then item(k := v) else item)"

text \<open>
  \<^verbatim>\<open>toLowerCase\<close> is a method of strings only: the call on any other value throws a
  TypeError.
\<close>

definition toItem :: "user \<Rightarrow> error + item" where
  "toItem u =
     (let item = Map.empty(ID := id' u, CLERK_ID := clerkId u, EMAIL := email u,
                                KYC_STATUS := kycStatus u);
          item = set_if PHONE_NUMBER (phoneNumber u) item;
          item = set_if FIRST_NAME (firstName u) item;
          item = set_if LAST_NAME (lastName u) item;
          item = set_if CLKK_TAG (clkkTag u) item;
          item = set_if KYC_DETAILS (kycDetails u) item;
          item = set_if PROFILE_IMAGE_URL (profileImageUrl u) item;
          item = set_if DATE_OF_BIRTH (dateOfBirth u) item;
          item = set_if ADDRESS (address u) item;
          item = set_if METADATA (metadata u) item;
          item = item(EXTERNAL_ID_KEY :=
                   KEY_BUILDERS_userByClerkId (template (clerkId u)) EXTERNAL_ID_KEY)
      in case email u of
           Some (JStr e) \<Rightarrow>
             (let item = item(EMAIL_KEY := KEY_BUILDERS_userByEmail e EMAIL_KEY)
              in if truthy (clkkTag u)
                 then (case clkkTag u of
                         Some (JStr t) \<Rightarrow>
                           Inr (item(CLKK_TAG_KEY := KEY_BUILDERS_userByClkkTag t CLKK_TAG_KEY))
                       | _ \<Rightarrow> Inl TypeError)
                 else Inr item)
         | _ \<Rightarrow> Inl TypeError)"

definition fromItem :: "item \<Rightarrow> user" where
  "fromItem item =
     \<lparr>id' = item ID,
      createdAt = item CREATED_AT,
      updatedAt = item UPDATED_AT,
      clerkId = item CLERK_ID,
      email = item EMAIL,
      phoneNumber = item PHONE_NUMBER,
      firstName = item FIRST_NAME,
      lastName = item LAST_NAME,
      clkkTag = item CLKK_TAG,
      kycStatus = item KYC_STATUS,
      kycDetails = item KYC_DETAILS,
      profileImageUrl = item PROFILE_IMAGE_URL,
      dateOfBirth = item DATE_OF_BIRTH,
      address = item ADDRESS,
      metadata = item METADATA\<rparr>"

subsection \<open>validate\<close>

text \<open>
  The zod schema, check by check. \<open>z_string lo hi\<close> is \<^verbatim>\<open>z.string().min(lo).max(hi)\<close>,
  \<open>optional\<close> lets \<^verbatim>\<open>undefined\<close> pass. The format test of \<^verbatim>\<open>z.string().email()\<close> belongs to
  the zod library and is the parameter \<open>isEmail\<close>. The regular expression of
  \<^verbatim>\<open>commonSchemas.phoneNumber\<close> is \<^verbatim>\<open>/^\+?[1-9]\d{1,14}$/\<close>.
\<close>

definition z_string :: "nat \<Rightarrow> nat option \<Rightarrow> jsval option \<Rightarrow> bool" where
  "z_string lo hi v =
     (case v of
        Some (JStr s) \<Rightarrow> lo \<le> length s \<and> (case hi of None \<Rightarrow> True | Some h \<Rightarrow> length s \<le> h)
      | _ \<Rightarrow> False)"

definition optional :: "(jsval option \<Rightarrow> bool) \<Rightarrow> jsval option \<Rightarrow> bool" where
  "optional p v = (v = None \<or> p v)"

definition phone_regex :: "string \<Rightarrow> bool" where
  "phone_regex s =
     (let t = (case s of c # r \<Rightarrow> if c = CHR ''+'' then r else s | [] \<Rightarrow> s)
      in case t of
           [] \<Rightarrow> False
         | d # ds \<Rightarrow> d \<in> set ''123456789'' \<and> 1 \<le> length ds \<and> length ds \<le> 14 \<and>
                     list_all (\<lambda>c. c \<in> set ''0123456789'') ds)"

definition z_phoneNumber :: "jsval option \<Rightarrow> bool" where
  "z_phoneNumber v = (case v of Some (JStr s) \<Rightarrow> phone_regex s | _ \<Rightarrow> False)"

definition z_email :: "(string \<Rightarrow> bool) \<Rightarrow> jsval option \<Rightarrow> bool" where
  "z_email isEmail v = (case v of Some (JStr s) \<Rightarrow> isEmail s | _ \<Rightarrow> False)"

definition z_enum :: "string list \<Rightarrow> jsval option \<Rightarrow> bool" where
  "z_enum vs v = (case v of Some (JStr s) \<Rightarrow> s \<in> set vs | _ \<Rightarrow> False)"

definition issue :: "string \<Rightarrow> bool \<Rightarrow> string list" where
  "issue path ok = (if ok then [] else [path])"

definition issues :: "(string \<Rightarrow> bool) \<Rightarrow> user \<Rightarrow> string list" where
  "issues isEmail u =
     issue ''id'' (z_string 1 None (id' u)) @
     issue ''clerkId'' (z_string 1 None (clerkId u)) @
     issue ''email'' (z_email isEmail (email u)) @
     issue ''phoneNumber'' (optional z_phoneNumber (phoneNumber u)) @
     issue ''firstName'' (optional (z_string 1 (Some 50)) (firstName u)) @
     issue ''lastName'' (optional (z_string 1 (Some 50)) (lastName u)) @
     issue ''clkkTag'' (optional (z_string 3 (Some 20)) (clkkTag u)) @
     issue ''kycStatus'' (z_enum KYC_STATUS_values (kycStatus u))"

text \<open>
  The error thrown is \<^verbatim>\<open>new Error(`User validation failed: ${message}`)\<close>; zod's message, a
  rendering of its issues, is abbreviated to the paths of the failing fields.
\<close>

definition validate :: "(string \<Rightarrow> bool) \<Rightarrow> user \<Rightarrow> error + unit" where
  "validate isEmail u =
     (case issues isEmail u of
        [] \<Rightarrow> Inr ()
      | ps \<Rightarrow> Inl (Error (''User validation failed: '' @ join_with '', '' ps)))"

section \<open>The key-value engine\<close>

text \<open>
  The table holds one item per primary key (the values of its PK and SK attributes, both
  strings). A request either meets a transient fault, and then changes nothing, or is
  executed: a put writes the whole item if its condition holds on the item now stored at
  that key, a get reads (with a projection, only the projected attribute), an update applies
  its \<^verbatim>\<open>SET\<close> clauses to the stored item, or to a new item holding only the key, and
  returns the new item. The engine rejects an update whose clauses name an attribute twice
  or name a key attribute, and any request whose placeholders are unbound or whose key
  attributes are missing. Size limits, reserved words and the types of index keys are not
  modelled.
\<close>

type_synonym pkey = "string \<times> string"
type_synonym table = "(pkey \<times> item) list"

definition key_of :: "item \<Rightarrow> pkey option" where
  "key_of it =
     (case it PARTITION_KEY of
        Some (JStr p) \<Rightarrow> (case it SORT_KEY of Some (JStr s) \<Rightarrow> Some (p, s) | _ \<Rightarrow> None)
      | _ \<Rightarrow> None)"

definition eval_condition :: "condition \<Rightarrow> item option \<Rightarrow> bool option" where
  "eval_condition c stored =
     (case ConditionExpression c of
        attribute_exists p \<Rightarrow>
          (case ConditionAttributeNames c p of
             None \<Rightarrow> None
           | Some a \<Rightarrow> Some (case stored of None \<Rightarrow> False | Some it \<Rightarrow> it a \<noteq> None))
      | attribute_not_exists p \<Rightarrow>
          (case ConditionAttributeNames c p of
             None \<Rightarrow> None
           | Some a \<Rightarrow> Some (case stored of None \<Rightarrow> True | Some it \<Rightarrow> it a = None)))"

definition engine_put :: "item \<Rightarrow> condition option \<Rightarrow> table \<Rightarrow> error + unit \<times> table" where
  "engine_put it cond t =
     (case key_of it of
        None \<Rightarrow> Inl ValidationException
      | Some k \<Rightarrow>
          (case cond of
             None \<Rightarrow> Inr ((), AList.update k it t)
           | Some c \<Rightarrow>
               (case eval_condition c (map_of t k) of
                  None \<Rightarrow> Inl ValidationException
                | Some ok \<Rightarrow>
                    if ok then Inr ((), AList.update k it t)
                    else Inl ConditionalCheckFailedException)))"

definition engine_get :: "item \<Rightarrow> string option \<Rightarrow> table \<Rightarrow> error + item option \<times> table" where
  "engine_get key projection t =
     (case key_of key of
        None \<Rightarrow> Inl ValidationException
      | Some k \<Rightarrow>
          Inr (map_option (\<lambda>it. case projection of None \<Rightarrow> it | Some a \<Rightarrow> it |` {a})
                 (map_of t k), t))"

definition engine_delete :: "item \<Rightarrow> table \<Rightarrow> error + unit \<times> table" where
  "engine_delete key t =
     (case key_of key of
        None \<Rightarrow> Inl ValidationException
      | Some k \<Rightarrow> Inr ((), AList.delete k t))"

definition resolve_clauses :: "update_params \<Rightarrow> (string \<times> jsval) list option" where
  "resolve_clauses p =
     those (map (\<lambda>(n, v). case ExpressionAttributeNames p n of
                             None \<Rightarrow> None
                           | Some a \<Rightarrow> map_option (Pair a) (ExpressionAttributeValues p v))
                (UpdateExpression p))"

definition engine_update :: "item \<Rightarrow> update_params \<Rightarrow> table \<Rightarrow> error + item \<times> table" where
  "engine_update key p t =
     (case key_of key of
        None \<Rightarrow> Inl ValidationException
      | Some k \<Rightarrow>
          (case resolve_clauses p of
             None \<Rightarrow> Inl ValidationException
           | Some sets \<Rightarrow>
               if distinct (map fst sets) \<and> PARTITION_KEY \<notin> set (map fst sets) \<and>
                  SORT_KEY \<notin> set (map fst sets)
               then (let old = (case map_of t k of
                                  None \<Rightarrow> [PARTITION_KEY \<mapsto> JStr (fst k), SORT_KEY \<mapsto> JStr (snd k)]
                                | Some it \<Rightarrow> it);
                         new = old ++ map_of sets
                     in Inr (new, AList.update k new t))
               else Inl ValidationException))"

subsection \<open>Requests\<close>

datatype command =
    PutCommand item "condition option"
  | GetCommand item "string option"
  | UpdateCommand item update_params
  | DeleteCommand item
  | BatchGetCommand "item list"
  | BatchWriteCommand "item list"
  | QueryCommand string key_condition query_paging bool

datatype level = WARN | ERROR

text \<open>
  The world outside the process: the table, the requests sent to the engine so far, the
  warnings and errors written to the logger, and the metrics added to the Metrics object,
  each with its name, its unit and its value. Informational logging and tracing change no
  result and are left out.
\<close>

record world =
  table :: table
  sent :: "command list"
  logs :: "(level \<times> string) list"
  metrics :: "(string \<times> jsval option \<times> nat) list"

definition log :: "level \<Rightarrow> string \<Rightarrow> world \<Rightarrow> world" where
  "log l m w = w\<lparr>logs := logs w @ [(l, m)]\<rparr>"

text \<open>
  \<^verbatim>\<open>docClient.send(command)\<close>: the request is sent; a fault makes it fail with a transient
  error and leaves the table as it was.
\<close>

definition send :: "fault option \<Rightarrow> command \<Rightarrow> (table \<Rightarrow> error + 'r \<times> table) \<Rightarrow> world \<Rightarrow>
    (error + 'r) \<times> world" where
  "send f c run w =
     (let w1 = w\<lparr>sent := sent w @ [c]\<rparr>
      in case f of
           Some x \<Rightarrow> (Inl (TransientEngineError x), w1)
         | None \<Rightarrow>
             (case run (table w1) of
                Inl e \<Rightarrow> (Inl e, w1)
              | Inr (r, t) \<Rightarrow> (Inr r, w1\<lparr>table := t\<rparr>)))"

section \<open>Powertools layer: logMetric\<close>

text \<open>
  \<^verbatim>\<open>logMetric(name, value, unit = MetricUnits.Count)\<close> is called with two arguments
  everywhere, so each call reads \<^verbatim>\<open>MetricUnits.Count\<close>. \<^verbatim>\<open>MetricUnits\<close> is imported from the
  metrics library, which is not part of the sources: its value is a parameter, the object
  the library exports under that name, or \<^verbatim>\<open>undefined\<close> when the library exports no such
  name. Reading a property of \<^verbatim>\<open>undefined\<close> throws a TypeError; otherwise
  \<^verbatim>\<open>metrics.addMetric(name, unit, value)\<close> stores the metric.
\<close>

type_synonym metric_units = "(string \<times> jsval) list option"

definition logMetric :: "metric_units \<Rightarrow> string \<Rightarrow> nat \<Rightarrow> world \<Rightarrow> (error + unit) \<times> world" where
  "logMetric MetricUnits name value w =
     (case MetricUnits of
        None \<Rightarrow> (Inl TypeError, w)
      | Some units \<Rightarrow>
          (Inr (), w\<lparr>metrics := metrics w @ [(name, map_of units ''Count'', value)]\<rparr>))"

text \<open>
  The catch block of the operations that count their failures:
  \<^verbatim>\<open>logger.error(message, error); logMetric(name, 1); throw error\<close>. When \<open>logMetric\<close> throws,
  its error is the one that leaves the block.
\<close>

definition catch_block :: "metric_units \<Rightarrow> string \<Rightarrow> string \<Rightarrow> error \<Rightarrow> world \<Rightarrow> error \<times> world" where
  "catch_block MetricUnits message name err w =
     (case logMetric MetricUnits name 1 (log ERROR message w) of
        (Inl e, w1) \<Rightarrow> (e, w1)
      | (Inr ok, w1) \<Rightarrow> (err, w1))"

section \<open>BaseEntity, at class User\<close>

text \<open>
  The operations of the abstract class, with its abstract methods bound to those of User, the
  one subclass, whose \<^verbatim>\<open>constructor.name\<close> is \<^verbatim>\<open>User\<close>. Each takes the value of
  \<^verbatim>\<open>MetricUnits\<close>, the time \<open>now\<close> that \<^verbatim>\<open>new Date().toISOString()\<close> returns and the fault its
  request meets, if any, and returns its result, the entity object after the call and the
  world after the call. The body of \<^verbatim>\<open>try\<close> runs up to its first error, which the catch
  block of the operation receives.
\<close>

definition save_catch :: "metric_units \<Rightarrow> error \<Rightarrow> user \<Rightarrow> world \<Rightarrow>
    (error + unit) \<times> user \<times> world" where
  "save_catch MetricUnits err u w =
     (case catch_block MetricUnits ''Failed to save entity'' ''UserSaveError'' err w of
        (e, w1) \<Rightarrow> (Inl e, u, w1))"

definition save :: "(string \<Rightarrow> bool) \<Rightarrow> metric_units \<Rightarrow> string \<Rightarrow> fault option \<Rightarrow> user \<Rightarrow>
    world \<Rightarrow> (error + unit) \<times> user \<times> world" where
  "save isEmail MetricUnits now f u w =
     (case validate isEmail u of
        Inl e \<Rightarrow> save_catch MetricUnits e u (log ERROR ''User validation failed'' w)
      | Inr ok \<Rightarrow>
          (let u1 = (if truthy (createdAt u) then u else u\<lparr>createdAt := Some (JStr now)\<rparr>);
               u2 = u1\<lparr>updatedAt := Some (JStr now)\<rparr>
           in case toItem u2 of
                Inl e \<Rightarrow> save_catch MetricUnits e u2 w
              | Inr it \<Rightarrow>
                  (let item = (getPrimaryKey u2 ++ it)
                                (CREATED_AT := createdAt u2, UPDATED_AT := updatedAt u2)
                   in case send f (PutCommand item None) (engine_put item None) w of
                        (Inl e, w1) \<Rightarrow> save_catch MetricUnits e u2 w1
                      | (Inr sent_ok, w1) \<Rightarrow>
                          (case logMetric MetricUnits ''UserSaved'' 1 w1 of
                             (Inl e, w2) \<Rightarrow> save_catch MetricUnits e u2 w2
                           | (Inr logged, w2) \<Rightarrow> (Inr (), u2, w2)))))"

text \<open>
  The catch block of \<open>create\<close> first tests \<^verbatim>\<open>error instanceof
  ConditionalCheckFailedException\<close>: for that error it logs a warning and throws the
  already-exists error, without a metric.
\<close>

definition create_catch :: "metric_units \<Rightarrow> error \<Rightarrow> user \<Rightarrow> world \<Rightarrow>
    (error + unit) \<times> user \<times> world" where
  "create_catch MetricUnits err u w =
     (if err = ConditionalCheckFailedException
      then (Inl (Error (''User with id '' @ template (id' u) @ '' already exists'')),
            u, log WARN ''Entity already exists'' w)
      else (case catch_block MetricUnits ''Failed to create entity'' ''UserCreateError'' err w of
              (e, w1) \<Rightarrow> (Inl e, u, w1)))"

definition create :: "(string \<Rightarrow> bool) \<Rightarrow> metric_units \<Rightarrow> string \<Rightarrow> fault option \<Rightarrow> user \<Rightarrow>
    world \<Rightarrow> (error + unit) \<times> user \<times> world" where
  "create isEmail MetricUnits now f u w =
     (case validate isEmail u of
        Inl e \<Rightarrow> create_catch MetricUnits e u (log ERROR ''User validation failed'' w)
      | Inr ok \<Rightarrow>
          (let u1 = u\<lparr>createdAt := Some (JStr now), updatedAt := Some (JStr now)\<rparr>
           in case toItem u1 of
                Inl e \<Rightarrow> create_catch MetricUnits e u1 w
              | Inr it \<Rightarrow>
                  (let item = (getPrimaryKey u1 ++ it)
                                (CREATED_AT := createdAt u1, UPDATED_AT := updatedAt u1);
                       condition = CONDITION_BUILDERS_attributeNotExists PARTITION_KEY
                   in case send f (PutCommand item (Some condition))
                             (engine_put item (Some condition)) w of
                        (Inl e, w1) \<Rightarrow> create_catch MetricUnits e u1 w1
                      | (Inr sent_ok, w1) \<Rightarrow>
                          (case logMetric MetricUnits ''UserCreated'' 1 w1 of
                             (Inl e, w2) \<Rightarrow> create_catch MetricUnits e u1 w2
                           | (Inr logged, w2) \<Rightarrow> (Inr (), u1, w2)))))"

text \<open>
  \<^verbatim>\<open>Object.assign(this, this.fromItem(attributes))\<close> overwrites every field of the entity,
  since the object \<open>fromItem\<close> returns has all of them: the entity becomes \<open>fromItem\<close> of the
  attributes. An update with \<^verbatim>\<open>ReturnValues: 'ALL_NEW'\<close> that succeeds returns them. The
  entity is assigned before \<open>logMetric\<close> is called.
\<close>

definition update_catch :: "metric_units \<Rightarrow> error \<Rightarrow> user \<Rightarrow> world \<Rightarrow>
    (error + unit) \<times> user \<times> world" where
  "update_catch MetricUnits err u w =
     (case catch_block MetricUnits ''Failed to update entity'' ''UserUpdateError'' err w of
        (e, w1) \<Rightarrow> (Inl e, u, w1))"

definition update :: "metric_units \<Rightarrow> string \<Rightarrow> fault option \<Rightarrow> (string \<times> jsval option) list \<Rightarrow>
    user \<Rightarrow> world \<Rightarrow> (error + unit) \<times> user \<times> world" where
  "update MetricUnits now f updates u w =
     (let updateExpression = UPDATE_BUILDERS_set now updates
      in case send f (UpdateCommand (getPrimaryKey u) updateExpression)
                (engine_update (getPrimaryKey u) updateExpression) w of
           (Inl e, w1) \<Rightarrow> update_catch MetricUnits e u w1
         | (Inr attributes, w1) \<Rightarrow>
             (case logMetric MetricUnits ''UserUpdated'' 1 w1 of
                (Inl e, w2) \<Rightarrow> update_catch MetricUnits e (fromItem attributes) w2
              | (Inr logged, w2) \<Rightarrow> (Inr (), fromItem attributes, w2)))"

definition delete_catch :: "metric_units \<Rightarrow> error \<Rightarrow> world \<Rightarrow> (error + unit) \<times> world" where
  "delete_catch MetricUnits err w =
     (case catch_block MetricUnits ''Failed to delete entity'' ''UserDeleteError'' err w of
        (e, w1) \<Rightarrow> (Inl e, w1))"

definition delete :: "metric_units \<Rightarrow> fault option \<Rightarrow> user \<Rightarrow> world \<Rightarrow> (error + unit) \<times> world" where
  "delete MetricUnits f u w =
     (case send f (DeleteCommand (getPrimaryKey u)) (engine_delete (getPrimaryKey u)) w of
        (Inl e, w1) \<Rightarrow> delete_catch MetricUnits e w1
      | (Inr sent_ok, w1) \<Rightarrow>
          (case logMetric MetricUnits ''UserDeleted'' 1 w1 of
             (Inl e, w2) \<Rightarrow> delete_catch MetricUnits e w2
           | (Inr logged, w2) \<Rightarrow> (Inr (), w2)))"

text \<open>\<open>getByKey\<close> and \<open>exists\<close> log no metric.\<close>

definition getByKey :: "fault option \<Rightarrow> item \<Rightarrow> world \<Rightarrow> (error + user option) \<times> world" where
  "getByKey f key w =
     (case send f (GetCommand key None) (engine_get key None) w of
        (Inl e, w1) \<Rightarrow> (Inl e, log ERROR ''Failed to get entity'' w1)
      | (Inr None, w1) \<Rightarrow> (Inr None, w1)
      | (Inr (Some item), w1) \<Rightarrow> (Inr (Some (fromItem item)), w1))"

definition exists :: "fault option \<Rightarrow> user \<Rightarrow> world \<Rightarrow> (error + bool) \<times> world" where
  "exists f u w =
     (case send f (GetCommand (getPrimaryKey u) (Some PARTITION_KEY))
             (engine_get (getPrimaryKey u) (Some PARTITION_KEY)) w of
        (Inl e, w1) \<Rightarrow> (Inr False, log ERROR ''Failed to check entity existence'' w1)
      | (Inr result, w1) \<Rightarrow> (Inr (result \<noteq> None), w1))"

text \<open>\<^verbatim>\<open>User.getById\<close>.\<close>

definition getById :: "fault option \<Rightarrow> string \<Rightarrow> world \<Rightarrow> (error + user option) \<times> world" where
  "getById f userId w = getByKey f (KEY_BUILDERS_user userId) w"

section \<open>BaseRepository, at entity User\<close>

text \<open>
  \<^verbatim>\<open>chunkArray\<close>: the loop \<^verbatim>\<open>for (let i = 0; i < array.length; i += size)\<close> pushing
  \<^verbatim>\<open>array.slice(i, i + size)\<close>. With size 0 it does not end, so the loop is a partial
  function: \<open>None\<close> is the run that never returns.
\<close>

partial_function (option) chunk_loop :: "'a list \<Rightarrow> nat \<Rightarrow> nat \<Rightarrow> 'a list list \<Rightarrow> 'a list list option"
  where
  "chunk_loop array size' i chunks =
     (if i < length array
      then chunk_loop array size' (i + size') (chunks @ [take size' (drop i array)])
      else Some chunks)"

definition chunkArray :: "'a list \<Rightarrow> nat \<Rightarrow> 'a list list option" where
  "chunkArray array size' = chunk_loop array size' 0 []"

text \<open>The chunks in closed form, for a positive size.\<close>

fun chunks_of :: "nat \<Rightarrow> 'a list \<Rightarrow> 'a list list" where
  "chunks_of size' xs =
     (if xs = [] \<or> size' = 0 then [] else take size' xs # chunks_of size' (drop size' xs))"

declare chunks_of.simps [simp del]

subsection \<open>Batch requests of the engine\<close>

text \<open>
  What the engine does with one batch request: it meets a fault, or it processes the keys
  (the items) that satisfy a predicate and reports the others as unprocessed. A plan lists
  the outcomes of the successive requests; once it is used up the engine processes
  everything. The engine rejects an empty batch, a batch above its limit (100 keys to get,
  25 items to write) and a batch that names a primary key twice. A batch get answers with
  the stored items of the processed keys, in the order of the keys.
\<close>

datatype outcome = Fails fault | Processes "pkey \<Rightarrow> bool"

fun fault_of :: "outcome list \<Rightarrow> fault option" where
  "fault_of (Fails x # plan) = Some x"
| "fault_of plan = None"

fun processes :: "outcome list \<Rightarrow> pkey \<Rightarrow> bool" where
  "processes (Processes p # plan) k = p k"
| "processes plan k = True"

definition engine_batch_get :: "(pkey \<Rightarrow> bool) \<Rightarrow> item list \<Rightarrow> table \<Rightarrow>
    error + (item list \<times> pkey list) \<times> table" where
  "engine_batch_get p keys t =
     (let ks = List.map_filter key_of keys
      in if keys \<noteq> [] \<and> length keys \<le> 100 \<and> length ks = length keys \<and> distinct ks
         then Inr ((List.map_filter (map_of t) (filter p ks), filter (\<lambda>k. \<not> p k) ks), t)
         else Inl ValidationException)"

definition engine_batch_write :: "(pkey \<Rightarrow> bool) \<Rightarrow> item list \<Rightarrow> table \<Rightarrow>
    error + item list \<times> table" where
  "engine_batch_write p items t =
     (let ks = List.map_filter key_of items
      in if items \<noteq> [] \<and> length items \<le> 25 \<and> length ks = length items \<and> distinct ks
         then Inr (filter (\<lambda>it. case key_of it of None \<Rightarrow> False | Some k \<Rightarrow> \<not> p k) items,
                   foldl (\<lambda>t' it. case key_of it of
                                     None \<Rightarrow> t'
                                   | Some k \<Rightarrow> if p k then AList.update k it t' else t')
                     t items)
         else Inl ValidationException)"

subsection \<open>batchGet and batchWrite\<close>

fun batchGet_loop :: "outcome list \<Rightarrow> item list list \<Rightarrow> user list \<Rightarrow> world \<Rightarrow>
    (error + user list) \<times> world" where
  "batchGet_loop plan [] allItems w = (Inr allItems, w)"
| "batchGet_loop plan (chunk # chunks) allItems w =
     (case send (fault_of plan) (BatchGetCommand chunk)
             (engine_batch_get (processes plan) chunk) w of
        (Inl e, w1) \<Rightarrow> (Inl e, w1)
      | (Inr (responses, unprocessed), w1) \<Rightarrow>
          batchGet_loop (tl plan) chunks (allItems @ map fromItem responses)
            (if unprocessed \<noteq> [] then log WARN ''Unprocessed keys in batch get'' w1 else w1))"

text \<open>
  The repository is the UserRepository, whose \<^verbatim>\<open>constructor.name\<close> names its metrics. After
  the loop \<open>batchGet\<close> logs two metrics; its catch block logs the error and a third.
\<close>

definition batchGet_catch :: "metric_units \<Rightarrow> error \<Rightarrow> world \<Rightarrow> (error + user list) \<times> world" where
  "batchGet_catch MetricUnits err w =
     (case catch_block MetricUnits ''Failed to batch get items''
             ''UserRepositoryBatchGetError'' err w of
        (e, w1) \<Rightarrow> (Inl e, w1))"

definition batchGet :: "metric_units \<Rightarrow> outcome list \<Rightarrow> item list \<Rightarrow> world \<Rightarrow>
    ((error + user list) \<times> world) option" where
  "batchGet MetricUnits plan keys w =
     map_option
       (\<lambda>chunks.
          case batchGet_loop plan chunks [] w of
            (Inl e, w1) \<Rightarrow> batchGet_catch MetricUnits e w1
          | (Inr allItems, w1) \<Rightarrow>
              (case logMetric MetricUnits ''UserRepositoryBatchGet'' 1 w1 of
                 (Inl e, w2) \<Rightarrow> batchGet_catch MetricUnits e w2
               | (Inr logged, w2) \<Rightarrow>
                   (case logMetric MetricUnits ''UserRepositoryBatchGetItemCount''
                           (length allItems) w2 of
                      (Inl e, w3) \<Rightarrow> batchGet_catch MetricUnits e w3
                    | (Inr counted, w3) \<Rightarrow> (Inr allItems, w3))))
       (chunkArray keys 100)"

text \<open>
  The item of one put request of \<open>batchWrite\<close>. The clock is read for createdAt only when
  the entity has none (\<^verbatim>\<open>entity.createdAt || new Date().toISOString()\<close>) and then for
  updatedAt: \<open>now n\<close> is reading number \<open>n\<close> of the clock during the call, and the number of
  the next reading is returned with the item.
\<close>

definition putRequest :: "(nat \<Rightarrow> string) \<Rightarrow> nat \<Rightarrow> user \<Rightarrow> error + item \<times> nat" where
  "putRequest now n entity =
     (case toItem entity of
        Inl e \<Rightarrow> Inl e
      | Inr it \<Rightarrow>
          if truthy (createdAt entity)
          then Inr ((getPrimaryKey entity ++ it)
                      (CREATED_AT := createdAt entity, UPDATED_AT := Some (JStr (now n))),
                    n + 1)
          else Inr ((getPrimaryKey entity ++ it)
                      (CREATED_AT := Some (JStr (now n)),
                       UPDATED_AT := Some (JStr (now (n + 1)))),
                    n + 2))"

fun putRequests :: "(nat \<Rightarrow> string) \<Rightarrow> nat \<Rightarrow> user list \<Rightarrow> error + item list \<times> nat" where
  "putRequests now n [] = Inr ([], n)"
| "putRequests now n (entity # chunk) =
     (case putRequest now n entity of
        Inl e \<Rightarrow> Inl e
      | Inr (it, n1) \<Rightarrow>
          (case putRequests now n1 chunk of
             Inl e \<Rightarrow> Inl e
           | Inr (its, n2) \<Rightarrow> Inr (it # its, n2)))"

fun batchWrite_loop :: "(nat \<Rightarrow> string) \<Rightarrow> nat \<Rightarrow> outcome list \<Rightarrow> user list list \<Rightarrow> world \<Rightarrow>
    (error + unit) \<times> world" where
  "batchWrite_loop now n plan [] w = (Inr (), w)"
| "batchWrite_loop now n plan (chunk # chunks) w =
     (case putRequests now n chunk of
        Inl e \<Rightarrow> (Inl e, w)
      | Inr (items, n1) \<Rightarrow>
          (case send (fault_of plan) (BatchWriteCommand items)
                  (engine_batch_write (processes plan) items) w of
             (Inl e, w1) \<Rightarrow> (Inl e, w1)
           | (Inr unprocessed, w1) \<Rightarrow>
               batchWrite_loop now n1 (tl plan) chunks
                 (if unprocessed \<noteq> [] then log WARN ''Unprocessed items in batch write'' w1
                  else w1)))"

definition batchWrite_catch :: "metric_units \<Rightarrow> error \<Rightarrow> world \<Rightarrow> (error + unit) \<times> world" where
  "batchWrite_catch MetricUnits err w =
     (case catch_block MetricUnits ''Failed to batch write items''
             ''UserRepositoryBatchWriteError'' err w of
        (e, w1) \<Rightarrow> (Inl e, w1))"

definition batchWrite :: "metric_units \<Rightarrow> (nat \<Rightarrow> string) \<Rightarrow> outcome list \<Rightarrow> user list \<Rightarrow>
    world \<Rightarrow> ((error + unit) \<times> world) option" where
  "batchWrite MetricUnits now plan entities w =
     map_option
       (\<lambda>chunks.
          case batchWrite_loop now 0 plan chunks w of
            (Inl e, w1) \<Rightarrow> batchWrite_catch MetricUnits e w1
          | (Inr finished, w1) \<Rightarrow>
              (case logMetric MetricUnits ''UserRepositoryBatchWrite'' 1 w1 of
                 (Inl e, w2) \<Rightarrow> batchWrite_catch MetricUnits e w2
               | (Inr logged, w2) \<Rightarrow>
                   (case logMetric MetricUnits ''UserRepositoryBatchWriteItemCount''
                           (length entities) w2 of
                      (Inl e, w3) \<Rightarrow> batchWrite_catch MetricUnits e w3
                    | (Inr counted, w3) \<Rightarrow> (Inr (), w3))))
       (chunkArray entities 25)"

subsection \<open>queryByIndex\<close>

text \<open>
  A query on an index answers with the items whose index partition key has the value
  asked for, in the order of the table (reversed when ScanIndexForward is false), after the
  item the start key names, at most Limit of them; when the page is full it also answers
  with the key of its last item. The engine rejects a condition on another attribute than
  the partition key of the index, a Limit below 1 and a start key that is not a key of the
  index with the value asked for. A start key that names no item of the answer is outside
  the model.
\<close>

definition index_partition_key :: "string \<Rightarrow> string option" where
  "index_partition_key indexName =
     map_of [(''ExternalIdIndex'', EXTERNAL_ID_KEY), (INDEXES_EMAIL, EMAIL_KEY),
             (INDEXES_CLKK_TAG, CLKK_TAG_KEY), (''TimeSortIndex'', PARTITION_KEY),
             (''TypeStatusIndex'', ''TypeStatusKey'')] indexName"

definition last_key :: "string \<Rightarrow> item \<Rightarrow> jsval option" where
  "last_key a it =
     (case (it PARTITION_KEY, it SORT_KEY, it a) of
        (Some p, Some s, Some v) \<Rightarrow> Some (JObj (AList.update a v [(PARTITION_KEY, p), (SORT_KEY, s)]))
      | _ \<Rightarrow> None)"

definition start_key :: "string \<Rightarrow> jsval \<Rightarrow> jsval \<Rightarrow> pkey option" where
  "start_key a v marker =
     (case marker of
        JObj kvs \<Rightarrow>
          if map_of kvs a = Some v \<and> set (map fst kvs) = {PARTITION_KEY, SORT_KEY, a}
          then key_of (map_of kvs) else None
      | _ \<Rightarrow> None)"

definition engine_query :: "string \<Rightarrow> key_condition \<Rightarrow> query_paging \<Rightarrow> bool \<Rightarrow> table \<Rightarrow>
    error + (item list \<times> jsval option \<times> nat) \<times> table" where
  "engine_query indexName cond paging forward t =
     (case (index_partition_key indexName, values' cond (snd (expression cond))) of
        (Some a, Some v) \<Rightarrow>
          if fst (expression cond) = a \<and> 1 \<le> Limit paging then
            (let rows = filter (\<lambda>it. it a = Some v) (map snd (if forward then t else rev t))
             in case ExclusiveStartKey paging of
                  None \<Rightarrow>
                    (let page = take (nat (Limit paging)) rows
                     in Inr ((page,
                              (if length page = nat (Limit paging) then last_key a (last page)
                               else None),
                              length page), t))
                | Some marker \<Rightarrow>
                    (case start_key a v marker of
                       None \<Rightarrow> Inl ValidationException
                     | Some k \<Rightarrow>
                         if Some k \<in> set (map key_of rows) then
                           (let page = take (nat (Limit paging))
                                         (drop 1 (dropWhile (\<lambda>it. key_of it \<noteq> Some k) rows))
                            in Inr ((page,
                                     (if length page = nat (Limit paging)
                                      then last_key a (last page) else None),
                                     length page), t))
                         else Inl OutsideModel))
          else Inl ValidationException
      | _ \<Rightarrow> Inl ValidationException)"

record query_result =
  items :: "user list"
  nextToken' :: "string option"
  count :: nat

text \<open>
  Of the options, the lookups use \<^verbatim>\<open>pagination\<close> and \<^verbatim>\<open>scanIndexForward\<close>; the sort-key
  condition, the filter and the projection are left out. Before it sends the query the
  document client converts the start key attribute by attribute (\<^verbatim>\<open>Object.entries\<close>): for
  the start key \<^verbatim>\<open>null\<close> that throws a TypeError and nothing is sent. After the query
  \<open>queryByIndex\<close> logs two metrics; its catch block logs the error and a third.
\<close>

definition queryByIndex_catch :: "metric_units \<Rightarrow> error \<Rightarrow> world \<Rightarrow>
    (error + query_result) \<times> world" where
  "queryByIndex_catch MetricUnits err w =
     (case catch_block MetricUnits ''Failed to query by index''
             ''UserRepositoryQueryError'' err w of
        (e, w1) \<Rightarrow> (Inl e, w1))"

definition queryByIndex :: "metric_units \<Rightarrow> fault option \<Rightarrow> string \<Rightarrow> key_condition \<Rightarrow>
    PaginationParams option \<Rightarrow> bool option \<Rightarrow> world \<Rightarrow> (error + query_result) \<times> world" where
  "queryByIndex MetricUnits f indexName keyCondition pagination scanIndexForward w =
     (case parsePaginationParams
             (case pagination of None \<Rightarrow> \<lparr>limit = None, nextToken = None\<rparr> | Some p \<Rightarrow> p) of
        Inl e \<Rightarrow> queryByIndex_catch MetricUnits e w
      | Inr paginationParams \<Rightarrow>
          (let forward = (case scanIndexForward of None \<Rightarrow> False | Some b \<Rightarrow> b)
           in if ExclusiveStartKey paginationParams = Some JNull
              then queryByIndex_catch MetricUnits TypeError w
              else
                (case send f (QueryCommand indexName keyCondition paginationParams forward)
                        (engine_query indexName keyCondition paginationParams forward) w of
                   (Inl e, w1) \<Rightarrow> queryByIndex_catch MetricUnits e w1
                 | (Inr (Items, LastEvaluatedKey, Count), w1) \<Rightarrow>
                     (let items = map fromItem Items
                      in case logMetric MetricUnits ''UserRepositoryQueryByIndex'' 1 w1 of
                           (Inl e, w2) \<Rightarrow> queryByIndex_catch MetricUnits e w2
                         | (Inr logged, w2) \<Rightarrow>
                             (case logMetric MetricUnits ''UserRepositoryQueryItemCount''
                                     (length items) w2 of
                                (Inl e, w3) \<Rightarrow> queryByIndex_catch MetricUnits e w3
                              | (Inr counted, w3) \<Rightarrow>
                                  (Inr \<lparr>items = items,
                                        nextToken' = createNextToken LastEvaluatedKey,
                                        count = Count\<rparr>, w3))))))"

section \<open>UserRepository\<close>

text \<open>The catch blocks of the lookups log the error and rethrow it, without a metric.\<close>

definition getByEmail :: "metric_units \<Rightarrow> fault option \<Rightarrow> string \<Rightarrow> world \<Rightarrow>
    (error + user option) \<times> world" where
  "getByEmail MetricUnits f emailArg w =
     (let keyCondition = QUERY_BUILDERS_keyCondition EMAIL_KEY
                           (KEY_BUILDERS_userByEmail emailArg EMAIL_KEY)
      in case queryByIndex MetricUnits f INDEXES_EMAIL keyCondition
                (Some \<lparr>limit = Some 1, nextToken = None\<rparr>) None w of
           (Inl e, w1) \<Rightarrow> (Inl e, log ERROR ''Failed to get user by email'' w1)
         | (Inr result, w1) \<Rightarrow>
             (Inr (case items result of [] \<Rightarrow> None | x # xs \<Rightarrow> Some x), w1))"

definition getByClkkTag :: "metric_units \<Rightarrow> fault option \<Rightarrow> string \<Rightarrow> world \<Rightarrow>
    (error + user option) \<times> world" where
  "getByClkkTag MetricUnits f clkkTagArg w =
     (let keyCondition = QUERY_BUILDERS_keyCondition CLKK_TAG_KEY
                           (KEY_BUILDERS_userByClkkTag clkkTagArg CLKK_TAG_KEY)
      in case queryByIndex MetricUnits f INDEXES_CLKK_TAG keyCondition
                (Some \<lparr>limit = Some 1, nextToken = None\<rparr>) None w of
           (Inl e, w1) \<Rightarrow> (Inl e, log ERROR ''Failed to get user by CLKK tag'' w1)
         | (Inr result, w1) \<Rightarrow>
             (Inr (case items result of [] \<Rightarrow> None | x # xs \<Rightarrow> Some x), w1))"

section \<open>Examples and auxiliary notions\<close>

text \<open>
  The pattern zod 3.22 uses for \<^verbatim>\<open>email()\<close>, case-insensitive:
  \<^verbatim>\<open>/^(?!\.)(?!.*\.\.)([A-Z0-9_+-\.]*)[A-Z0-9_+-]@([A-Z0-9][A-Z0-9\-]*\.)+[A-Z]{2,}$/i\<close>.
  It is the \<open>isEmail\<close> of the examples.
\<close>

fun split_on :: "char \<Rightarrow> string \<Rightarrow> string list" where
  "split_on sep [] = [[]]"
| "split_on sep (c # cs) =
     (if c = sep then [] # split_on sep cs
      else (case split_on sep cs of [] \<Rightarrow> [[c]] | p # ps \<Rightarrow> (c # p) # ps))"

definition letters :: string where
  "letters = ''ABCDEFGHIJKLMNOPQRSTUVWXYZabcdefghijklmnopqrstuvwxyz''"

definition email_label :: "string \<Rightarrow> bool" where
  "email_label l =
     (case l of
        [] \<Rightarrow> False
      | c # cs \<Rightarrow> c \<in> set (letters @ ''0123456789'') \<and>
                  list_all (\<lambda>x. x \<in> set (letters @ ''0123456789-'')) cs)"

definition email_regex :: "string \<Rightarrow> bool" where
  "email_regex s =
     (case split_on CHR ''@'' s of
        [local, domain] \<Rightarrow>
          local \<noteq> [] \<and> take 1 local \<noteq> ''.'' \<and> [] \<notin> set (tl (split_on CHR ''.'' s)) \<and>
          list_all (\<lambda>x. x \<in> set (letters @ ''0123456789_+,-.'')) local \<and>
          last local \<in> set (letters @ ''0123456789_+-'') \<and>
          (case rev (split_on CHR ''.'' domain) of
             tld # l # ls \<Rightarrow> 2 \<le> length tld \<and> list_all (\<lambda>x. x \<in> set letters) tld \<and>
                             list_all email_label (l # ls)
           | _ \<Rightarrow> False)
      | _ \<Rightarrow> False)"

definition example_user :: user where
  "example_user =
     \<lparr>id' = Some (JStr ''u1''), createdAt = None, updatedAt = None,
      clerkId = Some (JStr ''clerk_1''), email = Some (JStr ''Test@Example.com''),
      phoneNumber = None, firstName = None, lastName = None, clkkTag = None,
      kycStatus = Some (JStr ''NOT_STARTED''), kycDetails = None, profileImageUrl = None,
      dateOfBirth = None, address = None, metadata = None\<rparr>"

definition empty_world :: world where
  "empty_world = \<lparr>table = [], sent = [], logs = [], metrics = []\<rparr>"

text \<open>
  Two values of \<^verbatim>\<open>MetricUnits\<close>: an exported object whose \<^verbatim>\<open>Count\<close> is the string
  \<^verbatim>\<open>Count\<close>, and \<^verbatim>\<open>undefined\<close>, the value when the metrics library exports no such name.
  An operation that would give the result \<open>r\<close> if \<open>logMetric\<close> returned gives \<open>after_metric\<close>
  of it: the TypeError of \<open>logMetric\<close> when \<^verbatim>\<open>MetricUnits\<close> is \<^verbatim>\<open>undefined\<close>.
\<close>

definition count_units :: metric_units where
  "count_units = Some [(''Count'', JStr ''Count'')]"

definition no_units :: metric_units where
  "no_units = None"

definition after_metric :: "metric_units \<Rightarrow> error + 'a \<Rightarrow> error + 'a" where
  "after_metric MetricUnits r = (case MetricUnits of None \<Rightarrow> Inl TypeError | Some units \<Rightarrow> r)"

text \<open>The primary key of a user's row, and the row a world stores at a key.\<close>

definition user_key :: "user \<Rightarrow> pkey" where
  "user_key u = (''USER#'' @ template (id' u), ''USER#'' @ template (id' u))"

definition stored :: "world \<Rightarrow> item \<Rightarrow> item option" where
  "stored w key = (case key_of key of None \<Rightarrow> None | Some k \<Rightarrow> map_of (table w) k)"

text \<open>\<^verbatim>\<open>fromItem(toItem(e))\<close>.\<close>

definition fromItem_toItem :: "user \<Rightarrow> error + user" where
  "fromItem_toItem u = (case toItem u of Inl e \<Rightarrow> Inl e | Inr it \<Rightarrow> Inr (fromItem it))"

text \<open>An optional attribute that \<open>toItem\<close> keeps as it is: absent, or truthy.\<close>

definition absent_or_truthy :: "jsval option \<Rightarrow> bool" where
  "absent_or_truthy v = (v = None \<or> truthy v)"

text \<open>
  A marker whose attributes are all strings, as the keys of the table and of its indexes
  are.
\<close>

definition string_valued :: "(string \<times> jsval) list \<Rightarrow> bool" where
  "string_valued kvs = list_all (\<lambda>kv. case snd kv of JStr s \<Rightarrow> True | _ \<Rightarrow> False) kvs"

text \<open>The entries of an \<^verbatim>\<open>updates\<close> object whose value is not \<^verbatim>\<open>undefined\<close>.\<close>

definition defined_entries :: "(string \<times> jsval option) list \<Rightarrow> (string \<times> jsval) list" where
  "defined_entries updates = List.map_filter (\<lambda>kv. map_option (Pair (fst kv)) (snd kv)) updates"

text \<open>The item an update starts from: the stored row, or a new row holding only the key.\<close>

definition row_before :: "world \<Rightarrow> item \<Rightarrow> item" where
  "row_before w key =
     (case stored w key of
        Some it \<Rightarrow> it
      | None \<Rightarrow> (case key_of key of
                   None \<Rightarrow> Map.empty
                 | Some k \<Rightarrow> [PARTITION_KEY \<mapsto> JStr (fst k), SORT_KEY \<mapsto> JStr (snd k)]))"

text \<open>
  The engine accepts the update that \<open>update\<close> sends when no defined entry names updatedAt,
  which the builder always appends, or a key attribute.
\<close>

definition update_accepted :: "(string \<times> jsval option) list \<Rightarrow> bool" where
  "update_accepted updates =
     (UPDATED_AT \<notin> fst ` set (defined_entries updates) \<and>
      PARTITION_KEY \<notin> fst ` set (defined_entries updates) \<and>
      SORT_KEY \<notin> fst ` set (defined_entries updates))"

text \<open>The table after the engine has written the items of a batch, in their order.\<close>

definition put_all :: "item list \<Rightarrow> table \<Rightarrow> table" where
  "put_all its t =
     foldl (\<lambda>t' it. case key_of it of None \<Rightarrow> t' | Some k \<Rightarrow> AList.update k it t') t its"


text \<open>
  The entity as an item of it keeps it: an optional attribute is kept when it is truthy
  and is absent otherwise.
\<close>

definition kept :: "jsval option \<Rightarrow> jsval option" where
  "kept v = (if truthy v then v else None)"

definition projected :: "user \<Rightarrow> user" where
  "projected entity =
     \<lparr>id' = id' entity,
      createdAt = createdAt entity,
      updatedAt = updatedAt entity,
      clerkId = clerkId entity,
      email = email entity,
      phoneNumber = kept (phoneNumber entity),
      firstName = kept (firstName entity),
      lastName = kept (lastName entity),
      clkkTag = kept (clkkTag entity),
      kycStatus = kycStatus entity,
      kycDetails = kept (kycDetails entity),
      profileImageUrl = kept (profileImageUrl entity),
      dateOfBirth = kept (dateOfBirth entity),
      address = kept (address entity),
      metadata = kept (metadata entity)\<rparr>"

text \<open>
  The entity that is read back from the item \<open>batchWrite\<close> writes for an entity when the next
  reading of the clock is number \<open>n\<close>: it keeps a truthy createdAt, and otherwise has that
  reading as createdAt; updatedAt is the reading after. \<open>reads\<close> counts the readings for one
  entity and \<open>reads_before\<close> those for the entities before position \<open>i\<close>.
\<close>

definition reads :: "user \<Rightarrow> nat" where
  "reads entity = (if truthy (createdAt entity) then 1 else 2)"

definition reads_before :: "user list \<Rightarrow> nat \<Rightarrow> nat" where
  "reads_before entities i = sum_list (map reads (take i entities))"

definition read_back :: "(nat \<Rightarrow> string) \<Rightarrow> nat \<Rightarrow> user \<Rightarrow> user" where
  "read_back now n entity =
     (if truthy (createdAt entity)
      then (projected entity)\<lparr>updatedAt := Some (JStr (now n))\<rparr>
      else (projected entity)\<lparr>createdAt := Some (JStr (now n)),
                               updatedAt := Some (JStr (now (n + 1)))\<rparr>)"

text \<open>
  The items and the requests that \<open>batchWrite\<close> makes of entities with an item projection,
  when the next reading of the clock is number \<open>n\<close>.
\<close>

definition request_item :: "(nat \<Rightarrow> string) \<Rightarrow> nat \<Rightarrow> user \<Rightarrow> item" where
  "request_item now n entity =
     (case putRequest now n entity of Inl e \<Rightarrow> Map.empty | Inr (it, n') \<Rightarrow> it)"

fun request_items :: "(nat \<Rightarrow> string) \<Rightarrow> nat \<Rightarrow> user list \<Rightarrow> item list" where
  "request_items now n [] = []"
| "request_items now n (entity # chunk) =
     request_item now n entity # request_items now (n + reads entity) chunk"

fun write_commands :: "(nat \<Rightarrow> string) \<Rightarrow> nat \<Rightarrow> user list list \<Rightarrow> command list" where
  "write_commands now n [] = []"
| "write_commands now n (chunk # chunks) =
     BatchWriteCommand (request_items now n chunk) #
     write_commands now (n + sum_list (map reads chunk)) chunks"

text \<open>A clock whose reading number \<open>n\<close> is the text \<^verbatim>\<open>t\<close> followed by \<open>n\<close>.\<close>

definition example_clock :: "nat \<Rightarrow> string" where
  "example_clock n = ''t'' @ string_of_nat n"

text \<open>The example user with the decimal numeral of \<open>n\<close> for id.\<close>

definition numbered_user :: "nat \<Rightarrow> user" where
  "numbered_user n = example_user\<lparr>id' := Some (JStr (string_of_nat n))\<rparr>"

text \<open>
  What \<open>batchGet\<close> returns and what it logs, in closed form: the stored items of the keys
  that the engine processed, chunk by chunk, with one outcome of the plan per chunk; and one
  warning for every chunk with a key that the engine did not process.
\<close>

fun answers :: "outcome list \<Rightarrow> item list list \<Rightarrow> table \<Rightarrow> item list" where
  "answers plan [] t = []"
| "answers plan (chunk # chunks) t =
     List.map_filter (map_of t) (filter (processes plan) (List.map_filter key_of chunk)) @
     answers (tl plan) chunks t"

fun warnings :: "outcome list \<Rightarrow> item list list \<Rightarrow> (level \<times> string) list" where
  "warnings plan [] = []"
| "warnings plan (chunk # chunks) =
     (if filter (\<lambda>k. \<not> processes plan k) (List.map_filter key_of chunk) \<noteq> []
      then [(WARN, ''Unprocessed keys in batch get'')] else []) @
     warnings (tl plan) chunks"

text \<open>
  The table that stores the numbered users 0 to \<open>n - 1\<close>, their keys, and an engine that
  reports the keys of the users 0, 1 and 2 as unprocessed in its first answer and processes
  everything afterwards.
\<close>

definition numbered_row :: "nat \<Rightarrow> item" where
  "numbered_row n = request_item example_clock 0 (numbered_user n)"

definition numbered_key :: "nat \<Rightarrow> item" where
  "numbered_key n = getPrimaryKey (numbered_user n)"

fun numbered_entry :: "nat \<Rightarrow> pkey \<times> item" where
  "numbered_entry n = (user_key (numbered_user n), numbered_row n)"

definition numbered_world :: "nat \<Rightarrow> world" where
  "numbered_world n =
     \<lparr>table = map numbered_entry [0..<n], sent = [], logs = [], metrics = []\<rparr>"

definition first_three_unprocessed :: "outcome list" where
  "first_three_unprocessed =
     [Processes (\<lambda>k. k \<notin> set (map user_key (map numbered_user [0..<3])))]"


section \<open>Properties\<close>

subsection \<open>Items, keys and validity\<close>

lemma set_if_other [simp]: "a \<noteq> k \<Longrightarrow> set_if k v it a = it a"
  by (simp add: set_if_def)

lemma toItem_no_key:
  assumes "toItem u = Inr it"
  shows "it PARTITION_KEY = None" and "it SORT_KEY = None"
    and "it CREATED_AT = None" and "it UPDATED_AT = None"
  using assms
  by (auto simp: toItem_def Let_def split: option.splits jsval.splits if_splits)

lemma valid_email_string:
  "validate isEmail u = Inr () \<Longrightarrow> \<exists>s. email u = Some (JStr s)"
  by (auto simp: validate_def issues_def issue_def z_email_def
      split: list.splits option.splits jsval.splits if_splits)

lemma valid_clkkTag:
  "validate isEmail u = Inr () \<Longrightarrow>
   clkkTag u = None \<or> (\<exists>s. clkkTag u = Some (JStr s) \<and> 3 \<le> length s)"
  by (auto simp: validate_def issues_def issue_def optional_def z_string_def
      split: list.splits option.splits jsval.splits if_splits)

lemma valid_toItem:
  assumes "validate isEmail u = Inr ()"
  shows "\<exists>it. toItem (u\<lparr>createdAt := a, updatedAt := b\<rparr>) = Inr it"
  using valid_email_string[OF assms] valid_clkkTag[OF assms]
  by (auto simp: toItem_def Let_def)

lemma key_of_item:
  assumes "toItem u = Inr it"
  shows "key_of ((getPrimaryKey u ++ it)(CREATED_AT := c, UPDATED_AT := d)) = Some (user_key u)"
    and "((getPrimaryKey u ++ it)(CREATED_AT := c, UPDATED_AT := d)) PARTITION_KEY \<noteq> None"
  using toItem_no_key[OF assms]
  by (simp_all add: key_of_def getPrimaryKey_def KEY_BUILDERS_user_def map_add_def user_key_def)

lemma key_of_getPrimaryKey: "key_of (getPrimaryKey u) = Some (user_key u)"
  by (simp add: key_of_def getPrimaryKey_def KEY_BUILDERS_user_def user_key_def)

lemma email_regex_example: "email_regex ''Test@Example.com''"
  by (simp add: email_regex_def email_label_def letters_def)

lemmas validate_defs = validate_def issues_def issue_def z_string_def z_email_def
  optional_def z_enum_def z_phoneNumber_def KYC_STATUS_values_def

lemma valid_example: "validate email_regex example_user = Inr ()"
  by (simp add: validate_defs example_user_def email_regex_example)

lemma valid_example_second:
  "validate email_regex (example_user\<lparr>email := Some (JStr ''second@example.com'')\<rparr>) = Inr ()"
  by (simp add: validate_defs example_user_def email_regex_def email_label_def letters_def)

lemma invalid_example:
  "validate email_regex (example_user\<lparr>clerkId := None\<rparr>) =
     Inl (Error ''User validation failed: clerkId'')"
  by (simp add: validate_defs example_user_def email_regex_example)

lemma toItem_createdAt [simp]: "toItem (u\<lparr>createdAt := a\<rparr>) = toItem u"
  by (simp add: toItem_def Let_def split: option.splits jsval.splits)

lemma toItem_updatedAt [simp]: "toItem (u\<lparr>updatedAt := a\<rparr>) = toItem u"
  by (simp add: toItem_def Let_def split: option.splits jsval.splits)

lemma validate_createdAt [simp]: "validate isEmail (u\<lparr>createdAt := a\<rparr>) = validate isEmail u"
  by (simp add: validate_def issues_def)

lemma validate_updatedAt [simp]: "validate isEmail (u\<lparr>updatedAt := a\<rparr>) = validate isEmail u"
  by (simp add: validate_def issues_def)

lemma valid_toItem': "validate isEmail u = Inr () \<Longrightarrow> \<exists>it. toItem u = Inr it"
  using valid_toItem[of isEmail u "createdAt u" "updatedAt u"] by simp


subsection \<open>The item projection and its inverse\<close>

lemma valid_checks:
  assumes "validate isEmail u = Inr ()"
  shows "z_string 1 None (id' u)" "z_string 1 None (clerkId u)" "z_email isEmail (email u)"
    "optional z_phoneNumber (phoneNumber u)" "optional (z_string 1 (Some 50)) (firstName u)"
    "optional (z_string 1 (Some 50)) (lastName u)" "optional (z_string 3 (Some 20)) (clkkTag u)"
    "z_enum KYC_STATUS_values (kycStatus u)"
proof -
  from assms have "issues isEmail u = []"
    by (simp add: validate_def split: list.splits)
  then show "z_string 1 None (id' u)" "z_string 1 None (clerkId u)" "z_email isEmail (email u)"
    "optional z_phoneNumber (phoneNumber u)" "optional (z_string 1 (Some 50)) (firstName u)"
    "optional (z_string 1 (Some 50)) (lastName u)" "optional (z_string 3 (Some 20)) (clkkTag u)"
    "z_enum KYC_STATUS_values (kycStatus u)"
    by (simp_all add: issues_def issue_def split: if_splits)
qed

lemma z_string_truthy: "optional (z_string (Suc n) hi) v \<Longrightarrow> absent_or_truthy v"
  by (auto simp: optional_def z_string_def absent_or_truthy_def split: option.splits jsval.splits)

lemma z_phoneNumber_truthy: "optional z_phoneNumber v \<Longrightarrow> absent_or_truthy v"
  by (auto simp: optional_def z_phoneNumber_def phone_regex_def absent_or_truthy_def Let_def
      split: option.splits jsval.splits list.splits)

lemma valid_optional_strings:
  assumes "validate isEmail u = Inr ()"
  shows "absent_or_truthy (phoneNumber u)" "absent_or_truthy (firstName u)"
    "absent_or_truthy (lastName u)" "absent_or_truthy (clkkTag u)"
  using valid_checks(4-7)[OF assms] z_string_truthy[of 0] z_string_truthy[of 2] z_phoneNumber_truthy
  by (simp_all add: numeral_3_eq_3)

lemma set_if_apply: "set_if k v it a = (if a = k \<and> truthy v then v else it a)"
  by (simp add: set_if_def)

lemma absent_or_truthy_if: "absent_or_truthy v \<Longrightarrow> (if truthy v then v else None) = v"
  by (auto simp: absent_or_truthy_def)

lemma toItem_fields:
  assumes "toItem u = Inr it"
  shows "it ID = id' u" "it CLERK_ID = clerkId u" "it EMAIL = email u" "it KYC_STATUS = kycStatus u"
    "it PHONE_NUMBER = (if truthy (phoneNumber u) then phoneNumber u else None)"
    "it FIRST_NAME = (if truthy (firstName u) then firstName u else None)"
    "it LAST_NAME = (if truthy (lastName u) then lastName u else None)"
    "it CLKK_TAG = (if truthy (clkkTag u) then clkkTag u else None)"
    "it KYC_DETAILS = (if truthy (kycDetails u) then kycDetails u else None)"
    "it PROFILE_IMAGE_URL = (if truthy (profileImageUrl u) then profileImageUrl u else None)"
    "it DATE_OF_BIRTH = (if truthy (dateOfBirth u) then dateOfBirth u else None)"
    "it ADDRESS = (if truthy (address u) then address u else None)"
    "it METADATA = (if truthy (metadata u) then metadata u else None)"
proof -
  from assms obtain item where
    "it = item \<or> (\<exists>v. it = item(CLKK_TAG_KEY := v))"
    "\<exists>x y. item = (set_if METADATA (metadata u)
                  (set_if ADDRESS (address u)
                    (set_if DATE_OF_BIRTH (dateOfBirth u)
                      (set_if PROFILE_IMAGE_URL (profileImageUrl u)
                        (set_if KYC_DETAILS (kycDetails u)
                          (set_if CLKK_TAG (clkkTag u)
                            (set_if LAST_NAME (lastName u)
                              (set_if FIRST_NAME (firstName u)
                                (set_if PHONE_NUMBER (phoneNumber u)
                                  (Map.empty
                                   (ID := id' u, CLERK_ID := clerkId u,
                                      EMAIL := email u,
                                      KYC_STATUS := kycStatus u)))))))))))
                (EXTERNAL_ID_KEY := x, EMAIL_KEY := y)"
    by (auto simp: toItem_def Let_def split: option.splits jsval.splits if_splits)
  then show "it ID = id' u" "it CLERK_ID = clerkId u" "it EMAIL = email u" "it KYC_STATUS = kycStatus u"
    "it PHONE_NUMBER = (if truthy (phoneNumber u) then phoneNumber u else None)"
    "it FIRST_NAME = (if truthy (firstName u) then firstName u else None)"
    "it LAST_NAME = (if truthy (lastName u) then lastName u else None)"
    "it CLKK_TAG = (if truthy (clkkTag u) then clkkTag u else None)"
    "it KYC_DETAILS = (if truthy (kycDetails u) then kycDetails u else None)"
    "it PROFILE_IMAGE_URL = (if truthy (profileImageUrl u) then profileImageUrl u else None)"
    "it DATE_OF_BIRTH = (if truthy (dateOfBirth u) then dateOfBirth u else None)"
    "it ADDRESS = (if truthy (address u) then address u else None)"
    "it METADATA = (if truthy (metadata u) then metadata u else None)"
    by (auto simp: set_if_apply)
qed

text \<open>
  C3, as amended. For a valid user whose optional attributes without a schema check
  (kycDetails, profileImageUrl, dateOfBirth, address, metadata) are each absent or truthy,
  \<open>fromItem (toItem e)\<close> is \<open>e\<close> in every attribute except createdAt and updatedAt, which
  \<open>toItem\<close> does not project and which come back absent; and \<open>fromItem\<close> of the item that
  \<open>create\<close> and \<open>save\<close> store, the key and \<open>toItem e\<close> and the two timestamps, is \<open>e\<close> in
  every attribute, createdAt and updatedAt included.
\<close>

theorem fromItem_toItem_roundtrip:
  assumes "validate isEmail e = Inr ()"
    and "absent_or_truthy (kycDetails e)" and "absent_or_truthy (profileImageUrl e)"
    and "absent_or_truthy (dateOfBirth e)" and "absent_or_truthy (address e)"
    and "absent_or_truthy (metadata e)"
  shows "fromItem_toItem e = Inr (e\<lparr>createdAt := None, updatedAt := None\<rparr>) \<and>
         (\<exists>it. toItem e = Inr it \<and>
            fromItem ((getPrimaryKey e ++ it)
                        (CREATED_AT := createdAt e, UPDATED_AT := updatedAt e)) = e)"
proof -
  from valid_toItem'[OF assms(1)] obtain it where it: "toItem e = Inr it" by blast
  note f = toItem_fields[OF it] toItem_no_key[OF it]
  note o = valid_optional_strings[OF assms(1)] assms(2-6)
  have 1: "fromItem it = e\<lparr>createdAt := None, updatedAt := None\<rparr>"
    by (simp add: fromItem_def f absent_or_truthy_if o)
  have 2: "fromItem ((getPrimaryKey e ++ it)
                        (CREATED_AT := createdAt e, UPDATED_AT := updatedAt e)) = e"
    by (simp add: fromItem_def f absent_or_truthy_if o map_add_def getPrimaryKey_def KEY_BUILDERS_user_def
        split: option.splits)
  show ?thesis using it 1 2 by (simp add: fromItem_toItem_def)
qed


lemma valid_example_stamped:
  "validate email_regex
     (example_user\<lparr>createdAt := Some (JStr ''t1''), updatedAt := Some (JStr ''t2'')\<rparr>) = Inr ()"
  using valid_example by simp

text \<open>
  C3, witness: the example user, all optional attributes absent, with both timestamps set.
\<close>

theorem fromItem_toItem_roundtrip_witness:
  "validate email_regex
     (example_user\<lparr>createdAt := Some (JStr ''t1''), updatedAt := Some (JStr ''t2'')\<rparr>) = Inr () \<and>
   absent_or_truthy (kycDetails example_user) \<and> absent_or_truthy (profileImageUrl example_user) \<and>
   absent_or_truthy (dateOfBirth example_user) \<and> absent_or_truthy (address example_user) \<and>
   absent_or_truthy (metadata example_user) \<and>
   fromItem_toItem
     (example_user\<lparr>createdAt := Some (JStr ''t1''), updatedAt := Some (JStr ''t2'')\<rparr>) =
     Inr example_user"
proof -
  have a: "absent_or_truthy (kycDetails example_user)" "absent_or_truthy (profileImageUrl example_user)"
    "absent_or_truthy (dateOfBirth example_user)" "absent_or_truthy (address example_user)"
    "absent_or_truthy (metadata example_user)"
    by (simp_all add: absent_or_truthy_def example_user_def)
  have n: "example_user\<lparr>createdAt := None, updatedAt := None\<rparr> = example_user"
    by (simp add: example_user_def)
  from fromItem_toItem_roundtrip[OF valid_example_stamped] a valid_example_stamped n
  show ?thesis by simp
qed

text \<open>
  C3 as stated fails: \<open>toItem\<close> does not project createdAt and updatedAt, so a valid user
  with timestamps comes back without them; and an optional attribute that is present but
  falsy, here the empty string as dateOfBirth, comes back absent.
\<close>

theorem fromItem_toItem_counterexample:
  "validate email_regex
     (example_user\<lparr>createdAt := Some (JStr ''t1''), updatedAt := Some (JStr ''t2'')\<rparr>) = Inr () \<and>
   fromItem_toItem
     (example_user\<lparr>createdAt := Some (JStr ''t1''), updatedAt := Some (JStr ''t2'')\<rparr>) =
     Inr example_user \<and>
   example_user \<noteq> example_user\<lparr>createdAt := Some (JStr ''t1''), updatedAt := Some (JStr ''t2'')\<rparr> \<and>
   validate email_regex (example_user\<lparr>dateOfBirth := Some (JStr [])\<rparr>) = Inr () \<and>
   fromItem_toItem (example_user\<lparr>dateOfBirth := Some (JStr [])\<rparr>) = Inr example_user \<and>
   example_user \<noteq> example_user\<lparr>dateOfBirth := Some (JStr [])\<rparr>"
proof -
  have v: "validate email_regex (example_user\<lparr>dateOfBirth := Some (JStr [])\<rparr>) = Inr ()"
    by (simp add: validate_defs example_user_def email_regex_example)
  have 1: "fromItem_toItem
     (example_user\<lparr>createdAt := Some (JStr ''t1''), updatedAt := Some (JStr ''t2'')\<rparr>) =
     Inr example_user"
    by (simp add: fromItem_toItem_def toItem_def fromItem_def example_user_def Let_def set_if_def)
  have 2: "fromItem_toItem (example_user\<lparr>dateOfBirth := Some (JStr [])\<rparr>) = Inr example_user"
    by (simp add: fromItem_toItem_def toItem_def fromItem_def example_user_def Let_def set_if_def)
  show ?thesis using valid_example_stamped v 1 2 by (simp add: example_user_def)
qed



subsection \<open>logMetric and the catch blocks\<close>

lemma catch_block_eq:
  "catch_block mu msg name err w =
     (case mu of
        None \<Rightarrow> (TypeError, log ERROR msg w)
      | Some units \<Rightarrow>
          (err, (log ERROR msg w)\<lparr>metrics := metrics w @ [(name, map_of units ''Count'', 1)]\<rparr>))"
  by (simp add: catch_block_def logMetric_def log_def split: option.splits)

lemma catch_block_frame [simp]:
  "table (snd (catch_block mu msg name err w)) = table w"
  "sent (snd (catch_block mu msg name err w)) = sent w"
  "logs (snd (catch_block mu msg name err w)) = logs w @ [(ERROR, msg)]"
  "fst (catch_block mu msg name err w) = (case mu of None \<Rightarrow> TypeError | Some units \<Rightarrow> err)"
  by (simp_all add: catch_block_eq log_def split: option.splits)

lemma logMetric_frame [simp]:
  "table (snd (logMetric mu name v w)) = table w"
  "sent (snd (logMetric mu name v w)) = sent w"
  "logs (snd (logMetric mu name v w)) = logs w"
  "fst (logMetric mu name v w) = after_metric mu (Inr ())"
  by (simp_all add: logMetric_def after_metric_def split: option.splits)

lemma after_metric_simps [simp]:
  "after_metric None r = Inl TypeError" "after_metric (Some units) r = r"
  by (simp_all add: after_metric_def)

lemma save_catch_simps [simp]:
  "fst (save_catch mu err u w) = after_metric mu (Inl err)"
  "fst (snd (save_catch mu err u w)) = u"
  "table (snd (snd (save_catch mu err u w))) = table w"
  "sent (snd (snd (save_catch mu err u w))) = sent w"
  by (simp_all add: save_catch_def split_beta after_metric_def split: option.splits)

lemma create_catch_simps [simp]:
  "err \<noteq> ConditionalCheckFailedException \<Longrightarrow>
   fst (create_catch mu err u w) = after_metric mu (Inl err)"
  "fst (create_catch mu ConditionalCheckFailedException u w) =
     Inl (Error (''User with id '' @ template (id' u) @ '' already exists''))"
  "fst (snd (create_catch mu err u w)) = u"
  "table (snd (snd (create_catch mu err u w))) = table w"
  "sent (snd (snd (create_catch mu err u w))) = sent w"
  by (simp_all add: create_catch_def split_beta after_metric_def log_def split: option.splits)

lemma update_catch_simps [simp]:
  "fst (update_catch mu err u w) = after_metric mu (Inl err)"
  "fst (snd (update_catch mu err u w)) = u"
  "table (snd (snd (update_catch mu err u w))) = table w"
  "sent (snd (snd (update_catch mu err u w))) = sent w"
  by (simp_all add: update_catch_def split_beta after_metric_def split: option.splits)

lemma delete_catch_simps [simp]:
  "fst (delete_catch mu err w) = after_metric mu (Inl err)"
  "table (snd (delete_catch mu err w)) = table w"
  "sent (snd (delete_catch mu err w)) = sent w"
  by (simp_all add: delete_catch_def split_beta after_metric_def split: option.splits)

lemma key_add:
  "a \<noteq> PARTITION_KEY \<Longrightarrow> a \<noteq> SORT_KEY \<Longrightarrow> (getPrimaryKey u ++ it) a = it a"
  by (simp add: map_add_def getPrimaryKey_def KEY_BUILDERS_user_def split: option.splits)

lemma fromItem_stored_item:
  assumes "toItem u = Inr it"
  shows "fromItem ((getPrimaryKey u ++ it)(CREATED_AT := c, UPDATED_AT := d)) =
         (projected u)\<lparr>createdAt := c, updatedAt := d\<rparr>"
  by (simp add: fromItem_def projected_def key_add toItem_fields[OF assms, folded kept_def])

lemma kept_absent_or_truthy: "absent_or_truthy v \<Longrightarrow> kept v = v"
  by (auto simp: absent_or_truthy_def kept_def)

lemma projected_valid:
  assumes "validate isEmail e = Inr ()"
    and "absent_or_truthy (kycDetails e)" and "absent_or_truthy (profileImageUrl e)"
    and "absent_or_truthy (dateOfBirth e)" and "absent_or_truthy (address e)"
    and "absent_or_truthy (metadata e)"
  shows "projected e = e"
  using valid_optional_strings[OF assms(1)] assms(2-6)
  by (simp add: projected_def kept_absent_or_truthy)

subsection \<open>create\<close>

lemma create_fresh:
  assumes v: "validate isEmail u = Inr ()"
    and fresh: "map_of (table w) (user_key u) = None"
  shows "\<exists>it. toItem u = Inr it \<and>
           fst (create isEmail mu now None u w) = after_metric mu (Inr ()) \<and>
           fst (snd (create isEmail mu now None u w)) =
             u\<lparr>createdAt := Some (JStr now), updatedAt := Some (JStr now)\<rparr> \<and>
           table (snd (snd (create isEmail mu now None u w))) =
             AList.update (user_key u)
               ((getPrimaryKey u ++ it)
                  (CREATED_AT := Some (JStr now), UPDATED_AT := Some (JStr now)))
               (table w) \<and>
           sent (snd (snd (create isEmail mu now None u w))) =
             sent w @ [PutCommand ((getPrimaryKey u ++ it)
                         (CREATED_AT := Some (JStr now), UPDATED_AT := Some (JStr now)))
                       (Some (CONDITION_BUILDERS_attributeNotExists PARTITION_KEY))]"
proof -
  let ?u1 = "u\<lparr>createdAt := Some (JStr now), updatedAt := Some (JStr now)\<rparr>"
  from valid_toItem'[OF v] obtain it where it: "toItem u = Inr it" by blast
  have k: "user_key ?u1 = user_key u" by (simp add: user_key_def)
  have g: "getPrimaryKey ?u1 = getPrimaryKey u" by (simp add: getPrimaryKey_def)
  note ki = key_of_item(1)[OF it, of "Some (JStr now)" "Some (JStr now)"]
  have "fst (create isEmail mu now None u w) = after_metric mu (Inr ()) \<and>
           fst (snd (create isEmail mu now None u w)) = ?u1 \<and>
           table (snd (snd (create isEmail mu now None u w))) =
             AList.update (user_key u)
               ((getPrimaryKey u ++ it)
                  (CREATED_AT := Some (JStr now), UPDATED_AT := Some (JStr now)))
               (table w) \<and>
           sent (snd (snd (create isEmail mu now None u w))) =
             sent w @ [PutCommand ((getPrimaryKey u ++ it)
                         (CREATED_AT := Some (JStr now), UPDATED_AT := Some (JStr now)))
                       (Some (CONDITION_BUILDERS_attributeNotExists PARTITION_KEY))]"
    using v it ki fresh
    by (cases mu)
      (simp_all add: create_def Let_def send_def engine_put_def g eval_condition_def
        CONDITION_BUILDERS_attributeNotExists_def logMetric_def)
  with it show ?thesis by blast
qed

lemma create_on_existing:
  assumes v: "validate isEmail u = Inr ()"
    and st: "map_of (table w) (user_key u) = Some it0" and pk: "it0 PARTITION_KEY \<noteq> None"
  shows "fst (create isEmail mu now None u w) =
           Inl (Error (''User with id '' @ template (id' u) @ '' already exists''))"
    and "table (snd (snd (create isEmail mu now None u w))) = table w"
proof -
  let ?u1 = "u\<lparr>createdAt := Some (JStr now), updatedAt := Some (JStr now)\<rparr>"
  from valid_toItem[OF v] obtain it where it: "toItem ?u1 = Inr it" by blast
  have k: "user_key ?u1 = user_key u" by (simp add: user_key_def)
  note ki = key_of_item(1)[OF it, of "createdAt ?u1" "updatedAt ?u1"]
  show "fst (create isEmail mu now None u w) =
           Inl (Error (''User with id '' @ template (id' u) @ '' already exists''))"
    using v it ki st pk
    by (auto simp: create_def Let_def send_def engine_put_def k eval_condition_def
          CONDITION_BUILDERS_attributeNotExists_def)
  show "table (snd (snd (create isEmail mu now None u w))) = table w"
    using v it ki st pk
    by (auto simp: create_def Let_def send_def engine_put_def k eval_condition_def
          CONDITION_BUILDERS_attributeNotExists_def)
qed

lemma create_invalid:
  assumes "validate isEmail u = Inl err"
  shows "fst (create isEmail mu now f u w) = after_metric mu (Inl err)"
    and "sent (snd (snd (create isEmail mu now f u w))) = sent w"
    and "table (snd (snd (create isEmail mu now f u w))) = table w"
proof -
  from assms obtain m where "err = Error (''User validation failed: '' @ m)"
    by (auto simp: validate_def split: list.splits)
  then have n: "err \<noteq> ConditionalCheckFailedException" by simp
  show "fst (create isEmail mu now f u w) = after_metric mu (Inl err)"
    using assms n by (simp add: create_def)
  show "sent (snd (snd (create isEmail mu now f u w))) = sent w"
    using assms n by (simp add: create_def log_def)
  show "table (snd (snd (create isEmail mu now f u w))) = table w"
    using assms n by (simp add: create_def log_def)
qed

lemma getByKey_table:
  "table w = table w' \<Longrightarrow> fst (getByKey None key w) = fst (getByKey None key w')"
  by (simp add: getByKey_def send_def engine_get_def Let_def split: option.splits)

lemma getByKey_stored:
  "map_of (table w) (user_key u) = Some it \<Longrightarrow>
   fst (getByKey None (getPrimaryKey u) w) = Inr (Some (fromItem it))"
  by (simp add: getByKey_def send_def engine_get_def key_of_getPrimaryKey Let_def)

lemma stored_user_key: "stored w (getPrimaryKey u) = map_of (table w) (user_key u)"
  by (simp add: stored_def key_of_getPrimaryKey)

lemma fresh_empty: "stored empty_world key = None"
  by (simp add: stored_def empty_world_def split: option.splits)

lemma template_example: "template (id' example_user) = ''u1''"
  by (simp add: example_user_def template_def)

lemma projected_example: "projected example_user = example_user"
  by (simp add: projected_def kept_def example_user_def)

text \<open>
  C1, as amended. Let \<open>e\<close> and \<open>e'\<close> be valid users with the same id, and let no row be
  stored at their primary key. \<open>create\<close> of \<open>e\<close>, when its request meets no fault, stores the
  row of \<open>e\<close>; its own result is that of \<open>logMetric\<close>, which it calls after the put. The
  following \<open>create\<close> of \<open>e'\<close>, when its request meets no fault, fails with the error
  \<^verbatim>\<open>User with id <id> already exists\<close>, which \<open>create\<close> raises when the condition
  \<^verbatim>\<open>attribute_not_exists(PK)\<close> of its put is false; the table is left as the first call wrote
  it, and a get at the primary key returns, as before the second call, the first entity as
  its item keeps it, with the time of the first call as createdAt and updatedAt.
\<close>

theorem create_twice_conflict:
  assumes "validate isEmail e = Inr ()" and "validate isEmail e' = Inr ()"
    and "id' e' = id' e"
    and "stored w (getPrimaryKey e) = None"
    and "create isEmail mu now None e w = (r1, e1, w1)"
    and "create isEmail mu now' None e' w1 = (r2, e2, w2)"
  shows "r1 = after_metric mu (Inr ()) \<and>
         e1 = e\<lparr>createdAt := Some (JStr now), updatedAt := Some (JStr now)\<rparr> \<and>
         r2 = Inl (Error (''User with id '' @ template (id' e) @ '' already exists'')) \<and>
         table w2 = table w1 \<and>
         fst (getByKey None (getPrimaryKey e) w1) =
           Inr (Some ((projected e)\<lparr>createdAt := Some (JStr now),
                                    updatedAt := Some (JStr now)\<rparr>)) \<and>
         fst (getByKey None (getPrimaryKey e) w2) = fst (getByKey None (getPrimaryKey e) w1)"
proof -
  have fresh: "map_of (table w) (user_key e) = None"
    using assms(4) by (simp add: stored_user_key)
  from create_fresh[OF assms(1) fresh, of mu now] assms(5) obtain it where
    it: "toItem e = Inr it"
    and r1: "r1 = after_metric mu (Inr ())"
    and e1: "e1 = e\<lparr>createdAt := Some (JStr now), updatedAt := Some (JStr now)\<rparr>"
    and t1: "table w1 = AList.update (user_key e)
               ((getPrimaryKey e ++ it)(CREATED_AT := Some (JStr now), UPDATED_AT := Some (JStr now)))
               (table w)"
    by auto
  let ?item = "(getPrimaryKey e ++ it)(CREATED_AT := Some (JStr now), UPDATED_AT := Some (JStr now))"
  have k: "user_key e' = user_key e" using assms(3) by (simp add: user_key_def)
  have st: "map_of (table w1) (user_key e') = Some ?item"
    by (simp add: t1 k update_conv')
  have pk: "?item PARTITION_KEY \<noteq> None"
    using key_of_item(2)[OF it] by simp
  from create_on_existing[OF assms(2) st pk, of mu now'] assms(6)
  have r2: "r2 = Inl (Error (''User with id '' @ template (id' e) @ '' already exists''))"
    and t2: "table w2 = table w1"
    by (simp_all add: assms(3))
  have g: "fst (getByKey None (getPrimaryKey e) w1) = Inr (Some (fromItem ?item))"
    using getByKey_stored[of w1 e ?item] st by (simp add: k)
  show ?thesis
    using r1 e1 r2 t2 g getByKey_table[OF t2] by (simp add: fromItem_stored_item[OF it])
qed

text \<open>
  The theorem at the example user, created in the empty table, then a second valid user with
  the same id \<^verbatim>\<open>u1\<close> and another email, when \<^verbatim>\<open>MetricUnits\<close> is \<^verbatim>\<open>undefined\<close>: the first
  call stores the row and fails with the TypeError of \<open>logMetric\<close>, the second fails with the
  already-exists error.
\<close>

theorem create_twice_conflict_witness:
  "validate email_regex example_user = Inr () \<and>
   validate email_regex (example_user\<lparr>email := Some (JStr ''second@example.com'')\<rparr>) = Inr () \<and>
   id' (example_user\<lparr>email := Some (JStr ''second@example.com'')\<rparr>) = id' example_user \<and>
   stored empty_world (getPrimaryKey example_user) = None \<and>
   fst (create email_regex no_units ''t1'' None example_user empty_world) = Inl TypeError \<and>
   fst (create email_regex no_units ''t2'' None
          (example_user\<lparr>email := Some (JStr ''second@example.com'')\<rparr>)
          (snd (snd (create email_regex no_units ''t1'' None example_user empty_world)))) =
     Inl (Error ''User with id u1 already exists'') \<and>
   fst (getByKey None (getPrimaryKey example_user)
          (snd (snd (create email_regex no_units ''t2'' None
             (example_user\<lparr>email := Some (JStr ''second@example.com'')\<rparr>)
             (snd (snd (create email_regex no_units ''t1'' None example_user empty_world))))))) =
     Inr (Some (example_user\<lparr>createdAt := Some (JStr ''t1''), updatedAt := Some (JStr ''t1'')\<rparr>))"
proof -
  let ?c1 = "create email_regex no_units ''t1'' None example_user empty_world"
  let ?e' = "example_user\<lparr>email := Some (JStr ''second@example.com'')\<rparr>"
  let ?c2 = "create email_regex no_units ''t2'' None ?e' (snd (snd ?c1))"
  have h1: "?c1 = (fst ?c1, fst (snd ?c1), snd (snd ?c1))" by simp
  have h2: "?c2 = (fst ?c2, fst (snd ?c2), snd (snd ?c2))" by simp
  have h3: "id' ?e' = id' example_user" by simp
  from create_twice_conflict[OF valid_example valid_example_second h3 fresh_empty h1 h2]
    valid_example valid_example_second fresh_empty
  show ?thesis by (simp add: template_example projected_example no_units_def)
qed

text \<open>
  C1 as stated, with \<open>e'\<close> any entity of the same id, fails: when \<open>e'\<close> is not valid (here it
  has no clerkId), the second \<open>create\<close> fails in \<open>validate\<close>, before any request, and not with
  the already-exists error: the error that reaches the caller is the validation error when
  \<^verbatim>\<open>MetricUnits\<close> is exported and the TypeError of \<open>logMetric\<close> when it is \<^verbatim>\<open>undefined\<close>.
\<close>

theorem create_invalid_second_counterexample:
  "validate email_regex example_user = Inr () \<and>
   id' (example_user\<lparr>clerkId := None\<rparr>) = id' example_user \<and>
   fst (create email_regex no_units ''t2'' None (example_user\<lparr>clerkId := None\<rparr>)
          (snd (snd (create email_regex no_units ''t1'' None example_user empty_world)))) =
     Inl TypeError \<and>
   fst (create email_regex count_units ''t2'' None (example_user\<lparr>clerkId := None\<rparr>)
          (snd (snd (create email_regex count_units ''t1'' None example_user empty_world)))) =
     Inl (Error ''User validation failed: clerkId'') \<and>
   sent (snd (snd (create email_regex no_units ''t2'' None (example_user\<lparr>clerkId := None\<rparr>)
          (snd (snd (create email_regex no_units ''t1'' None example_user empty_world)))))) =
     sent (snd (snd (create email_regex no_units ''t1'' None example_user empty_world)))"
  using valid_example create_invalid[OF invalid_example]
  by (simp add: no_units_def count_units_def)

subsection \<open>Validation before writing\<close>

lemma validate_error_form:
  "validate isEmail u = Inl err \<Longrightarrow> \<exists>m. err = Error (''User validation failed: '' @ m)"
  by (auto simp: validate_def split: list.splits)

lemma save_invalid:
  assumes "validate isEmail u = Inl err"
  shows "fst (save isEmail mu now f u w) = after_metric mu (Inl err)"
    and "sent (snd (snd (save isEmail mu now f u w))) = sent w"
    and "table (snd (snd (save isEmail mu now f u w))) = table w"
  using assms by (simp_all add: save_def log_def)

lemma update_sent:
  "sent (snd (snd (update mu now f updates u w))) =
     sent w @ [UpdateCommand (getPrimaryKey u) (UPDATE_BUILDERS_set now updates)]"
  by (cases mu; cases f)
    (auto simp: update_def Let_def send_def logMetric_def split: sum.splits prod.splits)

text \<open>
  C2, as amended. When \<open>validate\<close> fails, with an \<^verbatim>\<open>Error\<close> whose message starts with
  \<^verbatim>\<open>User validation failed\<close>, \<open>create\<close> and \<open>save\<close> go to their catch block at once: they send
  no request to the engine, leave the table unchanged and fail, with that error after the
  call of \<open>logMetric\<close> in the catch block. \<open>update\<close> does not run \<open>validate\<close>: whatever the
  entity, it sends its UpdateCommand.
\<close>

theorem validate_before_write:
  assumes "validate isEmail u = Inl err"
  shows "(\<exists>m. err = Error (''User validation failed: '' @ m)) \<and>
         fst (create isEmail mu now f u w) = after_metric mu (Inl err) \<and>
         sent (snd (snd (create isEmail mu now f u w))) = sent w \<and>
         table (snd (snd (create isEmail mu now f u w))) = table w \<and>
         fst (save isEmail mu now f u w) = after_metric mu (Inl err) \<and>
         sent (snd (snd (save isEmail mu now f u w))) = sent w \<and>
         table (snd (snd (save isEmail mu now f u w))) = table w \<and>
         sent (snd (snd (update mu now f updates u w))) =
           sent w @ [UpdateCommand (getPrimaryKey u) (UPDATE_BUILDERS_set now updates)]"
  using validate_error_form[OF assms] create_invalid[OF assms] save_invalid[OF assms] update_sent
  by simp

text \<open>
  The theorem at a user without clerkId, created in the empty table, when \<^verbatim>\<open>MetricUnits\<close> is
  exported.
\<close>

theorem validate_before_write_witness:
  "validate email_regex (example_user\<lparr>clerkId := None\<rparr>) =
     Inl (Error ''User validation failed: clerkId'') \<and>
   fst (create email_regex count_units ''t1'' None (example_user\<lparr>clerkId := None\<rparr>) empty_world) =
     Inl (Error ''User validation failed: clerkId'') \<and>
   sent (snd (snd (create email_regex count_units ''t1'' None (example_user\<lparr>clerkId := None\<rparr>)
                     empty_world))) = [] \<and>
   table (snd (snd (create email_regex count_units ''t1'' None (example_user\<lparr>clerkId := None\<rparr>)
                      empty_world))) = []"
  using validate_before_write[OF invalid_example, of count_units "''t1''" None empty_world]
    invalid_example
  by (simp add: empty_world_def count_units_def)

lemmas create_eval = create_def create_catch_def catch_block_eq logMetric_def toItem_def Let_def
  set_if_def send_def engine_put_def key_of_def getPrimaryKey_def KEY_BUILDERS_user_def
  template_def eval_condition_def CONDITION_BUILDERS_attributeNotExists_def map_add_def log_def
  no_units_def count_units_def

lemmas update_eval = update_def update_catch_def catch_block_eq logMetric_def
  UPDATE_BUILDERS_set_def send_def engine_update_def resolve_clauses_def Let_def key_of_def
  getPrimaryKey_def KEY_BUILDERS_user_def template_def map_add_def log_def
  string_of_nat.simps digit_char_def enumerate_eq_zip no_units_def count_units_def

lemmas get_eval = exists_def getByKey_def send_def engine_get_def key_of_def getPrimaryKey_def
  KEY_BUILDERS_user_def template_def Let_def log_def

text \<open>
  C2 as stated fails for \<open>update\<close>: on an entity that does not validate (its email is not an
  email address), \<open>update\<close> sends its request and the stored row changes, whether
  \<^verbatim>\<open>MetricUnits\<close> is \<^verbatim>\<open>undefined\<close>, and \<open>update\<close> ends with the TypeError of \<open>logMetric\<close>, or
  exported, and \<open>update\<close> succeeds.
\<close>

theorem update_skips_validate_counterexample:
  "validate email_regex (example_user\<lparr>email := Some (JStr ''nope'')\<rparr>) =
     Inl (Error ''User validation failed: email'') \<and>
   fst (getByKey None (getPrimaryKey example_user)
          (snd (snd (create email_regex no_units ''t1'' None example_user empty_world)))) =
     Inr (Some (example_user\<lparr>createdAt := Some (JStr ''t1''), updatedAt := Some (JStr ''t1'')\<rparr>)) \<and>
   fst (update no_units ''t2'' None [(EMAIL, Some (JStr ''nope''))]
          (example_user\<lparr>email := Some (JStr ''nope'')\<rparr>)
          (snd (snd (create email_regex no_units ''t1'' None example_user empty_world)))) =
     Inl TypeError \<and>
   fst (update count_units ''t2'' None [(EMAIL, Some (JStr ''nope''))]
          (example_user\<lparr>email := Some (JStr ''nope'')\<rparr>)
          (snd (snd (create email_regex count_units ''t1'' None example_user empty_world)))) =
     Inr () \<and>
   length (sent (snd (snd (update no_units ''t2'' None [(EMAIL, Some (JStr ''nope''))]
          (example_user\<lparr>email := Some (JStr ''nope'')\<rparr>)
          (snd (snd (create email_regex no_units ''t1'' None example_user empty_world))))))) = 2 \<and>
   fst (getByKey None (getPrimaryKey example_user)
          (snd (snd (update no_units ''t2'' None [(EMAIL, Some (JStr ''nope''))]
             (example_user\<lparr>email := Some (JStr ''nope'')\<rparr>)
             (snd (snd (create email_regex no_units ''t1'' None example_user empty_world))))))) =
     Inr (Some (example_user\<lparr>email := Some (JStr ''nope''), createdAt := Some (JStr ''t1''),
                               updatedAt := Some (JStr ''t2'')\<rparr>)) \<and>
   fst (getByKey None (getPrimaryKey example_user)
          (snd (snd (update count_units ''t2'' None [(EMAIL, Some (JStr ''nope''))]
             (example_user\<lparr>email := Some (JStr ''nope'')\<rparr>)
             (snd (snd (create email_regex count_units ''t1'' None example_user empty_world))))))) =
     Inr (Some (example_user\<lparr>email := Some (JStr ''nope''), createdAt := Some (JStr ''t1''),
                               updatedAt := Some (JStr ''t2'')\<rparr>))"
proof -
  have "validate email_regex (example_user\<lparr>email := Some (JStr ''nope'')\<rparr>) =
     Inl (Error ''User validation failed: email'')"
    by (simp add: validate_defs example_user_def email_regex_def)
  then show ?thesis
    using valid_example
    apply (simp add: create_eval example_user_def empty_world_def)
    apply (simp add: update_eval)
    apply (simp add: get_eval fromItem_def)
    done
qed

subsection \<open>Transient engine errors\<close>

text \<open>
  C8, as amended. A request that meets a transient fault makes \<open>getByKey\<close> fail with that
  transient error. \<open>delete\<close> and \<open>update\<close>, and \<open>create\<close> and \<open>save\<close> once the entity has passed
  \<open>validate\<close>, rethrow it from their catch block, after the call of \<open>logMetric\<close> there.
  \<open>exists\<close> catches the error: it logs it and returns \<^verbatim>\<open>false\<close>.
\<close>

theorem transient_errors:
  "fst (getByKey (Some x) key w) = Inl (TransientEngineError x) \<and>
   fst (delete mu (Some x) u w) = after_metric mu (Inl (TransientEngineError x)) \<and>
   fst (update mu now (Some x) updates u w) = after_metric mu (Inl (TransientEngineError x)) \<and>
   fst (create isEmail mu now (Some x) u w) =
     after_metric mu
       (case validate isEmail u of Inl e \<Rightarrow> Inl e | Inr ok \<Rightarrow> Inl (TransientEngineError x)) \<and>
   fst (save isEmail mu now (Some x) u w) =
     after_metric mu
       (case validate isEmail u of Inl e \<Rightarrow> Inl e | Inr ok \<Rightarrow> Inl (TransientEngineError x)) \<and>
   fst (exists (Some x) u w) = Inr False \<and>
   logs (snd (exists (Some x) u w)) = logs w @ [(ERROR, ''Failed to check entity existence'')]"
proof -
  have c: "fst (create isEmail mu now (Some x) u w) =
     after_metric mu
       (case validate isEmail u of Inl e \<Rightarrow> Inl e | Inr ok \<Rightarrow> Inl (TransientEngineError x))"
  proof (cases "validate isEmail u")
    case (Inl e)
    then show ?thesis using create_invalid(1)[OF Inl] by simp
  next
    case (Inr ok)
    with valid_toItem' obtain it where "toItem u = Inr it" by (cases ok) blast
    with Inr show ?thesis by (simp add: create_def send_def Let_def)
  qed
  have s: "fst (save isEmail mu now (Some x) u w) =
     after_metric mu
       (case validate isEmail u of Inl e \<Rightarrow> Inl e | Inr ok \<Rightarrow> Inl (TransientEngineError x))"
  proof (cases "validate isEmail u")
    case (Inl e)
    then show ?thesis using save_invalid(1)[OF Inl] by simp
  next
    case (Inr ok)
    with valid_toItem' obtain it where "toItem u = Inr it" by (cases ok) blast
    with Inr show ?thesis by (simp add: save_def send_def Let_def)
  qed
  show ?thesis
    using c s by (simp add: getByKey_def delete_def update_def exists_def send_def Let_def log_def)
qed

text \<open>
  C8 as stated fails for \<open>exists\<close>: for a stored user it returns \<^verbatim>\<open>true\<close> when the engine
  answers and \<^verbatim>\<open>false\<close>, not an error, when the request times out.
\<close>

theorem exists_swallows_counterexample:
  "fst (exists None example_user
          (snd (snd (create email_regex no_units ''t1'' None example_user empty_world)))) =
     Inr True \<and>
   fst (exists (Some Timeout) example_user
          (snd (snd (create email_regex no_units ''t1'' None example_user empty_world)))) =
     Inr False"
  using valid_example
  apply (simp add: create_eval example_user_def empty_world_def)
  apply (simp add: get_eval)
  done

subsection \<open>The pagination codec\<close>

lemma base64_alphabet_facts:
  "length base64_alphabet = 64" "distinct base64_alphabet" "CHR ''='' \<notin> set base64_alphabet"
  by (simp_all add: base64_alphabet_def)

lemma unbase64_alphabet: "i < 64 \<Longrightarrow> unbase64 (base64_alphabet ! i) = Some i"
proof -
  assume i: "i < 64"
  have "map_of (zip base64_alphabet [0 ..< 64]) (base64_alphabet ! i) = Some ([0 ..< 64] ! i)"
    using i base64_alphabet_facts by (intro map_of_zip_nth) simp_all
  with i show ?thesis by (simp add: unbase64_def)
qed

lemma div16: "(b::nat) < 256 \<Longrightarrow> b div 16 < 16" by simp
lemma div64: "(c::nat) < 256 \<Longrightarrow> c div 64 < 4" by simp
lemma div4: "(a::nat) < 256 \<Longrightarrow> a div 4 < 64" by simp

lemma sextet_bounds:
  assumes "(a::nat) < 256" "(b::nat) < 256" "(c::nat) < 256"
  shows "a div 4 < 64" "a mod 4 * 16 + b div 16 < 64" "b mod 16 * 4 + c div 64 < 64" "c mod 64 < 64"
    "a mod 4 * 16 < 64" "b mod 16 * 4 < 64"
proof -
  have "a mod 4 < 4" "b mod 16 < 16" by simp_all
  with div16[OF assms(2)] div64[OF assms(3)] div4[OF assms(1)]
  show "a div 4 < 64" "a mod 4 * 16 + b div 16 < 64" "b mod 16 * 4 + c div 64 < 64" "c mod 64 < 64"
    "a mod 4 * 16 < 64" "b mod 16 * 4 < 64"
    by linarith+
qed

lemma sextets_lt: "list_all (\<lambda>b. b < 256) bs \<Longrightarrow> list_all (\<lambda>x. x < 64) (sextets bs)"
proof (induction bs rule: sextets.induct)
  case (1 a b c bs)
  then have "a < 256" "b < 256" "c < 256" and bs: "list_all (\<lambda>x. x < 64) (sextets bs)"
    by simp_all
  from sextet_bounds[OF this(1-3)] bs show ?case
    by (simp only: sextets.simps list.pred_inject append_Cons append_Nil simp_thms)
next
  case (2 a b)
  then have "a < 256" "b < 256" by simp_all
  from sextet_bounds[OF this this(2)] show ?case
    by (simp only: sextets.simps list.pred_inject simp_thms)
next
  case (3 a)
  then have "a < 256" by simp
  from sextet_bounds[OF this this this] show ?case
    by (simp only: sextets.simps list.pred_inject simp_thms)
next
  case 4
  show ?case by simp
qed

lemma split16: "(y::nat) < 16 \<Longrightarrow> (x * 16 + y) div 16 = x \<and> (x * 16 + y) mod 16 = y" by simp
lemma split4: "(y::nat) < 4 \<Longrightarrow> (x * 4 + y) div 4 = x \<and> (x * 4 + y) mod 4 = y" by simp

lemma octet_eqs:
  assumes "(a::nat) < 256" "(b::nat) < 256" "(c::nat) < 256"
  shows "a div 4 * 4 + (a mod 4 * 16 + b div 16) div 16 = a"
    "(a mod 4 * 16 + b div 16) mod 16 * 16 + (b mod 16 * 4 + c div 64) div 4 = b"
    "(b mod 16 * 4 + c div 64) mod 4 * 64 + c mod 64 = c"
    "(a mod 4 * 16 + b div 16) mod 16 * 16 + (b mod 16 * 4) div 4 = b"
    "a div 4 * 4 + (a mod 4 * 16) div 16 = a"
  using split16[OF div16[OF assms(2)], of "a mod 4"] split4[OF div64[OF assms(3)], of "b mod 16"]
  by simp_all

lemma octets_sextets: "list_all (\<lambda>b. b < 256) bs \<Longrightarrow> octets (sextets bs) = bs"
proof (induction bs rule: sextets.induct)
  case (1 a b c bs)
  then have "a < 256" "b < 256" "c < 256" and bs: "octets (sextets bs) = bs"
    by simp_all
  from octet_eqs[OF this(1-3)] bs show ?case
    by (simp only: sextets.simps octets.simps append_Cons append_Nil)
next
  case (2 a b)
  then have "a < 256" "b < 256" by simp_all
  from octet_eqs[OF this this(2)] show ?case
    by (simp only: sextets.simps octets.simps)
next
  case (3 a)
  then have "a < 256" by simp
  from octet_eqs[OF this this this] show ?case
    by (simp only: sextets.simps octets.simps)
next
  case 4
  show ?case by simp
qed

lemma alphabet_not_pad: "i < 64 \<Longrightarrow> base64_alphabet ! i \<noteq> CHR ''=''"
  by (metis base64_alphabet_facts(1) base64_alphabet_facts(3) nth_mem)

lemma takeWhile_alphabet:
  assumes "list_all (\<lambda>x. x < 64) ss"
  shows "takeWhile (\<lambda>c. c \<noteq> CHR ''='') (map (\<lambda>i. base64_alphabet ! i) ss @ replicate k (CHR ''='')) =
         map (\<lambda>i. base64_alphabet ! i) ss"
  using assms
proof (induction ss)
  case Nil
  show ?case by (cases k) simp_all
next
  case (Cons s ss)
  then show ?case by (simp add: alphabet_not_pad)
qed

lemma map_filter_unbase64:
  "list_all (\<lambda>x. x < 64) ss \<Longrightarrow> List.map_filter unbase64 (map (\<lambda>i. base64_alphabet ! i) ss) = ss"
  by (induction ss) (simp_all add: List.map_filter_simps unbase64_alphabet)

lemma base64_roundtrip: "base64_decode (base64_encode bytes) = bytes"
proof -
  have b: "list_all (\<lambda>b. b < 256) (map of_char bytes :: nat list)"
    by (simp add: list_all_iff)
  note s = sextets_lt[OF b]
  show ?thesis
    by (simp add: base64_decode_def base64_encode_def takeWhile_alphabet[OF s]
        map_filter_unbase64[OF s] octets_sextets[OF b] comp_def)
qed

lemma sextets_Nil: "sextets bs = [] \<longleftrightarrow> bs = []"
  by (induction bs rule: sextets.induct) simp_all

lemma base64_encode_Nil: "base64_encode bytes = [] \<longleftrightarrow> bytes = []"
  by (auto simp: base64_encode_def sextets_Nil)

lemma utf8_two_bytes:
  assumes "\<not> (of_char c :: nat) < 128"
  shows "utf8_decode (char_of (192 + (of_char c :: nat) div 64) #
                      char_of (128 + (of_char c :: nat) mod 64) # bytes) =
         map_option ((#) c) (utf8_decode bytes)"
proof -
  let ?n = "of_char c :: nat"
  have n: "?n < 256" by simp
  have hi: "?n div 64 < 4" by (rule div64[OF n])
  have lo: "2 \<le> ?n div 64" using assms by (simp add: less_eq_div_iff_mult_less_eq)
  have m: "?n mod 64 < 64" by simp
  have 1: "(of_char (char_of (192 + ?n div 64) :: char) :: nat) = 192 + ?n div 64"
    using hi by (simp add: of_char_of)
  have 2: "(of_char (char_of (128 + ?n mod 64) :: char) :: nat) = 128 + ?n mod 64"
    using m by (simp add: of_char_of)
  have 3: "192 + ?n div 64 = 194 \<or> 192 + ?n div 64 = 195"
    using hi lo by linarith
  have 4: "\<not> 192 + ?n div 64 < 128" by simp
  have 5: "char_of ((192 + ?n div 64 - 192) * 64 + (128 + ?n mod 64 - 128)) = c"
    by simp
  show ?thesis
    using 3 4 5 m by (simp only: utf8_decode.simps 1 2 list.case if_True if_False) auto
qed

lemma utf8_roundtrip: "utf8_decode (utf8_encode bytes) = Some bytes"
proof (induction bytes)
  case Nil
  then show ?case by (simp add: utf8_encode_def)
next
  case (Cons c cs)
  have e: "utf8_encode (c # cs) =
     (if (of_char c :: nat) < 128 then [c]
      else [char_of (192 + (of_char c :: nat) div 64), char_of (128 + (of_char c :: nat) mod 64)]) @
     utf8_encode cs"
    by (simp add: utf8_encode_def)
  show ?case
  proof (cases "(of_char c :: nat) < 128")
    case True
    with Cons e show ?thesis by simp
  next
    case False
    with Cons e utf8_two_bytes[OF False, of "utf8_encode cs"] show ?thesis by simp
  qed
qed

lemma utf8_encode_Nil: "utf8_encode text = [] \<longleftrightarrow> text = []"
  by (cases "text") (simp_all add: utf8_encode_def)

lemma hex_value_digits:
  "list_all (\<lambda>k. hex_value (hex_digit k) = Some k) [0 ..< 16]"
  by (simp add: upt_rec hex_value_def hex_digit_def)

lemma hex_value_digit: "k < 16 \<Longrightarrow> hex_value (hex_digit k) = Some k"
  using hex_value_digits by (simp add: list_all_iff)

lemma unicode_escape_control:
  assumes "(of_char c :: nat) < 32"
  shows "unicode_escape [CHR ''0'', CHR ''0'', hex_digit ((of_char c :: nat) div 16),
                         hex_digit ((of_char c :: nat) mod 16)] = Inr c"
proof -
  have z: "hex_value (CHR ''0'') = Some 0" by (simp add: hex_value_def upt_rec)
  have a: "hex_value (hex_digit ((of_char c :: nat) div 16)) = Some ((of_char c :: nat) div 16)"
    using assms by (intro hex_value_digit) simp
  have b: "hex_value (hex_digit ((of_char c :: nat) mod 16)) = Some ((of_char c :: nat) mod 16)"
    by (intro hex_value_digit) simp
  show ?thesis by (simp add: unicode_escape_def z a b)
qed

lemma parse_chars_escape:
  "parse_chars (escape_char c @ rest) =
     (case parse_chars rest of Inl e \<Rightarrow> Inl e | Inr (s, r) \<Rightarrow> Inr (c # s, r))"
proof -
  consider "c = CHR 0x22" | "c = CHR 0x5C" | "c = CHR 0x08" | "c = CHR 0x0C" | "c = CHR 0x0A"
    | "c = CHR 0x0D" | "c = CHR 0x09"
    | "c \<notin> {CHR 0x22, CHR 0x5C, CHR 0x08, CHR 0x0C, CHR 0x0A, CHR 0x0D, CHR 0x09}" "(of_char c :: nat) < 32"
    | "c \<notin> {CHR 0x22, CHR 0x5C, CHR 0x08, CHR 0x0C, CHR 0x0A, CHR 0x0D, CHR 0x09}" "\<not> (of_char c :: nat) < 32"
    by blast
  then show ?thesis
  proof cases
    case 8
    then show ?thesis
      using unicode_escape_control[OF 8(2)]
      by (simp add: escape_char_def split: sum.splits)
  next
    case 9
    then show ?thesis by (simp add: escape_char_def)
  qed (auto simp: escape_char_def unescape_def split: sum.splits)
qed

lemma parse_chars_quoted:
  "parse_chars (concat (map escape_char s) @ CHR 0x22 # rest) = Inr (s, rest)"
  by (induction s) (simp_all add: parse_chars_escape)

lemma skip_ws_non_ws: "\<not> is_ws c \<Longrightarrow> skip_ws (c # cs) = c # cs"
  by (simp add: skip_ws_def)

lemma not_ws: "\<not> is_ws (CHR 0x22)" "\<not> is_ws (CHR '':'')" "\<not> is_ws (CHR '','')" "\<not> is_ws (CHR ''}'')"
  "\<not> is_ws (CHR ''{'')"
  by (simp_all add: is_ws_def)

lemma parse_value_string:
  "parse_value (Suc n) (quote s @ rest) = Inr (JStr s, rest)"
  by (simp add: quote_def skip_ws_non_ws not_ws parse_chars_quoted)

lemma update_fresh: "k \<notin> fst ` set acc \<Longrightarrow> AList.update k v acc = acc @ [(k, v)]"
  by (induction acc) auto

lemma parse_members_strings:
  assumes "kvs \<noteq> []" "string_valued kvs" "distinct (map fst kvs)"
    "fst ` set kvs \<inter> fst ` set acc = {}" "length kvs < fuel"
  shows "parse_members fuel acc
           (join_with '','' (map (\<lambda>kv. quote (fst kv) @ '':'' @ JSON_stringify (snd kv)) kvs) @
            CHR ''}'' # rest) =
         Inr (JObj (acc @ kvs), rest)"
  using assms
proof (induction kvs arbitrary: acc fuel)
  case Nil
  then show ?case by simp
next
  case (Cons kv kvs)
  obtain k v where kv: "kv = (k, v)" by (cases kv)
  from Cons.prems(2) kv obtain s where v: "v = JStr s"
    by (auto simp: string_valued_def split: jsval.splits)
  from Cons.prems(5) obtain n where fuel: "fuel = Suc (Suc n)" and n: "length kvs \<le> n"
    by (cases fuel; cases "fuel - 1") auto
  have fresh: "k \<notin> fst ` set acc" using Cons.prems(4) kv by auto
  show ?case
  proof (cases "kvs = []")
    case True
    then show ?thesis
      using fresh
      by (simp add: kv v fuel quote_def skip_ws_non_ws not_ws parse_chars_quoted update_fresh)
  next
    case False
    then obtain kv' kvs' where kvs: "kvs = kv' # kvs'" by (cases kvs) auto
    have ih: "parse_members (Suc n) (acc @ [(k, v)])
           (join_with '','' (map (\<lambda>kv. quote (fst kv) @ '':'' @ JSON_stringify (snd kv)) kvs) @
            CHR ''}'' # rest) = Inr (JObj ((acc @ [(k, v)]) @ kvs), rest)"
      using Cons.prems False n kv
      by (intro Cons.IH) (auto simp: string_valued_def)
    show ?thesis
      using fresh ih
      by (simp add: kv v fuel kvs quote_def skip_ws_non_ws not_ws parse_chars_quoted update_fresh)
  qed
qed

lemma join_with_Cons:
  "join_with sep (x # xs) = x @ (if xs = [] then [] else sep @ join_with sep xs)"
  by (cases xs) simp_all

lemma length_join_with:
  "list_all (\<lambda>x. x \<noteq> []) xs \<Longrightarrow> length xs \<le> length (join_with sep xs)"
proof (induction sep xs rule: join_with.induct)
  case (2 sep x)
  then show ?case by (cases x) simp_all
next
  case (3 sep x y ys)
  then show ?case by (cases x) simp_all
qed simp

lemma JSON_roundtrip:
  assumes "string_valued kvs" "distinct (map fst kvs)"
  shows "JSON_parse (JSON_stringify (JObj kvs)) = Inr (JObj kvs)"
proof (cases "kvs = []")
  case True
  then show ?thesis
    by (simp add: JSON_parse_def skip_ws_non_ws not_ws skip_ws_def)
next
  case False
  let ?member = "\<lambda>kv. quote (fst kv) @ '':'' @ JSON_stringify (snd kv)"
  let ?ms = "join_with '','' (map ?member kvs)"
  have ne: "list_all (\<lambda>x. x \<noteq> []) (map ?member kvs)"
    by (simp add: list_all_iff quote_def)
  have len: "length kvs < length (CHR ''{'' # ?ms @ ''}'')"
    using length_join_with[OF ne, of "'',''"] by simp
  from False obtain kv kvs' where kvs: "kvs = kv # kvs'" by (cases kvs) auto
  have start: "\<exists>r. ?ms @ ''}'' = CHR 0x22 # r"
    by (simp add: kvs join_with_Cons quote_def)
  then obtain r where r: "?ms @ ''}'' = CHR 0x22 # r" by blast
  have nb: "take 1 (skip_ws (?ms @ ''}'')) \<noteq> ''}''"
    by (subst r) (simp add: skip_ws_non_ws not_ws)
  have pm: "parse_members (length (CHR ''{'' # ?ms @ ''}'')) [] (?ms @ CHR ''}'' # []) =
              Inr (JObj ([] @ kvs), [])"
    using False assms len by (intro parse_members_strings) simp_all
  have "parse_value (Suc (length (CHR ''{'' # ?ms @ ''}''))) (CHR ''{'' # ?ms @ ''}'') =
          Inr (JObj kvs, [])"
    using nb pm by (simp add: skip_ws_non_ws not_ws)
  then show ?thesis
    by (simp add: JSON_parse_def skip_ws_def)
qed

lemma JSON_stringify_not_Nil: "JSON_stringify (JObj kvs) \<noteq> []"
  by simp














lemma queryByIndex_catch_simps [simp]:
  "fst (queryByIndex_catch mu err w) = after_metric mu (Inl err)"
  "table (snd (queryByIndex_catch mu err w)) = table w"
  "sent (snd (queryByIndex_catch mu err w)) = sent w"
  "logs (snd (queryByIndex_catch mu err w)) = logs w @ [(ERROR, ''Failed to query by index'')]"
  by (simp_all add: queryByIndex_catch_def split_beta after_metric_def split: option.splits)


lemma queryByIndex_null_marker:
  assumes "parsePaginationParams params = Inr paging" and "ExclusiveStartKey paging = Some JNull"
  shows "queryByIndex mu f indexName keyCondition (Some params) scanIndexForward w =
           queryByIndex_catch mu TypeError w"
  using assms by (simp add: queryByIndex_def)




text \<open>
  C7. The codec maps the absent marker to the absent token. For a marker that a query
  produces, an object whose attributes are strings, \<open>createNextToken\<close> gives a token, not
  the empty one, and \<open>parsePaginationParams\<close> decodes that token to exactly the marker.
\<close>

theorem token_roundtrip:
  assumes "string_valued kvs" and "distinct (map fst kvs)"
  shows "createNextToken None = None \<and>
         createNextToken (Some (JObj kvs)) \<noteq> None \<and>
         createNextToken (Some (JObj kvs)) \<noteq> Some [] \<and>
         parsePaginationParams \<lparr>limit = l, nextToken = createNextToken (Some (JObj kvs))\<rparr> =
           Inr \<lparr>Limit = (case l of None \<Rightarrow> 20 | Some n \<Rightarrow> if n = 0 then 20 else n),
                ExclusiveStartKey = Some (JObj kvs)\<rparr>"
proof -
  let ?text = "JSON_stringify (JObj kvs)"
  let ?token = "base64_encode (utf8_encode ?text)"
  have t: "createNextToken (Some (JObj kvs)) = Some ?token"
    by (simp add: createNextToken_def)
  have ne: "?token \<noteq> []"
    using JSON_stringify_not_Nil[of kvs] by (simp only: base64_encode_Nil utf8_encode_Nil) simp
  have d: "utf8_decode (base64_decode ?token) = Some ?text"
    by (simp only: base64_roundtrip utf8_roundtrip)
  have p: "JSON_parse ?text = Inr (JObj kvs)"
    by (rule JSON_roundtrip[OF assms])
  have "parsePaginationParams \<lparr>limit = l, nextToken = Some ?token\<rparr> =
           Inr \<lparr>Limit = (case l of None \<Rightarrow> 20 | Some n \<Rightarrow> if n = 0 then 20 else n),
                ExclusiveStartKey = Some (JObj kvs)\<rparr>"
    using ne d p by (simp add: parsePaginationParams_def Let_def del: JSON_stringify.simps)
  then show ?thesis using t ne by (simp add: createNextToken_def del: JSON_stringify.simps)
qed

text \<open>
  C7, witness: the key of the last item of a query on the email index.
\<close>

theorem token_roundtrip_witness:
  "string_valued [(PARTITION_KEY, JStr ''USER#u1''), (SORT_KEY, JStr ''USER#u1''),
                  (EMAIL_KEY, JStr ''EMAIL#test@example.com'')] \<and>
   distinct (map fst [(PARTITION_KEY, JStr ''USER#u1''), (SORT_KEY, JStr ''USER#u1''),
                  (EMAIL_KEY, JStr ''EMAIL#test@example.com'')]) \<and>
   parsePaginationParams
     \<lparr>limit = Some 1,
      nextToken = createNextToken (Some (JObj [(PARTITION_KEY, JStr ''USER#u1''),
                    (SORT_KEY, JStr ''USER#u1''), (EMAIL_KEY, JStr ''EMAIL#test@example.com'')]))\<rparr> =
     Inr \<lparr>Limit = 1,
          ExclusiveStartKey = Some (JObj [(PARTITION_KEY, JStr ''USER#u1''),
                    (SORT_KEY, JStr ''USER#u1''), (EMAIL_KEY, JStr ''EMAIL#test@example.com'')])\<rparr>"
proof -
  have s: "string_valued [(PARTITION_KEY, JStr ''USER#u1''), (SORT_KEY, JStr ''USER#u1''),
                  (EMAIL_KEY, JStr ''EMAIL#test@example.com'')]"
    by (simp add: string_valued_def)
  have d: "distinct (map fst [(PARTITION_KEY, JStr ''USER#u1''), (SORT_KEY, JStr ''USER#u1''),
                  (EMAIL_KEY, JStr ''EMAIL#test@example.com'')])"
    by simp
  from token_roundtrip[OF s d, of "Some 1"] s d show ?thesis by simp
qed

text \<open>
  The markers of the queries are such objects: on a table whose rows are stored at their own
  primary key, the LastEvaluatedKey of a query for a string value is an object of distinct
  attributes with string values.
\<close>

lemma string_valued_update:
  "string_valued kvs \<Longrightarrow> string_valued (AList.update a (JStr x) kvs)"
  by (induction kvs) (auto simp: string_valued_def)

lemma last_key_string_valued:
  assumes "last_key a it = Some m" and "key_of it \<noteq> None" and "it a = Some (JStr x)"
  shows "\<exists>kvs. m = JObj kvs \<and> string_valued kvs \<and> distinct (map fst kvs)"
proof -
  from assms(2) obtain p s where ps: "it PARTITION_KEY = Some (JStr p)" "it SORT_KEY = Some (JStr s)"
    by (auto simp: key_of_def split: option.splits jsval.splits)
  let ?kvs = "AList.update a (JStr x) [(PARTITION_KEY, JStr p), (SORT_KEY, JStr s)]"
  have m: "m = JObj ?kvs" using assms(1,3) ps by (simp add: last_key_def)
  have sv: "string_valued ?kvs" by (rule string_valued_update) (simp add: string_valued_def)
  have d: "distinct (map fst ?kvs)" by (rule distinct_update) simp
  from m sv d show ?thesis by blast
qed

lemma engine_query_marker:
  assumes q: "engine_query indexName cond paging forward t = Inr ((page, Some m, n), t')"
    and keyed: "list_all (\<lambda>row. key_of (snd row) = Some (fst row)) t"
    and v: "values' cond (snd (expression cond)) = Some (JStr x)"
  shows "\<exists>kvs. m = JObj kvs \<and> string_valued kvs \<and> distinct (map fst kvs)"
proof -
  from q obtain a where a: "index_partition_key indexName = Some a"
    by (auto simp: engine_query_def split: option.splits)
  let ?rows = "filter (\<lambda>it. it a = Some (JStr x)) (map snd (if forward then t else rev t))"
  have rows: "key_of it \<noteq> None \<and> it a = Some (JStr x)" if "it \<in> set ?rows" for it
    using that keyed by (auto simp: list_all_iff split: if_splits)
  have full: "page \<noteq> [] \<and> set page \<subseteq> set ?rows \<and> last_key a (last page) = Some m"
  proof (cases "ExclusiveStartKey paging")
    case None
    from q a v None have c: "1 \<le> Limit paging" "page = take (nat (Limit paging)) ?rows"
        "(if length page = nat (Limit paging) then last_key a (last page) else None) = Some m"
      by (auto simp: engine_query_def Let_def split: if_splits)
    from c(3) have len: "length page = nat (Limit paging)"
      and lk: "last_key a (last page) = Some m"
      by (auto split: if_splits)
    from len c(1) have "page \<noteq> []" by auto
    moreover have "set page \<subseteq> set ?rows" by (subst c(2)) (rule set_take_subset)
    ultimately show ?thesis using lk by simp
  next
    case (Some marker)
    from q a v Some obtain k where k: "start_key a (JStr x) marker = Some k"
      by (auto simp: engine_query_def Let_def split: if_splits option.splits)
    from q a v Some k have c: "1 \<le> Limit paging"
        "page = take (nat (Limit paging)) (drop 1 (dropWhile (\<lambda>it. key_of it \<noteq> Some k) ?rows))"
        "(if length page = nat (Limit paging) then last_key a (last page) else None) = Some m"
      by (auto simp: engine_query_def Let_def split: if_splits)
    from c(3) have len: "length page = nat (Limit paging)"
      and lk: "last_key a (last page) = Some m"
      by (auto split: if_splits)
    from len c(1) have "page \<noteq> []" by auto
    moreover have "set page \<subseteq> set ?rows"
      by (subst c(2)) (meson set_take_subset set_drop_subset set_dropWhileD subsetI subset_trans)
    ultimately show ?thesis using lk by simp
  qed
  then have "last page \<in> set ?rows" using last_in_set by blast
  from rows[OF this] full show ?thesis using last_key_string_valued by blast
qed


subsection \<open>update and its SET expression\<close>

lemma digit_value: "list_all (\<lambda>k. map_of (zip ''0123456789'' [0 ..< 10]) (digit_char k) = Some k) [0 ..< 10]"
  by (simp add: upt_rec digit_char_def)

lemma digit_value': "k < 10 \<Longrightarrow> map_of (zip ''0123456789'' [0 ..< 10]) (digit_char k) = Some k"
  using digit_value by (simp add: list_all_iff)

lemma digits_value_snoc:
  "digits_value (ds @ [c]) =
     10 * digits_value ds + (case map_of (zip ''0123456789'' [0 ..< 10]) c of Some d \<Rightarrow> d | None \<Rightarrow> 0)"
  by (simp add: digits_value_def)

lemma digits_value_string_of_nat: "digits_value (string_of_nat n) = n"
proof (induction n rule: string_of_nat.induct)
  case (1 n)
  show ?case
  proof (cases "n < 10")
    case True
    then show ?thesis
      using digit_value'[OF True]
      by (subst string_of_nat.simps) (simp add: digits_value_def)
  next
    case False
    have m: "n mod 10 < 10" by simp
    from False 1 have ih: "digits_value (string_of_nat (n div 10)) = n div 10" by simp
    show ?thesis
      using False ih digit_value'[OF m]
      by (subst string_of_nat.simps) (simp add: digits_value_snoc)
  qed
qed

lemma string_of_nat_inj: "string_of_nat m = string_of_nat n \<longleftrightarrow> m = n"
  by (metis digits_value_string_of_nat)

lemma placeholder_inj:
  "''#attr'' @ string_of_nat i = ''#attr'' @ string_of_nat j \<longleftrightarrow> i = j"
  "'':val'' @ string_of_nat i = '':val'' @ string_of_nat j \<longleftrightarrow> i = j"
  by (simp_all add: string_of_nat_inj)

lemma foldl_set_entry_clauses:
  "UpdateExpression (foldl set_entry acc (enumerate j ups)) =
     UpdateExpression acc @
     map (\<lambda>(i, k, v). (''#attr'' @ string_of_nat i, '':val'' @ string_of_nat i))
       (filter (\<lambda>(i, k, v). v \<noteq> None) (enumerate j ups))"
proof (induction ups arbitrary: acc j)
  case Nil
  then show ?case by simp
next
  case (Cons x ups)
  obtain k v where x: "x = (k, v)" by (cases x)
  show ?case by (cases v) (simp_all add: x Cons Let_def)
qed

lemma foldl_set_entry_names:
  "ExpressionAttributeNames (foldl set_entry acc (enumerate j ups)) (''#attr'' @ string_of_nat i) =
     (if j \<le> i \<and> i < j + length ups \<and> snd (ups ! (i - j)) \<noteq> None
      then Some (fst (ups ! (i - j)))
      else ExpressionAttributeNames acc (''#attr'' @ string_of_nat i))"
proof (induction ups arbitrary: acc j)
  case Nil
  then show ?case by auto
next
  case (Cons x ups)
  obtain k v where x: "x = (k, v)" by (cases x)
  show ?case
  proof (cases v)
    case None
    then show ?thesis
      by (auto simp: x Cons Let_def nth_Cons' Suc_diff_le simp del: append.simps)
  next
    case (Some a)
    then show ?thesis
      by (auto simp: x Cons Let_def nth_Cons' placeholder_inj string_of_nat_inj Suc_diff_le simp del: append.simps)
  qed
qed

lemma foldl_set_entry_values:
  "ExpressionAttributeValues (foldl set_entry acc (enumerate j ups)) ('':val'' @ string_of_nat i) =
     (if j \<le> i \<and> i < j + length ups \<and> snd (ups ! (i - j)) \<noteq> None
      then snd (ups ! (i - j))
      else ExpressionAttributeValues acc ('':val'' @ string_of_nat i))"
proof (induction ups arbitrary: acc j)
  case Nil
  then show ?case by auto
next
  case (Cons x ups)
  obtain k v where x: "x = (k, v)" by (cases x)
  show ?case
  proof (cases v)
    case None
    then show ?thesis
      by (auto simp: x Cons Let_def nth_Cons' Suc_diff_le simp del: append.simps)
  next
    case (Some a)
    then show ?thesis
      by (auto simp: x Cons Let_def nth_Cons' placeholder_inj string_of_nat_inj Suc_diff_le simp del: append.simps)
  qed
qed

lemma defined_enumerate:
  "map (\<lambda>(i, k, v). (k, the v)) (filter (\<lambda>(i, k, v). v \<noteq> None) (enumerate j ups)) =
     defined_entries ups"
proof (induction ups arbitrary: j)
  case Nil
  then show ?case by (simp add: defined_entries_def List.map_filter_simps)
next
  case (Cons x ups)
  obtain k v where x: "x = (k, v)" by (cases x)
  from Cons[of "Suc j"] show ?case
    by (cases v) (simp_all add: x defined_entries_def List.map_filter_simps)
qed

lemma those_map_Some: "those (map Some xs) = Some xs"
  by (induction xs) simp_all

lemma resolve_set:
  "resolve_clauses (UPDATE_BUILDERS_set now updates) =
     Some (defined_entries updates @ [(UPDATED_AT, JStr now)])"
proof -
  let ?acc0 = "\<lparr>UpdateExpression = [], ExpressionAttributeNames = Map.empty,
                 ExpressionAttributeValues = Map.empty\<rparr>"
  let ?acc = "foldl set_entry ?acc0 (enumerate 0 updates)"
  let ?n = "length updates"
  let ?p = "UPDATE_BUILDERS_set now updates"
  let ?es = "filter (\<lambda>(i, k, v). v \<noteq> None) (enumerate 0 updates)"
  have names: "ExpressionAttributeNames ?p =
      (ExpressionAttributeNames ?acc)(''#attr'' @ string_of_nat ?n \<mapsto> UPDATED_AT)"
    and vals: "ExpressionAttributeValues ?p =
      (ExpressionAttributeValues ?acc)('':val'' @ string_of_nat ?n \<mapsto> JStr now)"
    and ue: "UpdateExpression ?p =
      map (\<lambda>(i, k, v). (''#attr'' @ string_of_nat i, '':val'' @ string_of_nat i)) ?es @
      [(''#attr'' @ string_of_nat ?n, '':val'' @ string_of_nat ?n)]"
    by (simp_all add: UPDATE_BUILDERS_set_def Let_def foldl_set_entry_clauses)
  let ?res = "\<lambda>(n, v). case ExpressionAttributeNames ?p n of
                             None \<Rightarrow> None
                           | Some a \<Rightarrow> map_option (Pair a) (ExpressionAttributeValues ?p v)"
  have each: "?res (''#attr'' @ string_of_nat i, '':val'' @ string_of_nat i) = Some (k, the v)"
    if "(i, k, v) \<in> set ?es" for i k v
  proof -
    from that have i: "i < ?n" and u: "updates ! i = (k, v)" and v: "v \<noteq> None"
      by (auto simp: in_set_enumerate_eq)
    from i have ne: "i \<noteq> ?n" by simp
    show ?thesis
      using i u v ne
      by (auto simp: names vals placeholder_inj string_of_nat_inj foldl_set_entry_names foldl_set_entry_values
          simp del: append.simps)
  qed
  have m: "map ?res (map (\<lambda>(i, k, v). (''#attr'' @ string_of_nat i, '':val'' @ string_of_nat i)) ?es) =
           map Some (map (\<lambda>(i, k, v). (k, the v)) ?es)"
    using each by (auto simp: comp_def)
  have l: "?res (''#attr'' @ string_of_nat ?n, '':val'' @ string_of_nat ?n) =
           Some (UPDATED_AT, JStr now)"
    by (simp add: names vals del: append.simps)
  have "map ?res (UpdateExpression ?p) =
          map ?res (map (\<lambda>(i, k, v). (''#attr'' @ string_of_nat i, '':val'' @ string_of_nat i)) ?es) @
          [?res (''#attr'' @ string_of_nat ?n, '':val'' @ string_of_nat ?n)]"
    by (simp only: ue map_append list.map)
  also have "\<dots> = map Some (map (\<lambda>(i, k, v). (k, the v)) ?es) @ [Some (UPDATED_AT, JStr now)]"
    by (simp only: m l)
  also have "\<dots> = map Some (defined_entries updates @ [(UPDATED_AT, JStr now)])"
    by (simp only: defined_enumerate map_append list.map)
  finally have "map ?res (UpdateExpression ?p) =
          map Some (defined_entries updates @ [(UPDATED_AT, JStr now)])" .
  then show ?thesis
    unfolding resolve_clauses_def by (simp only: those_map_Some)
qed

lemma defined_entries_keys:
  "map fst (defined_entries ups) = map fst (filter (\<lambda>kv. snd kv \<noteq> None) ups)"
  by (induction ups) (auto simp: defined_entries_def List.map_filter_simps split: option.splits)

lemma defined_entries_set:
  "(a, v) \<in> set (defined_entries ups) \<longleftrightarrow> (a, Some v) \<in> set ups"
  by (induction ups) (auto simp: defined_entries_def List.map_filter_simps split: option.splits)

lemma distinct_defined:
  "distinct (map fst ups) \<Longrightarrow> distinct (map fst (defined_entries ups))"
  by (simp add: defined_entries_keys distinct_map_filter)

lemma update_unfold:
  assumes "distinct (map fst updates)"
  shows "fst (update mu now f updates u w) =
           after_metric mu
             (case f of
                Some x \<Rightarrow> Inl (TransientEngineError x)
              | None \<Rightarrow> if update_accepted updates then Inr () else Inl ValidationException)"
    and "sent (snd (snd (update mu now f updates u w))) =
           sent w @ [UpdateCommand (getPrimaryKey u) (UPDATE_BUILDERS_set now updates)]"
    and "table (snd (snd (update mu now f updates u w))) =
           (if f = None \<and> update_accepted updates
            then AList.update (user_key u)
                   (row_before w (getPrimaryKey u) ++
                    map_of (defined_entries updates @ [(UPDATED_AT, JStr now)])) (table w)
            else table w)"
    and "fst (snd (update mu now f updates u w)) =
           (if f = None \<and> update_accepted updates
            then fromItem (row_before w (getPrimaryKey u) ++
                           map_of (defined_entries updates @ [(UPDATED_AT, JStr now)]))
            else u)"
proof -
  have d: "distinct (map fst (defined_entries updates @ [(UPDATED_AT, JStr now)])) \<and>
        PARTITION_KEY \<notin> set (map fst (defined_entries updates @ [(UPDATED_AT, JStr now)])) \<and>
        SORT_KEY \<notin> set (map fst (defined_entries updates @ [(UPDATED_AT, JStr now)]))
        \<longleftrightarrow> update_accepted updates"
    using distinct_defined[OF assms] by (auto simp: update_accepted_def)
  have rb: "row_before w (getPrimaryKey u) =
      (case map_of (table w) (user_key u) of
         None \<Rightarrow> [PARTITION_KEY \<mapsto> JStr (fst (user_key u)), SORT_KEY \<mapsto> JStr (snd (user_key u))]
       | Some it \<Rightarrow> it)"
    by (simp add: row_before_def stored_def key_of_getPrimaryKey split: option.splits)
  let ?new = "row_before w (getPrimaryKey u) ++
                map_of (defined_entries updates @ [(UPDATED_AT, JStr now)])"
  let ?w1 = "w\<lparr>sent := sent w @ [UpdateCommand (getPrimaryKey u) (UPDATE_BUILDERS_set now updates)]\<rparr>"
  have s: "send f (UpdateCommand (getPrimaryKey u) (UPDATE_BUILDERS_set now updates))
             (engine_update (getPrimaryKey u) (UPDATE_BUILDERS_set now updates)) w =
           (case f of
              Some x \<Rightarrow> (Inl (TransientEngineError x), ?w1)
            | None \<Rightarrow>
                if update_accepted updates
                then (Inr ?new, ?w1\<lparr>table := AList.update (user_key u) ?new (table w)\<rparr>)
                else (Inl ValidationException, ?w1))"
  proof (cases f)
    case (Some x)
    then show ?thesis by (simp add: send_def Let_def)
  next
    case None
    show ?thesis
    proof (cases "update_accepted updates")
      case True
      with d have "distinct (map fst (defined_entries updates @ [(UPDATED_AT, JStr now)])) \<and>
        PARTITION_KEY \<notin> set (map fst (defined_entries updates @ [(UPDATED_AT, JStr now)])) \<and>
        SORT_KEY \<notin> set (map fst (defined_entries updates @ [(UPDATED_AT, JStr now)]))" by blast
      with None True show ?thesis
        by (simp add: send_def Let_def engine_update_def key_of_getPrimaryKey
            resolve_set rb del: map_append distinct_append set_append map_of_append)
    next
      case False
      with d have "\<not> (distinct (map fst (defined_entries updates @ [(UPDATED_AT, JStr now)])) \<and>
        PARTITION_KEY \<notin> set (map fst (defined_entries updates @ [(UPDATED_AT, JStr now)])) \<and>
        SORT_KEY \<notin> set (map fst (defined_entries updates @ [(UPDATED_AT, JStr now)])))" by blast
      with None False show ?thesis
        by (simp add: send_def Let_def engine_update_def key_of_getPrimaryKey
            resolve_set rb del: map_append distinct_append set_append map_of_append)
    qed
  qed
  show "fst (update mu now f updates u w) =
           after_metric mu
             (case f of
                Some x \<Rightarrow> Inl (TransientEngineError x)
              | None \<Rightarrow> if update_accepted updates then Inr () else Inl ValidationException)"
    by (cases mu) (simp_all add: update_def Let_def s logMetric_def split: option.splits)
  show "sent (snd (snd (update mu now f updates u w))) =
           sent w @ [UpdateCommand (getPrimaryKey u) (UPDATE_BUILDERS_set now updates)]"
    by (rule update_sent)
  show "table (snd (snd (update mu now f updates u w))) =
           (if f = None \<and> update_accepted updates
            then AList.update (user_key u) ?new (table w) else table w)"
    by (cases mu) (simp_all add: update_def Let_def s logMetric_def split: option.splits)
  show "fst (snd (update mu now f updates u w)) =
           (if f = None \<and> update_accepted updates then fromItem ?new else u)"
    by (cases mu) (simp_all add: update_def Let_def s logMetric_def split: option.splits)
qed

text \<open>
  C10. Let \<open>updates\<close> be an object (each key once). The SET expression that \<open>update\<close>
  sends assigns exactly the entries whose value is not \<^verbatim>\<open>undefined\<close>, in their order,
  followed by updatedAt with the current time: an entry whose value is \<^verbatim>\<open>undefined\<close> is
  left out and updatedAt is always appended. When the request meets no fault and the engine
  accepts it, the stored row has the current time as updatedAt and the given value for every
  defined entry, and every other attribute, whether given as \<^verbatim>\<open>undefined\<close> or not named in
  \<open>updates\<close>, has the value it had before (for a row that did not exist, only the key
  attributes are present); the entity object is read from that row. Otherwise the table is
  unchanged. \<open>update\<close> calls \<open>logMetric\<close> after the request, so that its own result is that
  of \<open>logMetric\<close> after the outcome of the request.
\<close>

theorem update_frame:
  assumes "distinct (map fst updates)"
  shows "resolve_clauses (UPDATE_BUILDERS_set now updates) =
           Some (defined_entries updates @ [(UPDATED_AT, JStr now)]) \<and>
         sent (snd (snd (update mu now f updates u w))) =
           sent w @ [UpdateCommand (getPrimaryKey u) (UPDATE_BUILDERS_set now updates)] \<and>
         fst (update mu now f updates u w) =
           after_metric mu
             (case f of
                Some x \<Rightarrow> Inl (TransientEngineError x)
              | None \<Rightarrow> if update_accepted updates then Inr () else Inl ValidationException) \<and>
         (f = None \<and> update_accepted updates \<longrightarrow>
            (\<exists>new. stored (snd (snd (update mu now f updates u w))) (getPrimaryKey u) = Some new \<and>
               fst (snd (update mu now f updates u w)) = fromItem new \<and>
               new UPDATED_AT = Some (JStr now) \<and>
               (\<forall>a v. (a, Some v) \<in> set updates \<longrightarrow> new a = Some v) \<and>
               (\<forall>a. a \<noteq> UPDATED_AT \<and> (a, None) \<in> set updates \<longrightarrow>
                    new a = row_before w (getPrimaryKey u) a) \<and>
               (\<forall>a. a \<noteq> UPDATED_AT \<and> a \<notin> fst ` set updates \<longrightarrow>
                    new a = row_before w (getPrimaryKey u) a))) \<and>
         (\<not> (f = None \<and> update_accepted updates) \<longrightarrow>
            table (snd (snd (update mu now f updates u w))) = table w)"
proof -
  let ?old = "row_before w (getPrimaryKey u)"
  let ?new = "?old ++ map_of (defined_entries updates @ [(UPDATED_AT, JStr now)])"
  note uu = update_unfold[OF assms, of mu now f u w]
  have dd: "distinct (map fst (defined_entries updates))"
    by (rule distinct_defined[OF assms])
  have undefined_key: "map_of (defined_entries updates) a = None"
    if "(a, None) \<in> set updates \<or> a \<notin> fst ` set updates" for a
  proof (rule ccontr)
    assume "map_of (defined_entries updates) a \<noteq> None"
    then obtain v where "map_of (defined_entries updates) a = Some v" by blast
    then have "(a, v) \<in> set (defined_entries updates)" by (rule map_of_SomeD)
    then have m: "(a, Some v) \<in> set updates" by (simp add: defined_entries_set)
    from map_of_is_SomeI[OF assms m] have s: "map_of updates a = Some (Some v)" .
    from m have "fst (a, Some v) \<in> fst ` set updates" by (rule imageI)
    then have i: "a \<in> fst ` set updates" by simp
    from that show False
    proof
      assume "(a, None) \<in> set updates"
      from map_of_is_SomeI[OF assms this] s show False by simp
    next
      assume "a \<notin> fst ` set updates"
      with i show False by simp
    qed
  qed
  have frame: "\<exists>new. stored (snd (snd (update mu now f updates u w))) (getPrimaryKey u) = Some new \<and>
               fst (snd (update mu now f updates u w)) = fromItem new \<and>
               new UPDATED_AT = Some (JStr now) \<and>
               (\<forall>a v. (a, Some v) \<in> set updates \<longrightarrow> new a = Some v) \<and>
               (\<forall>a. a \<noteq> UPDATED_AT \<and> (a, None) \<in> set updates \<longrightarrow> new a = ?old a) \<and>
               (\<forall>a. a \<noteq> UPDATED_AT \<and> a \<notin> fst ` set updates \<longrightarrow> new a = ?old a)"
    if s: "f = None \<and> update_accepted updates"
  proof -
    from s have f: "f = None" and acc: "update_accepted updates" by simp_all
    from acc have nu: "UPDATED_AT \<notin> fst ` set (defined_entries updates)"
      by (simp add: update_accepted_def)
    from nu have mu: "map_of (defined_entries updates) UPDATED_AT = None"
      by (simp add: map_of_eq_None_iff)
    have 1: "stored (snd (snd (update mu now f updates u w))) (getPrimaryKey u) = Some ?new"
      using f acc by (simp add: update_unfold(3)[OF assms] stored_def key_of_getPrimaryKey update_conv')
    have 0: "fst (snd (update mu now f updates u w)) = fromItem ?new"
      using f acc by (simp add: update_unfold(4)[OF assms])
    have 2: "?new UPDATED_AT = Some (JStr now)"
      by (simp add: map_add_def mu)
    have 3: "\<forall>a v. (a, Some v) \<in> set updates \<longrightarrow> ?new a = Some v"
    proof (intro allI impI)
      fix a v
      assume "(a, Some v) \<in> set updates"
      then have m: "(a, v) \<in> set (defined_entries updates)"
        by (simp add: defined_entries_set)
      from map_of_is_SomeI[OF dd m] show "?new a = Some v"
        by (simp add: map_add_def)
    qed
    have 4: "\<forall>a. a \<noteq> UPDATED_AT \<and> (a, None) \<in> set updates \<longrightarrow> ?new a = ?old a"
    proof (intro allI impI)
      fix a
      assume a: "a \<noteq> UPDATED_AT \<and> (a, None) \<in> set updates"
      then have "map_of (defined_entries updates) a = None" by (intro undefined_key) simp
      with a show "?new a = ?old a" by (simp add: map_add_def)
    qed
    have 5: "\<forall>a. a \<noteq> UPDATED_AT \<and> a \<notin> fst ` set updates \<longrightarrow> ?new a = ?old a"
    proof (intro allI impI)
      fix a
      assume a: "a \<noteq> UPDATED_AT \<and> a \<notin> fst ` set updates"
      then have "map_of (defined_entries updates) a = None" by (intro undefined_key) simp
      with a show "?new a = ?old a" by (simp add: map_add_def)
    qed
    show ?thesis
      by (rule exI[of _ ?new]) (intro conjI 1 0 2 3 4 5)
  qed
  show ?thesis
  proof (intro conjI impI)
    show "resolve_clauses (UPDATE_BUILDERS_set now updates) =
           Some (defined_entries updates @ [(UPDATED_AT, JStr now)])"
      by (rule resolve_set)
    show "sent (snd (snd (update mu now f updates u w))) =
           sent w @ [UpdateCommand (getPrimaryKey u) (UPDATE_BUILDERS_set now updates)]"
      by (rule uu(2))
    show "fst (update mu now f updates u w) =
           after_metric mu
             (case f of
                Some x \<Rightarrow> Inl (TransientEngineError x)
              | None \<Rightarrow> if update_accepted updates then Inr () else Inl ValidationException)"
      by (rule uu(1))
  next
    assume "f = None \<and> update_accepted updates"
    then show "\<exists>new. stored (snd (snd (update mu now f updates u w))) (getPrimaryKey u) = Some new \<and>
               fst (snd (update mu now f updates u w)) = fromItem new \<and>
               new UPDATED_AT = Some (JStr now) \<and>
               (\<forall>a v. (a, Some v) \<in> set updates \<longrightarrow> new a = Some v) \<and>
               (\<forall>a. a \<noteq> UPDATED_AT \<and> (a, None) \<in> set updates \<longrightarrow> new a = ?old a) \<and>
               (\<forall>a. a \<noteq> UPDATED_AT \<and> a \<notin> fst ` set updates \<longrightarrow> new a = ?old a)"
      by (rule frame)
  next
    assume "\<not> (f = None \<and> update_accepted updates)"
    then show "table (snd (snd (update mu now f updates u w))) = table w"
      by (auto simp: uu(3))
  qed
qed

text \<open>
  The theorem at the stored example user, updated with a first name and with an undefined
  last name, when \<^verbatim>\<open>MetricUnits\<close> is \<^verbatim>\<open>undefined\<close>: the row is updated and \<open>update\<close> ends with
  the TypeError of \<open>logMetric\<close>; and at the same update when its request times out.
\<close>

theorem update_frame_witness:
  "distinct (map fst [(FIRST_NAME, Some (JStr ''Ada'')), (LAST_NAME, None)]) \<and>
   update_accepted [(FIRST_NAME, Some (JStr ''Ada'')), (LAST_NAME, None)] \<and>
   fst (update no_units ''t2'' None [(FIRST_NAME, Some (JStr ''Ada'')), (LAST_NAME, None)]
          example_user
          (snd (snd (create email_regex no_units ''t1'' None example_user empty_world)))) =
     Inl TypeError \<and>
   resolve_clauses (UPDATE_BUILDERS_set ''t2'' [(FIRST_NAME, Some (JStr ''Ada'')), (LAST_NAME, None)]) =
     Some [(FIRST_NAME, JStr ''Ada''), (UPDATED_AT, JStr ''t2'')] \<and>
   (\<exists>new. stored (snd (snd (update no_units ''t2'' None
                     [(FIRST_NAME, Some (JStr ''Ada'')), (LAST_NAME, None)] example_user
                     (snd (snd (create email_regex no_units ''t1'' None example_user
                                  empty_world))))))
             (getPrimaryKey example_user) = Some new \<and>
      new UPDATED_AT = Some (JStr ''t2'') \<and>
      new FIRST_NAME = Some (JStr ''Ada'') \<and>
      new LAST_NAME =
        row_before (snd (snd (create email_regex no_units ''t1'' None example_user empty_world)))
          (getPrimaryKey example_user) LAST_NAME \<and>
      new EMAIL =
        row_before (snd (snd (create email_regex no_units ''t1'' None example_user empty_world)))
          (getPrimaryKey example_user) EMAIL) \<and>
   \<not> (Some Timeout = None \<and>
        update_accepted [(FIRST_NAME, Some (JStr ''Ada'')), (LAST_NAME, None)]) \<and>
   table (snd (snd (update no_units ''t2'' (Some Timeout)
                      [(FIRST_NAME, Some (JStr ''Ada'')), (LAST_NAME, None)] example_user
                      (snd (snd (create email_regex no_units ''t1'' None example_user
                                   empty_world)))))) =
     table (snd (snd (create email_regex no_units ''t1'' None example_user empty_world)))"
proof -
  let ?ups = "[(FIRST_NAME, Some (JStr ''Ada'')), (LAST_NAME, None)]"
  let ?w = "snd (snd (create email_regex no_units ''t1'' None example_user empty_world))"
  have d: "distinct (map fst ?ups)" by simp
  have de: "defined_entries ?ups = [(FIRST_NAME, JStr ''Ada'')]"
    by (simp add: defined_entries_def List.map_filter_simps)
  have acc: "update_accepted ?ups"
    by (simp add: update_accepted_def de)
  note t = update_frame[OF d, of "''t2''" no_units None example_user ?w]
  from t acc have ok: "fst (update no_units ''t2'' None ?ups example_user ?w) = Inl TypeError"
    by (simp add: no_units_def)
  from t have r: "resolve_clauses (UPDATE_BUILDERS_set ''t2'' ?ups) =
     Some [(FIRST_NAME, JStr ''Ada''), (UPDATED_AT, JStr ''t2'')]"
    by (simp add: de)
  from t acc obtain new where
    n: "stored (snd (snd (update no_units ''t2'' None ?ups example_user ?w))) (getPrimaryKey example_user) = Some new"
      "new UPDATED_AT = Some (JStr ''t2'')"
      "\<forall>a v. (a, Some v) \<in> set ?ups \<longrightarrow> new a = Some v"
      "\<forall>a. a \<noteq> UPDATED_AT \<and> (a, None) \<in> set ?ups \<longrightarrow> new a = row_before ?w (getPrimaryKey example_user) a"
      "\<forall>a. a \<noteq> UPDATED_AT \<and> a \<notin> fst ` set ?ups \<longrightarrow> new a = row_before ?w (getPrimaryKey example_user) a"
    by blast
  from n(3) have f: "new FIRST_NAME = Some (JStr ''Ada'')" by simp
  from n(4) have l: "new LAST_NAME = row_before ?w (getPrimaryKey example_user) LAST_NAME" by simp
  from n(5) have e: "new EMAIL = row_before ?w (getPrimaryKey example_user) EMAIL" by simp
  have nf: "\<not> (Some Timeout = None \<and> update_accepted ?ups)" by simp
  from update_frame[OF d, of "''t2''" no_units "Some Timeout" example_user ?w] nf
  have u: "table (snd (snd (update no_units ''t2'' (Some Timeout) ?ups example_user ?w))) = table ?w"
    by blast
  from d acc ok r n(1,2) f l e nf u show ?thesis by blast
qed

subsection \<open>chunkArray and batchWrite\<close>

lemma chunk_loop_eq:
  assumes "0 < size'"
  shows "chunk_loop array size' i chunks = Some (chunks @ chunks_of size' (drop i array))"
proof (induction "length array - i" arbitrary: i chunks rule: less_induct)
  case less
  show ?case
  proof (cases "i < length array")
    case True
    then have ne: "drop i array \<noteq> []" by simp
    from True assms have "length array - (i + size') < length array - i" by simp
    from less[OF this] have
      "chunk_loop array size' (i + size') (chunks @ [take size' (drop i array)]) =
         Some ((chunks @ [take size' (drop i array)]) @ chunks_of size' (drop (i + size') array))" .
    moreover have "chunks_of size' (drop i array) =
        take size' (drop i array) # chunks_of size' (drop (i + size') array)"
      using ne assms by (subst chunks_of.simps) (simp add: add.commute)
    ultimately show ?thesis
      using True by (subst chunk_loop.simps) simp
  next
    case False
    then show ?thesis
      by (subst chunk_loop.simps) (simp add: chunks_of.simps)
  qed
qed

lemma chunkArray_eq: "0 < size' \<Longrightarrow> chunkArray array size' = Some (chunks_of size' array)"
  by (simp add: chunkArray_def chunk_loop_eq)

lemma concat_chunks_of: "0 < n \<Longrightarrow> concat (chunks_of n xs) = xs"
proof (induction n xs rule: chunks_of.induct)
  case (1 n xs)
  then show ?case by (subst chunks_of.simps) simp
qed

lemma chunks_of_bounds:
  "0 < n \<Longrightarrow> list_all (\<lambda>c. c \<noteq> [] \<and> length c \<le> n) (chunks_of n xs)"
proof (induction n xs rule: chunks_of.induct)
  case (1 n xs)
  then show ?case by (subst chunks_of.simps) auto
qed

lemma chunks_of_57:
  assumes "length xs = 57"
  shows "chunks_of 25 xs = [take 25 xs, take 25 (drop 25 xs), drop 50 xs]"
proof -
  have 1: "xs \<noteq> []" using assms by auto
  have a: "chunks_of 25 xs = take 25 xs # chunks_of 25 (drop 25 xs)"
    using 1 by (subst chunks_of.simps) simp
  have 2: "drop 25 xs \<noteq> []" using assms by auto
  have b: "chunks_of 25 (drop 25 xs) = take 25 (drop 25 xs) # chunks_of 25 (drop 50 xs)"
    using 2 by (subst chunks_of.simps) simp
  have 3: "drop 50 xs \<noteq> []" using assms by auto
  have 5: "take 25 (drop 50 xs) = drop 50 xs" using assms by auto
  have c: "chunks_of 25 (drop 50 xs) = drop 50 xs # chunks_of 25 (drop 75 xs)"
    using 3 5 by (subst chunks_of.simps) (simp del: drop_eq_Nil drop_eq_Nil2)
  have 4: "drop 75 xs = []" using assms by auto
  have d: "chunks_of 25 (drop 75 xs) = []"
    using 4 by (subst chunks_of.simps) simp
  show ?thesis by (simp only: a b c d)
qed

lemma keys_map_filter:
  "list_all (\<lambda>it. key_of it \<noteq> None) its \<Longrightarrow> map Some (List.map_filter key_of its) = map key_of its"
  by (induction its) (auto simp: List.map_filter_simps)

lemma keys_length:
  "list_all (\<lambda>it. key_of it \<noteq> None) its \<Longrightarrow> length (List.map_filter key_of its) = length its"
  using keys_map_filter[of its] by (metis length_map)

lemma keys_distinct:
  assumes "list_all (\<lambda>it. key_of it \<noteq> None) its" and "distinct (map key_of its)"
  shows "distinct (List.map_filter key_of its)"
proof -
  have "distinct (map Some (List.map_filter key_of its))"
    using assms by (simp add: keys_map_filter)
  then show ?thesis by (simp add: distinct_map)
qed

lemma put_all_fold:
  "foldl (\<lambda>t' it. case key_of it of None \<Rightarrow> t'
                  | Some k \<Rightarrow> if processes [] k then AList.update k it t' else t') t its =
   put_all its t"
proof -
  have "(\<lambda>t' it. case key_of it of None \<Rightarrow> t'
                  | Some k \<Rightarrow> if processes [] k then AList.update k it t' else t') =
        (\<lambda>t' it. case key_of it of None \<Rightarrow> t' | Some k \<Rightarrow> AList.update k it t')"
    by (intro ext) (simp split: option.splits)
  then show ?thesis by (simp only: put_all_def)
qed

lemma engine_batch_write_all:
  assumes "its \<noteq> []" and "length its \<le> 25"
    and "list_all (\<lambda>it. key_of it \<noteq> None) its" and "distinct (map key_of its)"
  shows "engine_batch_write (processes []) its t = Inr ([], put_all its t)"
proof -
  have "filter (\<lambda>it. case key_of it of None \<Rightarrow> False | Some k \<Rightarrow> \<not> processes [] k) its = []"
    by (induction its) (auto split: option.splits)
  then show ?thesis
    using assms keys_length[OF assms(3)] keys_distinct[OF assms(3,4)]
    by (simp add: engine_batch_write_def Let_def put_all_fold)
qed

lemma put_all_snoc:
  "put_all (its @ [it]) t =
     (case key_of it of None \<Rightarrow> put_all its t | Some k \<Rightarrow> AList.update k it (put_all its t))"
  by (simp add: put_all_def split: option.splits)

lemma put_all_append: "put_all (xs @ ys) t = put_all ys (put_all xs t)"
  by (simp add: put_all_def)

lemma map_of_put_all:
  assumes "distinct (map key_of its)" and "it \<in> set its" and "key_of it = Some k"
  shows "map_of (put_all its t) k = Some it"
  using assms
proof (induction its rule: rev_induct)
  case Nil
  then show ?case by simp
next
  case (snoc x xs)
  show ?case
  proof (cases "it = x")
    case True
    then show ?thesis using snoc.prems by (simp add: put_all_snoc update_conv')
  next
    case False
    then have mem: "it \<in> set xs" using snoc.prems by simp
    then have "key_of x \<noteq> key_of it" using snoc.prems(1) by auto
    moreover have "map_of (put_all xs t) k = Some it"
      using snoc.IH snoc.prems mem by simp
    ultimately show ?thesis
      using snoc.prems(3) by (auto simp: put_all_snoc update_conv' split: option.splits)
  qed
qed

lemma putRequest_item:
  assumes "\<not> isl (toItem e)"
  shows "putRequest now n e = Inr (request_item now n e, n + reads e)"
    and "key_of (request_item now n e) = Some (user_key e)"
    and "fromItem (request_item now n e) = read_back now n e"
proof -
  from assms obtain it where it: "toItem e = Inr it" by (cases "toItem e") auto
  show "putRequest now n e = Inr (request_item now n e, n + reads e)"
    by (simp add: request_item_def putRequest_def it reads_def)
  show "key_of (request_item now n e) = Some (user_key e)"
    using key_of_item(1)[OF it] by (simp add: request_item_def putRequest_def it)
  show "fromItem (request_item now n e) = read_back now n e"
    by (simp add: request_item_def putRequest_def it read_back_def fromItem_stored_item[OF it]
        projected_def)
qed

lemma putRequests_items:
  "list_all (\<lambda>e. \<not> isl (toItem e)) chunk \<Longrightarrow>
   putRequests now n chunk = Inr (request_items now n chunk, n + sum_list (map reads chunk))"
  by (induction chunk arbitrary: n) (simp_all add: putRequest_item add.assoc)

lemma request_keys:
  "list_all (\<lambda>e. \<not> isl (toItem e)) chunk \<Longrightarrow>
   map key_of (request_items now n chunk) = map Some (map user_key chunk)"
  by (induction chunk arbitrary: n) (simp_all add: putRequest_item)

lemma request_keyed:
  "list_all (\<lambda>e. \<not> isl (toItem e)) chunk \<Longrightarrow>
   list_all (\<lambda>it. key_of it \<noteq> None) (request_items now n chunk)"
  by (induction chunk arbitrary: n) (simp_all add: putRequest_item)

lemma length_request_items [simp]: "length (request_items now n chunk) = length chunk"
  by (induction chunk arbitrary: n) simp_all

lemma request_items_append:
  "request_items now n (xs @ ys) =
     request_items now n xs @ request_items now (n + sum_list (map reads xs)) ys"
  by (induction xs arbitrary: n) (simp_all add: add.assoc)

lemma request_items_nth:
  "i < length es \<Longrightarrow>
   request_items now n es ! i = request_item now (n + reads_before es i) (es ! i)"
proof (induction es arbitrary: n i)
  case Nil
  then show ?case by simp
next
  case (Cons e es)
  show ?case
  proof (cases i)
    case 0
    then show ?thesis by (simp add: reads_before_def)
  next
    case (Suc j)
    with Cons.prems have "j < length es" by simp
    from Cons.IH[OF this, of "n + reads e"] Suc show ?thesis
      by (simp add: reads_before_def add.assoc)
  qed
qed

lemma batchWrite_loop_all:
  assumes "list_all (\<lambda>c. c \<noteq> [] \<and> length c \<le> 25) chunks"
    and "list_all (\<lambda>e. \<not> isl (toItem e)) (concat chunks)"
    and "distinct (map user_key (concat chunks))"
  shows "batchWrite_loop now n [] chunks w =
     (Inr (), w\<lparr>sent := sent w @ write_commands now n chunks,
                table := put_all (request_items now n (concat chunks)) (table w)\<rparr>)"
  using assms
proof (induction chunks arbitrary: n w)
  case Nil
  then show ?case by (simp add: put_all_def)
next
  case (Cons c chunks)
  let ?its = "request_items now n c"
  have ok: "list_all (\<lambda>e. \<not> isl (toItem e)) c" using Cons.prems(2) by simp
  have p: "putRequests now n c = Inr (?its, n + sum_list (map reads c))"
    by (rule putRequests_items[OF ok])
  have k: "map key_of ?its = map Some (map user_key c)" by (rule request_keys[OF ok])
  have "distinct (map user_key c)" using Cons.prems(3) by simp
  then have d: "distinct (map key_of ?its)"
    by (simp only: k) (auto simp: distinct_map inj_on_def)
  have n: "list_all (\<lambda>it. key_of it \<noteq> None) ?its" by (rule request_keyed[OF ok])
  have ne: "?its \<noteq> []" using Cons.prems(1) by (cases c) simp_all
  have le: "length ?its \<le> 25" using Cons.prems(1) by simp
  have e: "engine_batch_write (processes []) ?its t = Inr ([], put_all ?its t)" for t
    by (rule engine_batch_write_all[OF ne le n d])
  have rest: "list_all (\<lambda>c. c \<noteq> [] \<and> length c \<le> 25) chunks"
      "list_all (\<lambda>e. \<not> isl (toItem e)) (concat chunks)"
      "distinct (map user_key (concat chunks))"
    using Cons.prems by simp_all
  show ?case
    by (simp add: p send_def e Let_def Cons.IH[OF rest] put_all_append request_items_append)
qed

lemma batchWrite_catch_simps [simp]:
  "fst (batchWrite_catch mu err w) = after_metric mu (Inl err)"
  "table (snd (batchWrite_catch mu err w)) = table w"
  "sent (snd (batchWrite_catch mu err w)) = sent w"
  by (simp_all add: batchWrite_catch_def split_beta after_metric_def split: option.splits)

lemma batchWrite_all:
  assumes "list_all (\<lambda>e. \<not> isl (toItem e)) entities"
    and "distinct (map user_key entities)"
  shows "\<exists>w'. batchWrite mu now [] entities w = Some (after_metric mu (Inr ()), w') \<and>
           sent w' = sent w @ write_commands now 0 (chunks_of 25 entities) \<and>
           table w' = put_all (request_items now 0 entities) (table w)"
proof -
  have c: "concat (chunks_of 25 entities) = entities" by (simp add: concat_chunks_of)
  have b: "list_all (\<lambda>c. c \<noteq> [] \<and> length c \<le> 25) (chunks_of 25 entities)"
    by (simp add: chunks_of_bounds)
  let ?wl = "w\<lparr>sent := sent w @ write_commands now 0 (chunks_of 25 entities),
               table := put_all (request_items now 0 entities) (table w)\<rparr>"
  have "batchWrite_loop now 0 [] (chunks_of 25 entities) w =
     (Inr (), w\<lparr>sent := sent w @ write_commands now 0 (chunks_of 25 entities),
        table := put_all (request_items now 0 (concat (chunks_of 25 entities))) (table w)\<rparr>)"
    by (rule batchWrite_loop_all[OF b]) (simp_all only: c assms)
  then have loop: "batchWrite_loop now 0 [] (chunks_of 25 entities) w = (Inr (), ?wl)"
    by (simp only: c)
  show ?thesis
    by (cases mu)
      (simp_all add: batchWrite_def chunkArray_eq loop logMetric_def batchWrite_catch_def
        catch_block_eq log_def)
qed

lemma stored_after_put_all:
  assumes ok: "list_all (\<lambda>e. \<not> isl (toItem e)) entities"
    and d: "distinct (map user_key entities)"
    and i: "i < length entities"
  shows "map_of (put_all (request_items now 0 entities) t) (user_key (entities ! i)) =
           Some (request_item now (reads_before entities i) (entities ! i))"
proof -
  have keys: "map key_of (request_items now 0 entities) = map Some (map user_key entities)"
    by (rule request_keys[OF ok])
  have dk: "distinct (map key_of (request_items now 0 entities))"
    using d by (simp only: keys) (auto simp: distinct_map inj_on_def)
  have n: "\<not> isl (toItem (entities ! i))" using ok i by (simp add: list_all_length)
  have m: "request_items now 0 entities ! i \<in> set (request_items now 0 entities)"
    using i by simp
  have e: "request_items now 0 entities ! i =
             request_item now (reads_before entities i) (entities ! i)"
    using request_items_nth[OF i, of now 0] by simp
  show ?thesis
    using map_of_put_all[OF dk m, of "user_key (entities ! i)" t] putRequest_item(2)[OF n]
    by (simp add: e)
qed

lemma toItem_numbered: "\<not> isl (toItem (numbered_user n))"
  by (simp add: numbered_user_def example_user_def toItem_def Let_def set_if_def)

lemma user_key_numbered:
  "user_key (numbered_user n) = (''USER#'' @ string_of_nat n, ''USER#'' @ string_of_nat n)"
  by (simp add: user_key_def numbered_user_def template_def)

lemma distinct_numbered: "distinct (map user_key (map numbered_user [0..<n]))"
  by (simp add: distinct_map inj_on_def user_key_numbered string_of_nat_inj del: append.simps)

text \<open>
  C9. \<open>batchWrite\<close> of 57 entities, each with an item projection and no two with the same
  primary key, to an engine that processes every item it is sent: \<open>chunkArray\<close> returns
  three chunks of 25, 25 and 7 entities whose concatenation is the input list; one
  BatchWriteCommand is sent per chunk, in order, carrying the 25, 25 and 7 items of the put
  requests of that chunk; and afterwards \<open>getByKey\<close> at the primary key of each of the 57
  entities returns that entity as its item keeps it, with its createdAt or else a reading of
  the clock as createdAt and the next reading as updatedAt. \<open>batchWrite\<close> calls \<open>logMetric\<close>
  after the requests, so that its own result is that of \<open>logMetric\<close>.
\<close>

theorem batchWrite_57:
  assumes "length entities = 57"
    and "list_all (\<lambda>e. \<not> isl (toItem e)) entities"
    and "distinct (map user_key entities)"
  shows "\<exists>c1 c2 c3 i1 i2 i3 n1 n2 n3 w'.
      chunkArray entities 25 = Some [c1, c2, c3] \<and>
      length c1 = 25 \<and> length c2 = 25 \<and> length c3 = 7 \<and> c1 @ c2 @ c3 = entities \<and>
      putRequests now 0 c1 = Inr (i1, n1) \<and> putRequests now n1 c2 = Inr (i2, n2) \<and>
      putRequests now n2 c3 = Inr (i3, n3) \<and>
      length i1 = 25 \<and> length i2 = 25 \<and> length i3 = 7 \<and>
      batchWrite mu now [] entities w = Some (after_metric mu (Inr ()), w') \<and>
      sent w' = sent w @ [BatchWriteCommand i1, BatchWriteCommand i2, BatchWriteCommand i3] \<and>
      list_all (\<lambda>(i, e). fst (getByKey None (getPrimaryKey e) w') =
                           Inr (Some (read_back now (reads_before entities i) e)))
        (enumerate 0 entities)"
proof -
  let ?c1 = "take 25 entities" and ?c2 = "take 25 (drop 25 entities)" and ?c3 = "drop 50 entities"
  let ?n1 = "sum_list (map reads ?c1)"
  let ?n2 = "?n1 + sum_list (map reads ?c2)"
  let ?n3 = "?n2 + sum_list (map reads ?c3)"
  let ?i1 = "request_items now 0 ?c1" and ?i2 = "request_items now ?n1 ?c2"
    and ?i3 = "request_items now ?n2 ?c3"
  have ch: "chunkArray entities 25 = Some [?c1, ?c2, ?c3]"
    by (simp add: chunkArray_eq chunks_of_57[OF assms(1)])
  have cat: "?c1 @ ?c2 @ ?c3 = entities"
    using concat_chunks_of[of 25 entities] by (simp add: chunks_of_57[OF assms(1)])
  have len: "length ?c1 = 25" "length ?c2 = 25" "length ?c3 = 7" using assms(1) by simp_all
  have ok: "list_all (\<lambda>e. \<not> isl (toItem e)) c" if "set c \<subseteq> set entities" for c
    using assms(2) that by (auto simp: list_all_iff)
  have p1: "putRequests now 0 ?c1 = Inr (?i1, ?n1)"
    using putRequests_items[OF ok, of ?c1 now 0] by (simp add: set_take_subset)
  have p2: "putRequests now ?n1 ?c2 = Inr (?i2, ?n2)"
    by (rule putRequests_items[OF ok])
      (meson set_take_subset set_drop_subset subset_trans)
  have p3: "putRequests now ?n2 ?c3 = Inr (?i3, ?n3)"
    by (rule putRequests_items[OF ok]) (rule set_drop_subset)
  have il: "length ?i1 = 25" "length ?i2 = 25" "length ?i3 = 7" using len by simp_all
  from batchWrite_all[OF assms(2,3), of mu now w] obtain w' where
    bw: "batchWrite mu now [] entities w = Some (after_metric mu (Inr ()), w')"
    and s0: "sent w' = sent w @ write_commands now 0 (chunks_of 25 entities)"
    and t: "table w' = put_all (request_items now 0 entities) (table w)"
    by blast
  have s: "sent w' = sent w @ [BatchWriteCommand ?i1, BatchWriteCommand ?i2, BatchWriteCommand ?i3]"
    by (simp add: s0 chunks_of_57[OF assms(1)] del: drop_eq_Nil drop_eq_Nil2)
  have get: "fst (getByKey None (getPrimaryKey e) w') =
               Inr (Some (read_back now (reads_before entities i) e))"
    if ie: "(i, e) \<in> set (enumerate 0 entities)" for i e
  proof -
    from ie have i: "i < length entities" and e: "entities ! i = e"
      by (simp_all add: in_set_enumerate_eq)
    have n: "\<not> isl (toItem e)" using assms(2) i e by (auto simp: list_all_length)
    have "map_of (table w') (user_key e) = Some (request_item now (reads_before entities i) e)"
      using stored_after_put_all[OF assms(2,3) i, of now "table w"] by (simp add: t e)
    from getByKey_stored[OF this] show ?thesis
      by (simp add: putRequest_item(3)[OF n])
  qed
  have all: "list_all (\<lambda>(i, e). fst (getByKey None (getPrimaryKey e) w') =
                           Inr (Some (read_back now (reads_before entities i) e)))
        (enumerate 0 entities)"
    using get by (auto simp: list_all_iff)
  show ?thesis
    apply (rule exI[of _ ?c1], rule exI[of _ ?c2], rule exI[of _ ?c3])
    apply (rule exI[of _ ?i1], rule exI[of _ ?i2], rule exI[of _ ?i3])
    apply (rule exI[of _ ?n1], rule exI[of _ ?n2], rule exI[of _ ?n3], rule exI[of _ w'])
    apply (intro conjI)
    apply (rule ch, rule len(1), rule len(2), rule len(3), rule cat, rule p1, rule p2, rule p3,
           rule il(1), rule il(2), rule il(3), rule bw, rule s, rule all)
    done
qed

text \<open>
  The theorem at the users numbered 0 to 56, written to the empty table, when \<^verbatim>\<open>MetricUnits\<close>
  is \<^verbatim>\<open>undefined\<close>: the three requests are sent, the 57 users are stored, and \<open>batchWrite\<close>
  ends with the TypeError of \<open>logMetric\<close>.
\<close>

theorem batchWrite_57_witness:
  "length (map numbered_user [0..<57]) = 57 \<and>
   list_all (\<lambda>e. \<not> isl (toItem e)) (map numbered_user [0..<57]) \<and>
   distinct (map user_key (map numbered_user [0..<57])) \<and>
   (\<exists>c1 c2 c3 i1 i2 i3 n1 n2 n3 w'.
      chunkArray (map numbered_user [0..<57]) 25 = Some [c1, c2, c3] \<and>
      length c1 = 25 \<and> length c2 = 25 \<and> length c3 = 7 \<and>
      c1 @ c2 @ c3 = map numbered_user [0..<57] \<and>
      putRequests example_clock 0 c1 = Inr (i1, n1) \<and> putRequests example_clock n1 c2 = Inr (i2, n2) \<and>
      putRequests example_clock n2 c3 = Inr (i3, n3) \<and>
      length i1 = 25 \<and> length i2 = 25 \<and> length i3 = 7 \<and>
      batchWrite no_units example_clock [] (map numbered_user [0..<57]) empty_world =
        Some (Inl TypeError, w') \<and>
      sent w' = sent empty_world @
        [BatchWriteCommand i1, BatchWriteCommand i2, BatchWriteCommand i3] \<and>
      list_all (\<lambda>(i, e). fst (getByKey None (getPrimaryKey e) w') =
                           Inr (Some (read_back example_clock (reads_before (map numbered_user [0..<57]) i) e)))
        (enumerate 0 (map numbered_user [0..<57])))"
proof -
  have 1: "length (map numbered_user [0..<57]) = 57" by simp
  have 2: "list_all (\<lambda>e. \<not> isl (toItem e)) (map numbered_user [0..<57])"
    by (simp only: list_all_iff) (simp add: toItem_numbered)
  have 3: "distinct (map user_key (map numbered_user [0..<57]))" by (rule distinct_numbered)
  have a: "after_metric no_units (Inr ()) = (Inl TypeError :: error + unit)"
    by (simp add: no_units_def)
  show ?thesis
    using batchWrite_57[OF 1 2 3, of example_clock no_units empty_world] 1 2 3
    by (simp only: a)
qed

subsection \<open>batchGet\<close>

lemma no_fault: "list_all (\<lambda>out. fault_of [out] = None) plan \<Longrightarrow> fault_of plan = None"
  by (cases plan rule: fault_of.cases) simp_all

lemma no_fault_tl:
  "list_all (\<lambda>out. fault_of [out] = None) plan \<Longrightarrow> list_all (\<lambda>out. fault_of [out] = None) (tl plan)"
  by (cases plan) simp_all

lemma engine_batch_get_eq:
  assumes "chunk \<noteq> []" and "length chunk \<le> 100"
    and "list_all (\<lambda>k. key_of k \<noteq> None) chunk" and "distinct (map key_of chunk)"
  shows "engine_batch_get p chunk t =
     Inr ((List.map_filter (map_of t) (filter p (List.map_filter key_of chunk)),
           filter (\<lambda>k. \<not> p k) (List.map_filter key_of chunk)), t)"
  using assms keys_length[OF assms(3)] keys_distinct[OF assms(3,4)]
  by (simp add: engine_batch_get_def Let_def)

lemma batchGet_loop_eq:
  assumes "list_all (\<lambda>c. c \<noteq> [] \<and> length c \<le> 100) chunks"
    and "list_all (\<lambda>k. key_of k \<noteq> None) (concat chunks)"
    and "distinct (map key_of (concat chunks))"
    and "list_all (\<lambda>out. fault_of [out] = None) plan"
  shows "batchGet_loop plan chunks allItems w =
     (Inr (allItems @ map fromItem (answers plan chunks (table w))),
      w\<lparr>sent := sent w @ map BatchGetCommand chunks,
        logs := logs w @ warnings plan chunks\<rparr>)"
  using assms
proof (induction chunks arbitrary: plan allItems w)
  case Nil
  then show ?case by simp
next
  case (Cons c chunks)
  have e: "engine_batch_get (processes plan) c t =
     Inr ((List.map_filter (map_of t) (filter (processes plan) (List.map_filter key_of c)),
           filter (\<lambda>k. \<not> processes plan k) (List.map_filter key_of c)), t)" for t
    using Cons.prems(1,2,3) by (intro engine_batch_get_eq) simp_all
  have rest: "list_all (\<lambda>c. c \<noteq> [] \<and> length c \<le> 100) chunks"
      "list_all (\<lambda>k. key_of k \<noteq> None) (concat chunks)"
      "distinct (map key_of (concat chunks))"
    using Cons.prems by simp_all
  note IH = Cons.IH[OF rest no_fault_tl[OF Cons.prems(4)]]
  show ?case
    by (simp add: send_def e Let_def no_fault[OF Cons.prems(4)] IH log_def)
qed

lemma batchGet_eq:
  assumes "list_all (\<lambda>k. key_of k \<noteq> None) keys"
    and "distinct (map key_of keys)"
    and "list_all (\<lambda>out. fault_of [out] = None) plan"
  shows "batchGet mu plan keys w =
     Some (after_metric mu (Inr (map fromItem (answers plan (chunks_of 100 keys) (table w)))),
           w\<lparr>sent := sent w @ map BatchGetCommand (chunks_of 100 keys),
             logs := logs w @ warnings plan (chunks_of 100 keys) @
               (case mu of None \<Rightarrow> [(ERROR, ''Failed to batch get items'')] | Some units \<Rightarrow> []),
             metrics := metrics w @
               (case mu of
                  None \<Rightarrow> []
                | Some units \<Rightarrow>
                    [(''UserRepositoryBatchGet'', map_of units ''Count'', 1),
                     (''UserRepositoryBatchGetItemCount'', map_of units ''Count'',
                      length (answers plan (chunks_of 100 keys) (table w)))])\<rparr>)"
proof -
  have c: "concat (chunks_of 100 keys) = keys" by (simp add: concat_chunks_of)
  have b: "list_all (\<lambda>c. c \<noteq> [] \<and> length c \<le> 100) (chunks_of 100 keys)"
    by (simp add: chunks_of_bounds)
  have "batchGet_loop plan (chunks_of 100 keys) [] w =
     (Inr ([] @ map fromItem (answers plan (chunks_of 100 keys) (table w))),
      w\<lparr>sent := sent w @ map BatchGetCommand (chunks_of 100 keys),
        logs := logs w @ warnings plan (chunks_of 100 keys)\<rparr>)"
    by (rule batchGet_loop_eq[OF b]) (simp_all only: c assms)
  then show ?thesis
    by (cases mu)
      (simp_all add: batchGet_def chunkArray_eq logMetric_def batchGet_catch_def
        catch_block_eq log_def)
qed


lemma chunks_of_two:
  assumes "n < length xs" and "length xs \<le> 2 * n"
  shows "chunks_of n xs = [take n xs, drop n xs]"
proof -
  have 1: "xs \<noteq> []" "n \<noteq> 0" using assms by auto
  have a: "chunks_of n xs = take n xs # chunks_of n (drop n xs)"
    using 1 by (subst chunks_of.simps) simp
  have 2: "drop n xs \<noteq> []" using assms by auto
  have 3: "take n (drop n xs) = drop n xs" using assms by auto
  have b: "chunks_of n (drop n xs) = drop n xs # chunks_of n (drop n (drop n xs))"
    using 1 2 3 by (subst chunks_of.simps) (simp del: drop_eq_Nil drop_eq_Nil2 drop_drop)
  have 4: "drop n (drop n xs) = []" using assms by auto
  have c: "chunks_of n (drop n (drop n xs)) = []"
    by (subst chunks_of.simps) (simp only: 4 simp_thms if_True)
  show ?thesis by (simp only: a b c)
qed

lemma numbered_key_inj:
  "user_key (numbered_user m) = user_key (numbered_user n) \<longleftrightarrow> m = n"
  by (simp add: user_key_numbered string_of_nat_inj del: append.simps)

lemma key_of_numbered_key: "key_of (numbered_key n) = Some (user_key (numbered_user n))"
  by (simp add: numbered_key_def key_of_getPrimaryKey)

lemma keys_numbered:
  "List.map_filter key_of (map numbered_key ns) = map user_key (map numbered_user ns)"
  by (induction ns) (simp_all add: List.map_filter_simps key_of_numbered_key)

lemma map_of_numbered:
  "map_of (map numbered_entry ns) (user_key (numbered_user m)) =
     (if m \<in> set ns then Some (numbered_row m) else None)"
  by (induction ns) (auto simp: numbered_key_inj)

lemma rows_numbered:
  "set ms \<subseteq> set ns \<Longrightarrow>
   List.map_filter (map_of (map numbered_entry ns)) (map user_key (map numbered_user ms)) =
     map numbered_row ms"
  by (induction ms) (simp_all add: List.map_filter_simps map_of_numbered)

lemma filter_numbered:
  "filter (\<lambda>k. k \<notin> set (map user_key (map numbered_user A))) (map user_key (map numbered_user ms)) =
     map user_key (map numbered_user (filter (\<lambda>m. m \<notin> set A) ms))"
  "filter (\<lambda>k. \<not> k \<notin> set (map user_key (map numbered_user A))) (map user_key (map numbered_user ms)) =
     map user_key (map numbered_user (filter (\<lambda>m. m \<in> set A) ms))"
  by (induction ms) (auto simp: numbered_key_inj)

lemma filter_upt_ge: "filter (\<lambda>m. m \<notin> set [0..<a]) [0..<b] = [a..<b]"
proof (cases "a \<le> b")
  case True
  then have "[0..<b] = [0..<a] @ [a..<b]" by (metis le_iff_add upt_add_eq_append zero_le)
  then show ?thesis by (simp add: filter_empty_conv)
next
  case False
  then show ?thesis by (simp add: filter_empty_conv)
qed

lemma filter_upt_lt: "a \<le> b \<Longrightarrow> filter (\<lambda>m. m \<in> set [0..<a]) [0..<b] = [0..<a]"
proof -
  assume "a \<le> b"
  then have "[0..<b] = [0..<a] @ [a..<b]" by (metis le_iff_add upt_add_eq_append zero_le)
  then show ?thesis by (simp add: filter_empty_conv)
qed

lemma keys_120:
  "list_all (\<lambda>k. key_of k \<noteq> None) (map numbered_key [0..<n])"
  "distinct (map key_of (map numbered_key [0..<n]))"
  by (simp_all add: list_all_iff key_of_numbered_key distinct_map inj_on_def numbered_key_inj)

lemma chunks_120:
  "chunks_of 100 (map numbered_key [0..<120]) =
     [map numbered_key [0..<100], map numbered_key [100..<120]]"
  by (subst chunks_of_two) (simp_all add: take_map drop_map)

lemma processes_eta:
  "processes (Processes p # plan) = p" "processes [] = (\<lambda>k. True)"
  by (rule ext, simp)+

lemma first_request:
  "filter (processes first_three_unprocessed) (map user_key (map numbered_user [0..<100])) =
     map user_key (map numbered_user [3..<100])"
  "filter (\<lambda>k. \<not> processes first_three_unprocessed k) (map user_key (map numbered_user [0..<100])) =
     map user_key (map numbered_user [0..<3])"
proof -
  have le: "(3::nat) \<le> 100" by simp
  show "filter (processes first_three_unprocessed) (map user_key (map numbered_user [0..<100])) =
     map user_key (map numbered_user [3..<100])"
    by (simp only: first_three_unprocessed_def processes_eta filter_numbered(1) filter_upt_ge)
  show "filter (\<lambda>k. \<not> processes first_three_unprocessed k)
          (map user_key (map numbered_user [0..<100])) =
     map user_key (map numbered_user [0..<3])"
    by (simp only: first_three_unprocessed_def processes_eta filter_numbered(2) filter_upt_lt[OF le])
qed

lemma second_request:
  "filter (processes (tl first_three_unprocessed)) ks = ks"
  "filter (\<lambda>k. \<not> processes (tl first_three_unprocessed) k) ks = []"
  by (simp_all add: first_three_unprocessed_def)

lemma answers_120:
  "answers first_three_unprocessed [map numbered_key [0..<100], map numbered_key [100..<120]]
     (table (numbered_world 120)) = map numbered_row [3..<120]"
proof -
  have a: "[3..<120] = [3..<100] @ [100..<120]"
    using upt_add_eq_append[of 3 100 20] by (simp del: upt_Suc upt_rec_numeral)
  have 1: "set [3..<100] \<subseteq> set [0..<120]" "set [100..<120] \<subseteq> set [0..<120]" by auto
  have t: "table (numbered_world 120) = map numbered_entry [0..<120]"
    by (simp add: numbered_world_def del: upt_Suc upt_rec_numeral)
  show ?thesis
    by (simp only: a map_append answers.simps keys_numbered first_request second_request t
        rows_numbered[OF 1(1)] rows_numbered[OF 1(2)] append_Nil2)
qed

lemma warnings_120:
  "warnings first_three_unprocessed [map numbered_key [0..<100], map numbered_key [100..<120]] =
     [(WARN, ''Unprocessed keys in batch get'')]"
proof -
  have n: "map user_key (map numbered_user [0..<3]) \<noteq> []" by simp
  show ?thesis
    by (simp only: warnings.simps keys_numbered first_request second_request n if_True
        simp_thms if_False append_Nil2)
qed


text \<open>
  C4, as the code has it. For keys that are well formed and pairwise distinct and an engine
  that meets no fault, \<open>batchGet\<close> splits the key list, of any length, into chunks of at
  most 100 keys, sends exactly one BatchGetCommand per chunk, in order, and nothing else: it
  never asks again for a key that the engine reported as unprocessed. It logs one warning
  per chunk that had unprocessed keys, and the entities it has collected are those of the
  stored items of the processed keys; it then calls \<open>logMetric\<close>, and returns these entities
  when \<open>logMetric\<close> returns.
\<close>

theorem batchGet_no_retry:
  assumes "list_all (\<lambda>k. key_of k \<noteq> None) keys"
    and "distinct (map key_of keys)"
    and "list_all (\<lambda>out. fault_of [out] = None) plan"
  shows "chunkArray keys 100 = Some (chunks_of 100 keys) \<and>
     concat (chunks_of 100 keys) = keys \<and>
     list_all (\<lambda>c. c \<noteq> [] \<and> length c \<le> 100) (chunks_of 100 keys) \<and>
     batchGet mu plan keys w =
       Some (after_metric mu (Inr (map fromItem (answers plan (chunks_of 100 keys) (table w)))),
             w\<lparr>sent := sent w @ map BatchGetCommand (chunks_of 100 keys),
               logs := logs w @ warnings plan (chunks_of 100 keys) @
                 (case mu of None \<Rightarrow> [(ERROR, ''Failed to batch get items'')] | Some units \<Rightarrow> []),
               metrics := metrics w @
                 (case mu of
                    None \<Rightarrow> []
                  | Some units \<Rightarrow>
                      [(''UserRepositoryBatchGet'', map_of units ''Count'', 1),
                       (''UserRepositoryBatchGetItemCount'', map_of units ''Count'',
                        length (answers plan (chunks_of 100 keys) (table w)))])\<rparr>)"
  using batchGet_eq[OF assms] by (simp add: chunkArray_eq concat_chunks_of chunks_of_bounds)

text \<open>
  The theorem at 120 keys of stored users, with an engine that leaves three keys of the first
  request unprocessed, when \<^verbatim>\<open>MetricUnits\<close> is exported.
\<close>

theorem batchGet_no_retry_witness:
  "list_all (\<lambda>k. key_of k \<noteq> None) (map numbered_key [0..<120]) \<and>
   distinct (map key_of (map numbered_key [0..<120])) \<and>
   list_all (\<lambda>out. fault_of [out] = None) first_three_unprocessed \<and>
   chunkArray (map numbered_key [0..<120]) 100 = Some (chunks_of 100 (map numbered_key [0..<120])) \<and>
   concat (chunks_of 100 (map numbered_key [0..<120])) = map numbered_key [0..<120] \<and>
   list_all (\<lambda>c. c \<noteq> [] \<and> length c \<le> 100) (chunks_of 100 (map numbered_key [0..<120])) \<and>
   batchGet count_units first_three_unprocessed (map numbered_key [0..<120]) (numbered_world 120) =
     Some (Inr (map fromItem
                  (answers first_three_unprocessed (chunks_of 100 (map numbered_key [0..<120]))
                     (table (numbered_world 120)))),
           (numbered_world 120)
             \<lparr>sent := sent (numbered_world 120) @
                 map BatchGetCommand (chunks_of 100 (map numbered_key [0..<120])),
              logs := logs (numbered_world 120) @
                 warnings first_three_unprocessed (chunks_of 100 (map numbered_key [0..<120])),
              metrics := metrics (numbered_world 120) @
                 [(''UserRepositoryBatchGet'', Some (JStr ''Count''), 1),
                  (''UserRepositoryBatchGetItemCount'', Some (JStr ''Count''),
                   length (answers first_three_unprocessed
                             (chunks_of 100 (map numbered_key [0..<120]))
                             (table (numbered_world 120))))]\<rparr>)"
proof -
  have 3: "list_all (\<lambda>out. fault_of [out] = None) first_three_unprocessed"
    by (simp add: first_three_unprocessed_def)
  show ?thesis
    using batchGet_no_retry[OF keys_120 3, of 120 count_units "numbered_world 120"]
      keys_120[of 120] 3
    by (intro conjI) (simp_all add: count_units_def)
qed


text \<open>
  C4 as stated fails: there is no retry. With 120 keys of stored users and an engine that
  reports the keys of the users 0, 1 and 2 as unprocessed in its first answer and would
  process everything afterwards, \<open>batchGet\<close> sends two requests, the two chunks of 100 and 20
  keys, and logs one warning; although user 0 is stored, it has collected only the 117 users
  3 to 119. It returns them when \<^verbatim>\<open>MetricUnits\<close> is exported, and fails with the TypeError of
  \<open>logMetric\<close> when it is \<^verbatim>\<open>undefined\<close>.
\<close>

theorem batchGet_unprocessed_counterexample:
  "batchGet count_units first_three_unprocessed (map numbered_key [0..<120]) (numbered_world 120) =
     Some (Inr (map fromItem (map numbered_row [3..<120])),
           (numbered_world 120)
             \<lparr>sent := [BatchGetCommand (map numbered_key [0..<100]),
                       BatchGetCommand (map numbered_key [100..<120])],
              logs := [(WARN, ''Unprocessed keys in batch get'')],
              metrics := [(''UserRepositoryBatchGet'', Some (JStr ''Count''), 1),
                          (''UserRepositoryBatchGetItemCount'', Some (JStr ''Count''), 117)]\<rparr>) \<and>
   batchGet no_units first_three_unprocessed (map numbered_key [0..<120]) (numbered_world 120) =
     Some (Inl TypeError,
           (numbered_world 120)
             \<lparr>sent := [BatchGetCommand (map numbered_key [0..<100]),
                       BatchGetCommand (map numbered_key [100..<120])],
              logs := [(WARN, ''Unprocessed keys in batch get''),
                       (ERROR, ''Failed to batch get items'')]\<rparr>) \<and>
   length (map fromItem (map numbered_row [3..<120])) = 117 \<and>
   map_of (table (numbered_world 120)) (user_key (numbered_user 0)) = Some (numbered_row 0)"
proof -
  have 3: "list_all (\<lambda>out. fault_of [out] = None) first_three_unprocessed"
    by (simp add: first_three_unprocessed_def)
  have l: "length (map numbered_row [3..<120]) = 117" by simp
  have b: "batchGet count_units first_three_unprocessed (map numbered_key [0..<120])
             (numbered_world 120) =
     Some (Inr (map fromItem (map numbered_row [3..<120])),
           (numbered_world 120)
             \<lparr>sent := [BatchGetCommand (map numbered_key [0..<100]),
                       BatchGetCommand (map numbered_key [100..<120])],
              logs := [(WARN, ''Unprocessed keys in batch get'')],
              metrics := [(''UserRepositoryBatchGet'', Some (JStr ''Count''), 1),
                          (''UserRepositoryBatchGetItemCount'', Some (JStr ''Count''), 117)]\<rparr>)"
    by (simp only: batchGet_eq[OF keys_120 3] chunks_120 answers_120 warnings_120 l)
       (simp add: numbered_world_def count_units_def del: upt_Suc upt_rec_numeral)
  have n: "batchGet no_units first_three_unprocessed (map numbered_key [0..<120])
             (numbered_world 120) =
     Some (Inl TypeError,
           (numbered_world 120)
             \<lparr>sent := [BatchGetCommand (map numbered_key [0..<100]),
                       BatchGetCommand (map numbered_key [100..<120])],
              logs := [(WARN, ''Unprocessed keys in batch get''),
                       (ERROR, ''Failed to batch get items'')]\<rparr>)"
    by (simp only: batchGet_eq[OF keys_120 3] chunks_120 answers_120 warnings_120 l)
       (simp add: numbered_world_def no_units_def del: upt_Suc upt_rec_numeral)
  have s: "map_of (table (numbered_world 120)) (user_key (numbered_user 0)) = Some (numbered_row 0)"
    by (simp add: numbered_world_def map_of_numbered del: upt_Suc upt_rec_numeral)
  show ?thesis using b n s by simp
qed

subsection \<open>Lookup keys\<close>

lemmas query_eval = getByEmail_def getByClkkTag_def queryByIndex_def queryByIndex_catch_def
  catch_block_eq logMetric_def parsePaginationParams_def QUERY_BUILDERS_keyCondition_def
  send_def engine_query_def index_partition_key_def Let_def log_def

lemma lower_example: "toLowerCase ''test@example.com'' = ''test@example.com''"
  "toLowerCase ''Test@Example.com'' = ''test@example.com''"
  by (simp_all add: toLowerCase_def toLowerCase_char_def upper_letters_def lower_letters_def)

lemma userByEmail_key:
  "KEY_BUILDERS_userByEmail e EMAIL_KEY = Some (JStr (''EMAIL#'' @ toLowerCase e))"
  "KEY_BUILDERS_userByClkkTag t CLKK_TAG_KEY = Some (JStr (''TAG#'' @ toLowerCase t))"
  by (simp_all add: KEY_BUILDERS_userByEmail_def KEY_BUILDERS_userByClkkTag_def)

text \<open>
  The item projection \<open>toItem\<close> builds the index keys with the key builders that the lookups
  use: the category prefix and the lower-case email or tag.
\<close>

lemma toItem_index_keys:
  assumes "toItem u = Inr it"
  shows "\<exists>e. email u = Some (JStr e) \<and> it EMAIL_KEY = Some (JStr (''EMAIL#'' @ toLowerCase e))"
    and "truthy (clkkTag u) \<Longrightarrow>
         \<exists>t. clkkTag u = Some (JStr t) \<and> it CLKK_TAG_KEY = Some (JStr (''TAG#'' @ toLowerCase t))"
  using assms
  by (auto simp: toItem_def Let_def userByEmail_key split: option.splits jsval.splits if_splits)

text \<open>
  C5 at its scenario. The example user, with the email \<^verbatim>\<open>Test@Example.com\<close>, is created in
  the empty table, and then looked up by the email \<^verbatim>\<open>test@example.com\<close>. The row is stored
  with the index key \<^verbatim>\<open>EMAIL#test@example.com\<close>, the lookup sends one query for that key and
  the engine answers with the row. When \<^verbatim>\<open>MetricUnits\<close> is exported the lookup returns the
  user. When it is \<^verbatim>\<open>undefined\<close>, \<open>queryByIndex\<close> fails after the query with the TypeError of
  \<open>logMetric\<close>, and so does the lookup.
\<close>

theorem getByEmail_after_create:
  "fst (getByEmail count_units None ''test@example.com''
          (snd (snd (create email_regex count_units ''t1'' None example_user empty_world)))) =
     Inr (Some (example_user\<lparr>createdAt := Some (JStr ''t1''), updatedAt := Some (JStr ''t1'')\<rparr>)) \<and>
   fst (getByEmail no_units None ''test@example.com''
          (snd (snd (create email_regex no_units ''t1'' None example_user empty_world)))) =
     Inl TypeError \<and>
   fst (getByKey None (getPrimaryKey example_user)
          (snd (snd (create email_regex no_units ''t1'' None example_user empty_world)))) =
     Inr (Some (example_user\<lparr>createdAt := Some (JStr ''t1''), updatedAt := Some (JStr ''t1'')\<rparr>)) \<and>
   KEY_BUILDERS_userByEmail ''test@example.com'' EMAIL_KEY = Some (JStr ''EMAIL#test@example.com'') \<and>
   KEY_BUILDERS_userByEmail ''Test@Example.com'' EMAIL_KEY = Some (JStr ''EMAIL#test@example.com'') \<and>
   sent (snd (getByEmail no_units None ''test@example.com''
          (snd (snd (create email_regex no_units ''t1'' None example_user empty_world))))) =
     sent (snd (snd (create email_regex no_units ''t1'' None example_user empty_world))) @
     [QueryCommand INDEXES_EMAIL
        (QUERY_BUILDERS_keyCondition EMAIL_KEY (Some (JStr ''EMAIL#test@example.com'')))
        \<lparr>Limit = 1, ExclusiveStartKey = None\<rparr> False]"
  using valid_example
  apply (simp add: create_eval example_user_def empty_world_def)
  apply (simp add: query_eval userByEmail_key lower_example KEY_BUILDERS_userByEmail_def
      KEY_BUILDERS_userByClerkId_def fromItem_def get_eval)
  done

end
